theory Spec2Isabelle
  imports Complex_Main
begin

section \<open>The game world of yass (game.c, game.h)\<close>

text \<open>
  The C code computes with \<open>float\<close>; the embedding computes with \<open>real\<close>, so rounding,
  infinities and NaN are outside the model. The one place where rounding decides what
  the code does is the time accumulator of \<open>world_update\<close>: the number of physics
  steps depends on it, and it is modelled a second time with the rounding of the C
  types (\<open>sim_loop_f32\<close>, \<open>world_update_f32\<close>). Integers (\<open>int\<close>, \<open>size_t\<close>) are far from
  their bounds in every operation below and are modelled as \<open>int\<close> and \<open>nat\<close>.
  The structs follow the fields that game.c reads and writes.
\<close>

subsection \<open>Constants of game.h\<close>

definition SCREEN_HEIGHT :: real where "SCREEN_HEIGHT = 800"
definition ENEMY_INITIAL_HITPOINTS :: real where "ENEMY_INITIAL_HITPOINTS = 30"
definition ENEMY_COLLISION_DAMAGE :: real where "ENEMY_COLLISION_DAMAGE = 50"
definition PLAYER_INITIAL_HITPOINTS :: real where "PLAYER_INITIAL_HITPOINTS = 100"
definition PLAYER_INITIAL_SPEED :: real where "PLAYER_INITIAL_SPEED = 200"
definition PLAYER_ACTION_SHOOT_RATE :: real where "PLAYER_ACTION_SHOOT_RATE = 1"
definition PLAYER_PROJECTILE_INITIAL_SPEED :: real where "PLAYER_PROJECTILE_INITIAL_SPEED = 400"
definition PLAYER_PROJECTILE_TTL :: real where "PLAYER_PROJECTILE_TTL = 5"
definition SIMULATION_STEP :: real where "SIMULATION_STEP = 1 / 15"
definition EVENT_QUEUE_BASE_SIZE :: nat where "EVENT_QUEUE_BASE_SIZE = 20"

definition ACTION_MOVE_LEFT :: int where "ACTION_MOVE_LEFT = 1"
definition ACTION_MOVE_RIGHT :: int where "ACTION_MOVE_RIGHT = 2"
definition ACTION_SHOOT :: int where "ACTION_SHOOT = 4"

definition BODY_TYPE_PLAYER :: int where "BODY_TYPE_PLAYER = 1"
definition BODY_TYPE_ENEMY :: int where "BODY_TYPE_ENEMY = 2"
definition BODY_TYPE_ASTEROID :: int where "BODY_TYPE_ASTEROID = 4"

definition EVENT_PLAYER_HIT :: int where "EVENT_PLAYER_HIT = 1"
definition EVENT_ENEMY_HIT :: int where "EVENT_ENEMY_HIT = 2"
definition EVENT_ASTEROID_HIT :: int where "EVENT_ASTEROID_HIT = 3"

subsection \<open>Data\<close>

text \<open>
  A pointer to an entity, or to the Body embedded in that entity: the player, the enemy
  in slot \<open>i\<close> of the fixed array, the asteroid at position \<open>k\<close> of the asteroid list.
\<close>

datatype ref = Null | PlayerRef | EnemyRef nat | AsteroidRef nat

record Body =
  b_x :: real
  b_y :: real
  b_radius :: real
  b_type :: int
  b_collision_mask :: int
  b_userdata :: ref

record Player =
  plr_hitpoints :: real
  plr_x :: real
  plr_y :: real
  plr_actions :: int
  plr_speed :: real
  plr_shoot_cooldown :: real
  plr_body :: Body

record Enemy =
  en_id :: int
  en_x :: real
  en_y :: real
  en_xvel :: real
  en_yvel :: real
  en_rot :: real
  en_speed :: real
  en_hitpoints :: real
  en_body :: Body

record Asteroid =
  ast_id :: int
  ast_x :: real
  ast_y :: real
  ast_xvel :: real
  ast_yvel :: real
  ast_rot :: real
  ast_rot_speed :: real
  ast_body :: Body

record Projectile =
  prj_id :: int
  prj_x :: real
  prj_y :: real
  prj_xvel :: real
  prj_yvel :: real
  prj_ttl :: real

record Event =
  evt_type :: int
  evt_entity_hnd :: int

text \<open>
  Modelled from the spec: the collision engine (physics.h, physics.c) is not among the
  sources. Its state is the set of registered Body pointers; two counters record what
  it did, the number of steps served and the handler invocations made, in order.
\<close>

record SimulationSystem =
  bodies :: "ref list"
  sim_steps :: nat
  sim_callbacks :: "(ref \<times> ref) list"

text \<open>
  The World. \<open>enemies\<close> is the fixed array (its length is \<open>MAX_ENEMIES\<close>), of which the
  first \<open>enemy_count\<close> slots are in use. \<open>event_queue\<close> holds the live entries of the
  buffer, oldest first, so that the C field \<open>event_count\<close> is its length;
  \<open>event_queue_size\<close> is the capacity of the buffer.
\<close>

record World =
  player :: Player
  asteroid_list :: "Asteroid list"
  projectile_list :: "Projectile list"
  enemies :: "Enemy list"
  enemy_count :: nat
  sim :: SimulationSystem
  event_queue :: "Event list"
  event_queue_size :: nat

definition event_count :: "World \<Rightarrow> nat" where
  "event_count w = length (event_queue w)"

datatype fault =
  OutOfMemoryExit   \<comment> \<open>\<open>exit(EXIT_FAILURE)\<close> in \<open>add_event\<close>\<close>
| OutOfBounds       \<comment> \<open>an index outside the enemies array\<close>
| BadPointer        \<comment> \<open>a pointer that does not lead to an object of the expected kind\<close>

subsection \<open>Allocation\<close>

text \<open>
  Whether an allocation succeeds is not decided by the program. The heap is the list of
  outcomes of the allocation requests still to come, in program order; once the list is
  used up every request succeeds.
\<close>

type_synonym heap = "bool list"

fun alloc :: "heap \<Rightarrow> bool \<times> heap" where
  "alloc [] = (True, [])"
| "alloc (ok # h) = (ok, h)"

subsection \<open>Vectors\<close>

text \<open>
  Modelled from the spec: matlib (matlib.h) is not among the sources. A \<open>Vec\<close> has four
  components; \<open>vec_norm\<close> scales to unit length, \<open>vec_clamp\<close> limits the length.
\<close>

datatype Vec = Vec (d0: real) (d1: real) (d2: real) (d3: real)

definition vec :: "real \<Rightarrow> real \<Rightarrow> real \<Rightarrow> real \<Rightarrow> Vec" where
  "vec a b c d = Vec a b c d"

fun vec_add :: "Vec \<Rightarrow> Vec \<Rightarrow> Vec" where
  "vec_add (Vec a b c d) (Vec a' b' c' d') = Vec (a + a') (b + b') (c + c') (d + d')"

fun vec_sub :: "Vec \<Rightarrow> Vec \<Rightarrow> Vec" where
  "vec_sub (Vec a b c d) (Vec a' b' c' d') = Vec (a - a') (b - b') (c - c') (d - d')"

fun vec_mulf :: "Vec \<Rightarrow> real \<Rightarrow> Vec" where
  "vec_mulf (Vec a b c d) k = Vec (a * k) (b * k) (c * k) (d * k)"

fun vec_len :: "Vec \<Rightarrow> real" where
  "vec_len (Vec a b c d) = sqrt (a * a + b * b + c * c + d * d)"

definition vec_norm :: "Vec \<Rightarrow> Vec" where
  "vec_norm v = (if vec_len v = 0 then v else vec_mulf v (1 / vec_len v))"

definition vec_clamp :: "Vec \<Rightarrow> real \<Rightarrow> Vec" where
  "vec_clamp v sz = (if vec_len v > sz then vec_mulf (vec_norm v) sz else v)"

text \<open>The C library's \<open>atan2(y, x)\<close>, by its mathematical definition.\<close>

definition atan2 :: "real \<Rightarrow> real \<Rightarrow> real" where
  "atan2 y x =
     (if 0 < x then arctan (y / x)
      else if x < 0 \<and> 0 \<le> y then arctan (y / x) + pi
      else if x < 0 then arctan (y / x) - pi
      else if 0 < y then pi / 2
      else if y < 0 then - (pi / 2)
      else 0)"

subsection \<open>Pointers into the World\<close>

definition enemy_at :: "World \<Rightarrow> ref \<Rightarrow> Enemy option" where
  "enemy_at w r =
     (case r of
        EnemyRef i \<Rightarrow> if i < length (enemies w) then Some (enemies w ! i) else None
      | _ \<Rightarrow> None)"

definition asteroid_at :: "World \<Rightarrow> ref \<Rightarrow> Asteroid option" where
  "asteroid_at w r =
     (case r of
        AsteroidRef k \<Rightarrow>
          if k < length (asteroid_list w) then Some (asteroid_list w ! k) else None
      | _ \<Rightarrow> None)"

definition body_at :: "World \<Rightarrow> ref \<Rightarrow> Body option" where
  "body_at w r =
     (case r of
        Null \<Rightarrow> None
      | PlayerRef \<Rightarrow> Some (plr_body (player w))
      | EnemyRef i \<Rightarrow> map_option en_body (enemy_at w r)
      | AsteroidRef k \<Rightarrow> map_option ast_body (asteroid_at w r))"

subsection \<open>The event queue and the collision handler\<close>

text \<open>
  \<open>add_event\<close>: a full buffer grows by \<open>EVENT_QUEUE_BASE_SIZE\<close> entries; when the
  reallocation fails the process exits. The event goes to the end of the queue.
\<close>

definition add_event :: "Event \<Rightarrow> heap \<times> World \<Rightarrow> fault + (heap \<times> World)" where
  "add_event evt hw =
     (case hw of (h, world) \<Rightarrow>
        if event_count world = event_queue_size world then
          (case alloc h of
             (False, h') \<Rightarrow> Inl OutOfMemoryExit
           | (True, h') \<Rightarrow>
               Inr (h', world\<lparr>event_queue := event_queue world @ [evt],
                              event_queue_size := event_queue_size world + EVENT_QUEUE_BASE_SIZE\<rparr>))
        else Inr (h, world\<lparr>event_queue := event_queue world @ [evt]\<rparr>))"

text \<open>
  \<open>handle_player_collision\<close>: the event the handler builds, if the pointers it follows
  are good. The event starts zeroed; type 0 means that no event is sent.
\<close>

definition collision_event :: "World \<Rightarrow> Body \<Rightarrow> Event option" where
  "collision_event world b =
     (if b_type b = BODY_TYPE_ENEMY then
        map_option (\<lambda>enemy. \<lparr>evt_type = EVENT_ENEMY_HIT, evt_entity_hnd = en_id enemy\<rparr>)
          (enemy_at world (b_userdata b))
      else if b_type b = BODY_TYPE_ASTEROID then
        map_option (\<lambda>ast. \<lparr>evt_type = EVENT_ASTEROID_HIT, evt_entity_hnd = ast_id ast\<rparr>)
          (asteroid_at world (b_userdata b))
      else Some \<lparr>evt_type = 0, evt_entity_hnd = 0\<rparr>)"

definition handle_player_collision ::
  "Body \<Rightarrow> Body \<Rightarrow> heap \<times> World \<Rightarrow> fault + (int \<times> heap \<times> World)" where
  "handle_player_collision a b hw =
     (if b_type a \<noteq> BODY_TYPE_PLAYER then Inr (1, hw)
      else
        (case collision_event (snd hw) b of
           None \<Rightarrow> Inl BadPointer
         | Some evt \<Rightarrow>
             if evt_type evt \<noteq> 0 then
               (case add_event evt hw of
                  Inl f \<Rightarrow> Inl f
                | Inr hw' \<Rightarrow> Inr (1, hw'))
             else Inr (1, hw)))"

subsection \<open>The collision engine\<close>

text \<open>
  Modelled from the spec: the engine's operations. Registering a body allocates and
  reports failure; removing a body takes it out of the body set. What the engine
  detects is a parameter, \<open>detect\<close>: the pairs of bodies it finds in contact, in the
  order in which it reports them. A step invokes the handler once for every reported
  pair of registered bodies, and only for those.
\<close>

type_synonym engine = "World \<Rightarrow> (ref \<times> ref) list"

definition sim_add_body :: "ref \<Rightarrow> heap \<times> SimulationSystem \<Rightarrow> bool \<times> heap \<times> SimulationSystem" where
  "sim_add_body r hs =
     (case hs of (h, s) \<Rightarrow>
        (case alloc h of
           (False, h') \<Rightarrow> (False, h', s)
         | (True, h') \<Rightarrow> (True, h', s\<lparr>bodies := bodies s @ [r]\<rparr>)))"

definition sim_remove_body :: "SimulationSystem \<Rightarrow> ref \<Rightarrow> SimulationSystem" where
  "sim_remove_body s r = s\<lparr>bodies := removeAll r (bodies s)\<rparr>"

definition contacts :: "engine \<Rightarrow> World \<Rightarrow> (ref \<times> ref) list" where
  "contacts detect w =
     filter (\<lambda>(a, b). a \<in> set (bodies (sim w)) \<and> b \<in> set (bodies (sim w))) (detect w)"

fun invoke_handlers :: "(ref \<times> ref) list \<Rightarrow> heap \<times> World \<Rightarrow> fault + (heap \<times> World)" where
  "invoke_handlers [] hw = Inr hw"
| "invoke_handlers ((ra, rb) # ps) hw =
     (case (body_at (snd hw) ra, body_at (snd hw) rb) of
        (Some a, Some b) \<Rightarrow>
          (case handle_player_collision a b hw of
             Inl f \<Rightarrow> Inl f
           | Inr (flag, hw') \<Rightarrow> invoke_handlers ps hw')
      | _ \<Rightarrow> Inl BadPointer)"

definition sim_step :: "engine \<Rightarrow> heap \<times> World \<Rightarrow> fault + (heap \<times> World)" where
  "sim_step detect hw =
     (case hw of (h, w) \<Rightarrow>
        invoke_handlers (contacts detect w)
          (h, w\<lparr>sim := (sim w)\<lparr>sim_steps := Suc (sim_steps (sim w)),
                                sim_callbacks := sim_callbacks (sim w) @ contacts detect w\<rparr>\<rparr>))"

subsection \<open>world_add_enemy, world_add_asteroid, world_add_projectile\<close>

text \<open>
  Modelled from the spec: \<open>list_add\<close> (list.h) is not among the sources. It appends
  the record at the end of the list and reports an allocation failure, leaving the list
  as it was.
\<close>

definition list_add :: "'a \<Rightarrow> heap \<times> 'a list \<Rightarrow> int \<times> heap \<times> 'a list" where
  "list_add v hl =
     (case hl of (h, l) \<Rightarrow>
        (case alloc h of
           (False, h') \<Rightarrow> (0, h', l)
         | (True, h') \<Rightarrow> (1, h', l @ [v])))"

definition world_add_asteroid :: "Asteroid \<Rightarrow> heap \<times> World \<Rightarrow> int \<times> heap \<times> World" where
  "world_add_asteroid ast hw =
     (case hw of (h, world) \<Rightarrow>
        (case list_add ast (h, asteroid_list world) of
           (r, h', l) \<Rightarrow> (r, h', world\<lparr>asteroid_list := l\<rparr>)))"

definition world_add_projectile :: "Projectile \<Rightarrow> heap \<times> World \<Rightarrow> int \<times> heap \<times> World" where
  "world_add_projectile projectile hw =
     (case hw of (h, w) \<Rightarrow>
        (case list_add projectile (h, projectile_list w) of
           (r, h', l) \<Rightarrow> (r, h', w\<lparr>projectile_list := l\<rparr>)))"

text \<open>
  \<open>world_add_enemy\<close>; \<open>MAX_ENEMIES\<close>, the length of the enemies array, is not defined in
  the sources and is a parameter. The slot stays taken when the body cannot be registered.
\<close>

definition world_add_enemy :: "nat \<Rightarrow> Enemy \<Rightarrow> heap \<times> World \<Rightarrow> int \<times> heap \<times> World" where
  "world_add_enemy MAX_ENEMIES enemy hw =
     (case hw of (h, world) \<Rightarrow>
        if enemy_count world < MAX_ENEMIES then
          (let i = enemy_count world;
               body = \<lparr>b_x = en_x enemy, b_y = en_y enemy, b_radius = 40,
                       b_type = BODY_TYPE_ENEMY, b_collision_mask = BODY_TYPE_PLAYER,
                       b_userdata = EnemyRef i\<rparr>;
               slot = enemy\<lparr>en_hitpoints := ENEMY_INITIAL_HITPOINTS, en_id := int i,
                            en_body := body\<rparr>;
               world1 = world\<lparr>enemy_count := Suc i, enemies := (enemies world)[i := slot]\<rparr>
           in (case sim_add_body (EnemyRef i) (h, sim world1) of
                 (False, h', s) \<Rightarrow> (- 1, h', world1\<lparr>sim := s\<rparr>)
               | (True, h', s) \<Rightarrow> (int i, h', world1\<lparr>sim := s\<rparr>)))
        else (- 1, h, world))"

subsection \<open>world_update\<close>

text \<open>
  The physics loop. \<open>sim_acc\<close> is the function's static variable; it is passed in and
  returned. The loop runs one step and takes one step size off the accumulator
  while the accumulator is at least one step size. Here the accumulator is a \<open>real\<close>
  and the subtraction is exact, so that this loop always ends and the number of its
  steps is that of exact arithmetic; nothing below that speaks of \<open>world_update\<close>
  depends on that number. The loop over the \<open>float\<close> accumulator of the code is
  \<open>sim_loop_f32\<close> below.
\<close>

function sim_loop :: "engine \<Rightarrow> real \<Rightarrow> heap \<times> World \<Rightarrow> fault + (real \<times> heap \<times> World)" where
  "sim_loop detect sim_acc hw =
     (if sim_acc \<ge> SIMULATION_STEP then
        (case sim_step detect hw of
           Inl f \<Rightarrow> Inl f
         | Inr hw' \<Rightarrow> sim_loop detect (sim_acc - SIMULATION_STEP) hw')
      else Inr (sim_acc, hw))"
  by pat_completeness auto
termination
proof (relation "measure (\<lambda>(detect, sim_acc, hw). nat \<lfloor>sim_acc * 15\<rfloor>)")
  show "wf (measure (\<lambda>(detect, sim_acc, hw). nat \<lfloor>sim_acc * 15\<rfloor>))"
    by simp
next
  fix detect :: engine and sim_acc :: real and hw hw' :: "heap \<times> World"
  assume "SIMULATION_STEP \<le> sim_acc"
  then have "1 \<le> sim_acc * 15" and "(sim_acc - SIMULATION_STEP) * 15 = sim_acc * 15 - 1"
    by (simp_all add: SIMULATION_STEP_def algebra_simps)
  then have "nat \<lfloor>(sim_acc - SIMULATION_STEP) * 15\<rfloor> < nat \<lfloor>sim_acc * 15\<rfloor>"
    by (simp add: nat_less_iff)
  then show "((detect, sim_acc - SIMULATION_STEP, hw'), (detect, sim_acc, hw))
      \<in> measure (\<lambda>(detect, sim_acc, hw). nat \<lfloor>sim_acc * 15\<rfloor>)"
    by simp
qed

declare sim_loop.simps [simp del]

text \<open>
  Processing one event. An \<open>EVENT_ENEMY_HIT\<close> indexes the enemies array with the
  handle; an index outside the array is a fault. Other events change nothing.
\<close>

definition process_event :: "Event \<Rightarrow> World \<Rightarrow> fault + World" where
  "process_event evt world =
     (if evt_type evt = EVENT_ENEMY_HIT then
        (if 0 \<le> evt_entity_hnd evt \<and> nat (evt_entity_hnd evt) < length (enemies world) then
           (let i = nat (evt_entity_hnd evt);
                plr = player world
            in Inr (world\<lparr>
                 player := plr\<lparr>plr_hitpoints := plr_hitpoints plr - ENEMY_COLLISION_DAMAGE\<rparr>,
                 enemies := (enemies world)[i := (enemies world ! i)\<lparr>en_hitpoints := 0\<rparr>],
                 sim := sim_remove_body (sim world) (EnemyRef i)\<rparr>))
         else Inl OutOfBounds)
      else Inr world)"

fun process_events :: "Event list \<Rightarrow> World \<Rightarrow> fault + World" where
  "process_events [] world = Inr world"
| "process_events (evt # evts) world =
     (case process_event evt world of
        Inl f \<Rightarrow> Inl f
      | Inr world' \<Rightarrow> process_events evts world')"

text \<open>The player's position and the position of its body.\<close>

definition update_player_position :: "real \<Rightarrow> Player \<Rightarrow> Player" where
  "update_player_position dt plr =
     (let distance = dt * plr_speed plr;
          plr1 = (if and (plr_actions plr) ACTION_MOVE_LEFT \<noteq> 0
                  then plr\<lparr>plr_x := plr_x plr - distance\<rparr>
                  else if and (plr_actions plr) ACTION_MOVE_RIGHT \<noteq> 0
                  then plr\<lparr>plr_x := plr_x plr + distance\<rparr>
                  else plr)
      in plr1\<lparr>plr_body := (plr_body plr1)\<lparr>b_x := plr_x plr1\<rparr>\<rparr>)"

text \<open>One pass of the enemy loop's body: dead enemies are skipped.\<close>

definition update_enemy :: "Player \<Rightarrow> real \<Rightarrow> Enemy \<Rightarrow> Enemy" where
  "update_enemy plr dt enemy =
     (if en_hitpoints enemy \<le> 0 then enemy
      else
        (let target = vec (plr_x plr) (plr_y plr) 0 0;
             pos = vec (en_x enemy) (en_y enemy) 0 0;
             dir = vec_norm (vec_sub target pos);
             desired = vec_mulf dir (en_speed enemy);
             curr_vel = vec (en_xvel enemy) (en_yvel enemy) 0 0;
             steer = vec_clamp (vec_sub desired curr_vel) 0.5;
             vel = vec_clamp (vec_add curr_vel steer) (en_speed enemy);
             x' = en_x enemy + d0 vel * dt;
             y' = en_y enemy + d1 vel * dt
         in enemy\<lparr>en_xvel := d0 vel, en_yvel := d1 vel,
                   en_rot := pi / 2 - atan2 (d1 vel) (d0 vel),
                   en_x := x', en_y := y',
                   en_body := (en_body enemy)\<lparr>b_x := x', b_y := y'\<rparr>\<rparr>))"

definition update_asteroid :: "real \<Rightarrow> Asteroid \<Rightarrow> Asteroid" where
  "update_asteroid dt ast =
     (let rot = ast_rot ast + ast_rot_speed ast * dt
      in ast\<lparr>ast_x := ast_x ast + ast_xvel ast * dt,
              ast_y := ast_y ast + ast_yvel ast * dt,
              ast_rot := (if rot \<ge> pi * 2 then rot - pi * 2 else rot)\<rparr>)"

definition update_projectile :: "real \<Rightarrow> Projectile \<Rightarrow> Projectile" where
  "update_projectile dt prj =
     (if prj_ttl prj > 0 then
        prj\<lparr>prj_x := prj_x prj + prj_xvel prj * dt,
             prj_y := prj_y prj + prj_yvel prj * dt,
             prj_ttl := prj_ttl prj - dt\<rparr>
      else prj)"

text \<open>The three loops that close the frame: enemies in use, asteroids, projectiles.\<close>

definition update_entities :: "real \<Rightarrow> World \<Rightarrow> World" where
  "update_entities dt world =
     world\<lparr>enemies := map (update_enemy (player world) dt) (take (enemy_count world) (enemies world))
                        @ drop (enemy_count world) (enemies world),
           asteroid_list := map (update_asteroid dt) (asteroid_list world),
           projectile_list := map (update_projectile dt) (projectile_list world)\<rparr>"

text \<open>
  \<open>world_update\<close>. The state is the static accumulator, the heap and the World; the
  result is the returned flag with the new state, or a fault.
\<close>

definition world_update ::
  "engine \<Rightarrow> real \<times> heap \<times> World \<Rightarrow> real \<Rightarrow> fault + (int \<times> real \<times> heap \<times> World)" where
  "world_update detect st dt =
     (case st of (sim_acc, h, world) \<Rightarrow>
        (case sim_loop detect (sim_acc + dt) (h, world) of
           Inl f \<Rightarrow> Inl f
         | Inr (sim_acc1, h1, world1) \<Rightarrow>
             (case process_events (event_queue world1) world1 of
                Inl f \<Rightarrow> Inl f
              | Inr world2 \<Rightarrow>
                  (let world3 = world2\<lparr>event_queue := []\<rparr>;
                       plr1 = update_player_position dt (player world3);
                       plr = plr1\<lparr>plr_shoot_cooldown := plr_shoot_cooldown plr1 - dt\<rparr>
                   in if and (plr_actions plr) ACTION_SHOOT \<noteq> 0 \<and> plr_shoot_cooldown plr \<le> 0
                      then
                        (let plr' = plr\<lparr>plr_shoot_cooldown := 1 / PLAYER_ACTION_SHOOT_RATE\<rparr>;
                             world4 = world3\<lparr>player := plr'\<rparr>
                         in (case alloc h1 of
                               (False, h2) \<Rightarrow> Inr (0, sim_acc1, h2, world4)
                             | (True, h2) \<Rightarrow>
                                 (let prj = \<lparr>prj_id = 0, prj_x = plr_x plr', prj_y = plr_y plr',
                                             prj_xvel = 0,
                                             prj_yvel = - PLAYER_PROJECTILE_INITIAL_SPEED,
                                             prj_ttl = PLAYER_PROJECTILE_TTL\<rparr>
                                  in (case world_add_projectile prj (h2, world4) of
                                        (r, h3, world5) \<Rightarrow>
                                          Inr (1, sim_acc1, h3, update_entities dt world5)))))
                      else Inr (1, sim_acc1, h1, update_entities dt (world3\<lparr>player := plr\<rparr>))))))"

text \<open>A run of frames: \<open>world_update\<close> once for every \<open>dt\<close>, whatever flag it returns.\<close>

fun world_updates ::
  "engine \<Rightarrow> real \<times> heap \<times> World \<Rightarrow> real list \<Rightarrow> fault + (real \<times> heap \<times> World)" where
  "world_updates detect st [] = Inr st"
| "world_updates detect st (dt # dts) =
     (case world_update detect st dt of
        Inl f \<Rightarrow> Inl f
      | Inr (flag, st') \<Rightarrow> world_updates detect st' dts)"

subsection \<open>world_new and world_destroy\<close>

text \<open>
  Construction is followed through the blocks of memory it holds. A pointer field of the
  World under construction is \<open>None\<close> while it is null (\<open>make\<close> zeroes the record).
\<close>

datatype block = WorldBlock | AsteroidListBlock | ProjectileListBlock | SimBlock | EventQueueBlock

record WorldPtrs =
  p_asteroid_list :: "block option"
  p_projectile_list :: "block option"
  p_sim :: "block option"
  p_event_queue :: "block option"

text \<open>
  Modelled from the spec: \<open>make\<close>, \<open>destroy\<close> (memory.h), \<open>list_new\<close>, \<open>list_destroy\<close>
  (list.h), \<open>sim_new\<close>, \<open>sim_destroy\<close>, \<open>sim_add_handler\<close> (physics.h) are not among the
  sources. Each constructor is one allocation request (\<open>make_block\<close>); each destructor
  releases the block and accepts a null pointer (\<open>release\<close>); what the engine allocates
  for a handler or a body belongs to the engine's block.
\<close>

definition make_block :: "block \<Rightarrow> heap \<times> block list \<Rightarrow> block option \<times> heap \<times> block list" where
  "make_block b m =
     (case m of (h, live) \<Rightarrow>
        (case alloc h of
           (False, h') \<Rightarrow> (None, h', live)
         | (True, h') \<Rightarrow> (Some b, h', live @ [b])))"

definition release :: "block option \<Rightarrow> block list \<Rightarrow> block list" where
  "release p live = (case p of None \<Rightarrow> live | Some b \<Rightarrow> removeAll b live)"

text \<open>
  The loop of \<open>world_destroy\<close> over the null-terminated array of lists: it stops at the
  first null entry. The lists of a World under construction hold no entity record.
\<close>

fun destroy_lists :: "block option list \<Rightarrow> block list \<Rightarrow> block list" where
  "destroy_lists [] live = live"
| "destroy_lists (None # ls) live = live"
| "destroy_lists (Some b # ls) live = destroy_lists ls (release (Some b) live)"

definition world_destroy :: "(block \<times> WorldPtrs) option \<Rightarrow> block list \<Rightarrow> block list" where
  "world_destroy w live =
     (case w of
        None \<Rightarrow> live
      | Some (wb, ptrs) \<Rightarrow>
          (let live1 = release (p_event_queue ptrs) live;
               live2 = release (p_sim ptrs) live1;
               live3 = destroy_lists [p_asteroid_list ptrs, p_projectile_list ptrs, None] live2
           in release (Some wb) live3))"

fun sim_add_handlers :: "int list \<Rightarrow> heap \<Rightarrow> bool \<times> heap" where
  "sim_add_handlers [] h = (True, h)"
| "sim_add_handlers (m # ms) h =
     (case alloc h of
        (False, h') \<Rightarrow> (False, h')
      | (True, h') \<Rightarrow> sim_add_handlers ms h')"

definition zero_body :: Body where
  "zero_body = \<lparr>b_x = 0, b_y = 0, b_radius = 0, b_type = 0, b_collision_mask = 0,
                b_userdata = Null\<rparr>"

definition zero_enemy :: Enemy where
  "zero_enemy = \<lparr>en_id = 0, en_x = 0, en_y = 0, en_xvel = 0, en_yvel = 0, en_rot = 0,
                 en_speed = 0, en_hitpoints = 0, en_body = zero_body\<rparr>"

text \<open>
  The fields of the World as \<open>world_new\<close> sets them, before the player's body is
  registered with the engine.
\<close>

definition sim_new :: SimulationSystem where
  "sim_new = \<lparr>bodies = [], sim_steps = 0, sim_callbacks = []\<rparr>"

definition new_world :: "nat \<Rightarrow> World" where
  "new_world MAX_ENEMIES =
     (let y = SCREEN_HEIGHT / 2 - 50
      in \<lparr>player =
            \<lparr>plr_hitpoints = PLAYER_INITIAL_HITPOINTS, plr_x = 0, plr_y = y, plr_actions = 0,
             plr_speed = PLAYER_INITIAL_SPEED, plr_shoot_cooldown = 0,
             plr_body = \<lparr>b_x = 0, b_y = y, b_radius = 40, b_type = BODY_TYPE_PLAYER,
                          b_collision_mask = or BODY_TYPE_ENEMY BODY_TYPE_ASTEROID,
                          b_userdata = PlayerRef\<rparr>\<rparr>,
          asteroid_list = [], projectile_list = [],
          enemies = replicate MAX_ENEMIES zero_enemy, enemy_count = 0,
          sim = sim_new,
          event_queue = [], event_queue_size = EVENT_QUEUE_BASE_SIZE\<rparr>)"

text \<open>
  \<open>world_new\<close>: the result is the World (\<open>None\<close> for a null result), the heap and the
  blocks that are still allocated when the function returns.
\<close>

definition world_new :: "nat \<Rightarrow> heap \<times> block list \<Rightarrow> World option \<times> heap \<times> block list" where
  "world_new MAX_ENEMIES m =
     (case make_block WorldBlock m of
        (None, m1) \<Rightarrow> (None, m1)
      | (Some wb, m1) \<Rightarrow>
          (case make_block AsteroidListBlock m1 of
             (al, m2) \<Rightarrow>
               (case make_block ProjectileListBlock m2 of
                  (pl, h3, live3) \<Rightarrow>
                    (let w1 = \<lparr>p_asteroid_list = al, p_projectile_list = pl, p_sim = None,
                               p_event_queue = None\<rparr>
                     in if al = None \<or> pl = None then (None, h3, world_destroy None live3)
                        else
                          (case make_block SimBlock (h3, live3) of
                             (None, h4, live4) \<Rightarrow>
                               (None, h4, world_destroy (Some (wb, w1)) live4)
                           | (Some sb, h4, live4) \<Rightarrow>
                               (let w2 = w1\<lparr>p_sim := Some sb\<rparr>
                                in (case sim_add_handlers
                                           [or BODY_TYPE_PLAYER BODY_TYPE_ENEMY,
                                            or BODY_TYPE_PLAYER BODY_TYPE_ASTEROID] h4 of
                                      (False, h5) \<Rightarrow>
                                        (None, h5, world_destroy (Some (wb, w2)) live4)
                                    | (True, h5) \<Rightarrow>
                                        (case make_block EventQueueBlock (h5, live4) of
                                           (None, h6, live6) \<Rightarrow>
                                             (None, h6, world_destroy (Some (wb, w2)) live6)
                                         | (Some qb, h6, live6) \<Rightarrow>
                                             (let w3 = w2\<lparr>p_event_queue := Some qb\<rparr>
                                              in (case sim_add_body PlayerRef (h6, sim_new) of
                                                    (False, h7, s) \<Rightarrow>
                                                      (None, h7,
                                                       world_destroy (Some (wb, w3)) live6)
                                                  | (True, h7, s) \<Rightarrow>
                                                      (Some ((new_world MAX_ENEMIES)\<lparr>sim := s\<rparr>),
                                                       h7, live6)))))))))))"

subsection \<open>The accumulator in binary32\<close>

text \<open>
  \<open>sim_acc\<close> is a \<open>float\<close> and \<open>SIMULATION_STEP\<close> is the \<open>double\<close> quotient \<open>1.0 / 15\<close>:
  every value stored in the accumulator is rounded, as IEEE 754 arithmetic rounds it
  with \<open>float\<close> as binary32 and \<open>double\<close> as binary64. \<open>fround p emin\<close> rounds a real to
  the nearest number with a significand of \<open>p\<close> bits, ties to the even significand;
  below \<open>2 powi emin\<close> the spacing stays that of the subnormal numbers. Overflow to
  infinity is not modelled; the values below are far under the largest finite number.
\<close>

definition round_even :: "real \<Rightarrow> int" where
  "round_even y =
     (let n = \<lfloor>y\<rfloor>; r = y - of_int n
      in if r < 1 / 2 then n
         else if 1 / 2 < r then n + 1
         else if even n then n else n + 1)"

definition fround :: "nat \<Rightarrow> int \<Rightarrow> real \<Rightarrow> real" where
  "fround p emin x =
     (let e = max \<lfloor>log 2 \<bar>x\<bar>\<rfloor> emin - int p + 1
      in of_int (round_even (x / 2 powi e)) * 2 powi e)"

definition float32 :: "real \<Rightarrow> real" where
  "float32 x = fround 24 (- 126) x"

definition float64 :: "real \<Rightarrow> real" where
  "float64 x = fround 53 (- 1022) x"

text \<open>The value of the macro \<open>SIMULATION_STEP\<close>, a division of doubles.\<close>

definition SIMULATION_STEP_f64 :: real where
  "SIMULATION_STEP_f64 = float64 (1 / 15)"

text \<open>
  The physics loop with the accumulator as the code has it (game.c, lines 210-213).
  The comparison is made in \<open>double\<close>, where the \<open>float\<close> accumulator is exact; the
  difference is computed in \<open>double\<close> and rounded again when it is stored in the
  \<open>float\<close>. The loop need not end: \<open>None\<close> is a loop that never returns.
  \<open>sim_step\<close> is called with the step size as its second argument. The model of the
  engine makes no use of it, so the step sizes that the calls were given are kept in
  a list of their own, \<open>step_sizes\<close>, in the order of the calls.
\<close>

partial_function (option) sim_loop_f32 ::
  "engine \<Rightarrow> real \<Rightarrow> real list \<Rightarrow> heap \<times> World \<Rightarrow>
     (fault + (real \<times> real list \<times> heap \<times> World)) option" where
  "sim_loop_f32 detect sim_acc step_sizes hw =
     (if sim_acc \<ge> SIMULATION_STEP_f64 then
        (case sim_step detect hw of
           Inl f \<Rightarrow> Some (Inl f)
         | Inr hw' \<Rightarrow>
             sim_loop_f32 detect (float32 (float64 (sim_acc - SIMULATION_STEP_f64)))
               (step_sizes @ [SIMULATION_STEP_f64]) hw')
      else Some (Inr (sim_acc, step_sizes, hw)))"

text \<open>
  \<open>world_update\<close> with this loop: \<open>dt\<close> is added to the accumulator in \<open>float\<close> (line 209),
  and a call whose loop never returns does not return. The rest of the call is as in
  \<open>world_update\<close> above. The state is the static accumulator, the step sizes given to
  \<open>sim_step\<close> so far, the heap and the World. \<open>dt\<close> is any real; the \<open>float\<close> values that
  the code can be given are among them.
\<close>

definition world_update_f32 ::
  "engine \<Rightarrow> real \<times> real list \<times> heap \<times> World \<Rightarrow> real \<Rightarrow>
     (fault + (int \<times> real \<times> real list \<times> heap \<times> World)) option" where
  "world_update_f32 detect st dt =
     (case st of (sim_acc, step_sizes, h, world) \<Rightarrow>
        (case sim_loop_f32 detect (float32 (sim_acc + dt)) step_sizes (h, world) of
           None \<Rightarrow> None
         | Some (Inl f) \<Rightarrow> Some (Inl f)
         | Some (Inr (sim_acc1, step_sizes1, h1, world1)) \<Rightarrow>
             Some
             (case process_events (event_queue world1) world1 of
                Inl f \<Rightarrow> Inl f
              | Inr world2 \<Rightarrow>
                  (let world3 = world2\<lparr>event_queue := []\<rparr>;
                       plr1 = update_player_position dt (player world3);
                       plr = plr1\<lparr>plr_shoot_cooldown := plr_shoot_cooldown plr1 - dt\<rparr>
                   in if and (plr_actions plr) ACTION_SHOOT \<noteq> 0 \<and> plr_shoot_cooldown plr \<le> 0
                      then
                        (let plr' = plr\<lparr>plr_shoot_cooldown := 1 / PLAYER_ACTION_SHOOT_RATE\<rparr>;
                             world4 = world3\<lparr>player := plr'\<rparr>
                         in (case alloc h1 of
                               (False, h2) \<Rightarrow> Inr (0, sim_acc1, step_sizes1, h2, world4)
                             | (True, h2) \<Rightarrow>
                                 (let prj = \<lparr>prj_id = 0, prj_x = plr_x plr', prj_y = plr_y plr',
                                             prj_xvel = 0,
                                             prj_yvel = - PLAYER_PROJECTILE_INITIAL_SPEED,
                                             prj_ttl = PLAYER_PROJECTILE_TTL\<rparr>
                                  in (case world_add_projectile prj (h2, world4) of
                                        (r, h3, world5) \<Rightarrow>
                                          Inr (1, sim_acc1, step_sizes1, h3,
                                               update_entities dt world5)))))
                      else Inr (1, sim_acc1, step_sizes1, h1,
                                update_entities dt (world3\<lparr>player := plr\<rparr>))))))"

text \<open>A run of such calls; the accumulator left by one call is the next call's.\<close>

fun world_updates_f32 ::
  "engine \<Rightarrow> real \<times> real list \<times> heap \<times> World \<Rightarrow> real list \<Rightarrow>
     (fault + (real \<times> real list \<times> heap \<times> World)) option" where
  "world_updates_f32 detect st [] = Some (Inr st)"
| "world_updates_f32 detect st (dt # dts) =
     (case world_update_f32 detect st dt of
        None \<Rightarrow> None
      | Some (Inl f) \<Rightarrow> Some (Inl f)
      | Some (Inr (flag, st')) \<Rightarrow> world_updates_f32 detect st' dts)"

subsection \<open>Runs and observations\<close>

text \<open>
  \<open>world_add_enemy\<close> called once for every enemy of a list, with the values returned.
\<close>

fun add_enemies :: "nat \<Rightarrow> Enemy list \<Rightarrow> heap \<times> World \<Rightarrow> int list \<times> heap \<times> World" where
  "add_enemies MAX_ENEMIES [] hw = ([], hw)"
| "add_enemies MAX_ENEMIES (enemy # es) hw =
     (case world_add_enemy MAX_ENEMIES enemy hw of
        (r, hw') \<Rightarrow>
          (case add_enemies MAX_ENEMIES es hw' of
             (rs, hw'') \<Rightarrow> (r # rs, hw'')))"

text \<open>The flag and the World of a frame that returned.\<close>

definition frame_flag :: "fault + (int \<times> real \<times> heap \<times> World) \<Rightarrow> int option" where
  "frame_flag res = (case res of Inl f \<Rightarrow> None | Inr (flag, st) \<Rightarrow> Some flag)"

definition frame_world :: "fault + (int \<times> real \<times> heap \<times> World) \<Rightarrow> World option" where
  "frame_world res = (case res of Inl f \<Rightarrow> None | Inr (flag, sim_acc, h, w) \<Rightarrow> Some w)"

text \<open>Position, velocity and rotation of two enemy records agree.\<close>

definition same_motion :: "Enemy \<Rightarrow> Enemy \<Rightarrow> bool" where
  "same_motion e e' \<longleftrightarrow>
     en_x e' = en_x e \<and> en_y e' = en_y e \<and> en_xvel e' = en_xvel e \<and>
     en_yvel e' = en_yvel e \<and> en_rot e' = en_rot e"

definition is_enemy_hit :: "Event \<Rightarrow> bool" where
  "is_enemy_hit evt \<longleftrightarrow> evt_type evt = EVENT_ENEMY_HIT"

text \<open>The bodies named by a list of handler invocations.\<close>

definition involved :: "(ref \<times> ref) list \<Rightarrow> ref set" where
  "involved cbs = fst ` set cbs \<union> snd ` set cbs"

subsection \<open>Well-formed worlds\<close>

text \<open>
  The pointers and handles that a frame follows are good: a registered body leads to
  an object of the World; the userdata of a body of type Enemy leads to an enemy whose
  id is an index of the array, that of a body of type Asteroid to an asteroid of the
  list; and the handle of a pending \<open>EVENT_ENEMY_HIT\<close> is an index of the array.
\<close>

definition sound_body :: "World \<Rightarrow> Body \<Rightarrow> bool" where
  "sound_body w b \<longleftrightarrow>
     (b_type b = BODY_TYPE_ENEMY \<longrightarrow>
        (\<exists>i. b_userdata b = EnemyRef i \<and> i < length (enemies w) \<and>
           0 \<le> en_id (enemies w ! i) \<and> nat (en_id (enemies w ! i)) < length (enemies w))) \<and>
     (b_type b = BODY_TYPE_ASTEROID \<longrightarrow>
        (\<exists>k. b_userdata b = AsteroidRef k \<and> k < length (asteroid_list w)))"

definition sound_events :: "World \<Rightarrow> Event list \<Rightarrow> bool" where
  "sound_events w evs \<longleftrightarrow>
     (\<forall>evt \<in> set evs. is_enemy_hit evt \<longrightarrow>
        0 \<le> evt_entity_hnd evt \<and> nat (evt_entity_hnd evt) < length (enemies w))"

definition sound_world :: "World \<Rightarrow> bool" where
  "sound_world w \<longleftrightarrow>
     (\<forall>r \<in> set (bodies (sim w)). \<exists>b. body_at w r = Some b \<and> sound_body w b) \<and>
     sound_events w (event_queue w)"

definition granting :: "heap \<Rightarrow> bool" where
  "granting h \<longleftrightarrow> (\<forall>ok \<in> set h. ok)"

subsection \<open>Example worlds\<close>

text \<open>
  A World of two enemy slots as \<open>world_new\<close> builds it, with one enemy added at the
  player's position, as the script function \<open>add_enemy\<close> passes it (position and speed,
  the rest zero). The bodies of the player and of the enemy overlap; \<open>touching\<close> is an
  engine that reports this pair at every step, \<open>silent\<close> one that reports nothing.
\<close>

definition fresh_world :: World where
  "fresh_world = (new_world 2)\<lparr>sim := sim_new\<lparr>bodies := [PlayerRef]\<rparr>\<rparr>"

definition demo_enemy :: Enemy where
  "demo_enemy = zero_enemy\<lparr>en_x := 0, en_y := 350, en_speed := 50\<rparr>"

definition demo_world :: World where
  "demo_world = snd (snd (world_add_enemy 2 demo_enemy ([], fresh_world)))"

definition touching :: engine where
  "touching w = [(PlayerRef, EnemyRef 0)]"

definition silent :: engine where
  "silent w = []"

text \<open>
  The same World with the shoot action held and one asteroid that turns backwards, as
  the script function \<open>add_asteroid\<close> passes it.
\<close>

definition demo_asteroid :: Asteroid where
  "demo_asteroid = \<lparr>ast_id = 0, ast_x = 100, ast_y = 100, ast_xvel = 16, ast_yvel = 0,
                    ast_rot = 0, ast_rot_speed = - 1, ast_body = zero_body\<rparr>"

definition shooter_world :: World where
  "shooter_world =
     demo_world\<lparr>player := (player demo_world)\<lparr>plr_actions := ACTION_SHOOT\<rparr>,
                asteroid_list := [demo_asteroid]\<rparr>"

text \<open>
  \<open>demo_world\<close> after one frame of a tenth of a second with the engine \<open>touching\<close>:
  one physics step, one collision, the enemy dead and its body removed.
\<close>

definition demo_world_hit :: World where
  "demo_world_hit =
     demo_world\<lparr>player := (player demo_world)\<lparr>plr_hitpoints := 50,
                                              plr_shoot_cooldown := - (1 / 10)\<rparr>,
                enemies := [(enemies demo_world ! 0)\<lparr>en_hitpoints := 0\<rparr>, zero_enemy],
                sim := \<lparr>bodies = [PlayerRef], sim_steps = 1,
                        sim_callbacks = [(PlayerRef, EnemyRef 0)]\<rparr>\<rparr>"

text \<open>
  \<open>shooter_world\<close> after a frame of a sixteenth of a second in which the projectile
  could not be allocated.
\<close>

definition shooter_world_failed :: World where
  "shooter_world_failed =
     shooter_world\<lparr>player := (player shooter_world)\<lparr>plr_shoot_cooldown := 1\<rparr>\<rparr>"

text \<open>
  \<open>demo_world_hit\<close> after a second frame of a tenth of a second with the same engine:
  two more physics steps, no collision reported to the handler.
\<close>

definition demo_world_later :: World where
  "demo_world_later =
     demo_world_hit\<lparr>player := (player demo_world_hit)\<lparr>plr_shoot_cooldown := - (1 / 5)\<rparr>,
                    sim := (sim demo_world_hit)\<lparr>sim_steps := 3\<rparr>\<rparr>"

text \<open>\<open>demo_world\<close> with the asteroid and no action held.\<close>

definition asteroid_world :: World where
  "asteroid_world = demo_world\<lparr>asteroid_list := [demo_asteroid]\<rparr>"

text \<open>
  A World whose enemy starts a hundred units above the player, and the same World after
  a frame of a hundredth of a second with the engine \<open>silent\<close>: the enemy has turned
  towards the player by the steering limit.
\<close>

definition chase_world :: World where
  "chase_world =
     snd (snd (world_add_enemy 2 (zero_enemy\<lparr>en_x := 0, en_y := 250, en_speed := 50\<rparr>)
       ([], fresh_world)))"

definition chase_world_after :: World where
  "chase_world_after =
     chase_world\<lparr>player := (player chase_world)\<lparr>plr_shoot_cooldown := - (1 / 100)\<rparr>,
                 enemies :=
                   [(enemies chase_world ! 0)
                      \<lparr>en_yvel := 1 / 2, en_y := 250 + 1 / 200,
                       en_body := (en_body (enemies chase_world ! 0))\<lparr>b_y := 250 + 1 / 200\<rparr>\<rparr>,
                    zero_enemy]\<rparr>"

section \<open>Lemmas\<close>

lemmas consts_defs = SCREEN_HEIGHT_def ENEMY_INITIAL_HITPOINTS_def ENEMY_COLLISION_DAMAGE_def
  PLAYER_INITIAL_HITPOINTS_def PLAYER_INITIAL_SPEED_def PLAYER_ACTION_SHOOT_RATE_def
  PLAYER_PROJECTILE_INITIAL_SPEED_def PLAYER_PROJECTILE_TTL_def SIMULATION_STEP_def
  EVENT_QUEUE_BASE_SIZE_def ACTION_MOVE_LEFT_def ACTION_MOVE_RIGHT_def ACTION_SHOOT_def
  BODY_TYPE_PLAYER_def BODY_TYPE_ENEMY_def BODY_TYPE_ASTEROID_def
  EVENT_PLAYER_HIT_def EVENT_ENEMY_HIT_def EVENT_ASTEROID_HIT_def

subsection \<open>What a physics step leaves alone\<close>

lemma add_event_frame:
  "add_event evt (h, w) = Inr (h', w') \<Longrightarrow>
     \<exists>qs. w' = w\<lparr>event_queue := event_queue w @ [evt], event_queue_size := qs\<rparr>"
  apply (auto simp: add_event_def split: if_splits prod.splits bool.splits)
  apply (rule exI [of _ "event_queue_size w"], simp)
  done

lemma handle_player_collision_frame:
  "handle_player_collision a b (h, w) = Inr (r, h', w') \<Longrightarrow>
     \<exists>evs qs. w' = w\<lparr>event_queue := event_queue w @ evs, event_queue_size := qs\<rparr>"
  apply (auto simp: handle_player_collision_def
      split: if_splits option.splits sum.splits dest!: add_event_frame)
    apply (rule exI [of _ "[]"], rule exI [of _ "event_queue_size w"], simp)+
  done

lemma invoke_handlers_frame:
  "invoke_handlers ps (h, w) = Inr (h', w') \<Longrightarrow>
     \<exists>evs qs. w' = w\<lparr>event_queue := event_queue w @ evs, event_queue_size := qs\<rparr>"
proof (induction ps arbitrary: h w)
  case Nil
  then show ?case
    by (auto intro!: exI [of _ "[]"] exI [of _ "event_queue_size w"])
next
  case (Cons p ps)
  obtain ra rb where p: "p = (ra, rb)" by (cases p)
  from Cons.prems p obtain a b r h1 w1 where
    s1: "handle_player_collision a b (h, w) = Inr (r, h1, w1)" and
    s2: "invoke_handlers ps (h1, w1) = Inr (h', w')"
    by (auto split: option.splits sum.splits)
  from handle_player_collision_frame [OF s1] obtain evs1 qs1 where
    w1: "w1 = w\<lparr>event_queue := event_queue w @ evs1, event_queue_size := qs1\<rparr>" by blast
  from Cons.IH [OF s2] obtain evs2 qs2 where
    w': "w' = w1\<lparr>event_queue := event_queue w1 @ evs2, event_queue_size := qs2\<rparr>" by blast
  have "w' = w\<lparr>event_queue := event_queue w @ (evs1 @ evs2), event_queue_size := qs2\<rparr>"
    by (simp add: w' w1)
  then show ?case by blast
qed

lemma contacts_registered:
  "(a, b) \<in> set (contacts detect w) \<Longrightarrow> a \<in> set (bodies (sim w)) \<and> b \<in> set (bodies (sim w))"
  by (auto simp: contacts_def)

lemma sim_step_frame:
  assumes "sim_step detect (h, w) = Inr (h', w')"
  shows "\<exists>evs qs. w' = w\<lparr>event_queue := event_queue w @ evs,
                        event_queue_size := qs,
                        sim := (sim w)\<lparr>sim_steps := Suc (sim_steps (sim w)),
                                      sim_callbacks := sim_callbacks (sim w) @ contacts detect w\<rparr>\<rparr>"
proof -
  let ?w1 = "w\<lparr>sim := (sim w)\<lparr>sim_steps := Suc (sim_steps (sim w)),
                 sim_callbacks := sim_callbacks (sim w) @ contacts detect w\<rparr>\<rparr>"
  from assms have "invoke_handlers (contacts detect w) (h, ?w1) = Inr (h', w')"
    by (simp add: sim_step_def)
  from invoke_handlers_frame [OF this] obtain evs qs where
    "w' = ?w1\<lparr>event_queue := event_queue ?w1 @ evs, event_queue_size := qs\<rparr>" by blast
  then have "w' = w\<lparr>event_queue := event_queue w @ evs,
                        event_queue_size := qs,
                        sim := (sim w)\<lparr>sim_steps := Suc (sim_steps (sim w)),
                                      sim_callbacks := sim_callbacks (sim w) @ contacts detect w\<rparr>\<rparr>"
    by simp
  then show ?thesis by blast
qed

lemma sim_loop_stop:
  "sim_acc < SIMULATION_STEP \<Longrightarrow> sim_loop detect sim_acc hw = Inr (sim_acc, hw)"
  by (simp add: sim_loop.simps)

lemma sim_loop_step:
  "SIMULATION_STEP \<le> sim_acc \<Longrightarrow> sim_step detect hw = Inr hw' \<Longrightarrow>
     sim_loop detect sim_acc hw = sim_loop detect (sim_acc - SIMULATION_STEP) hw'"
  by (subst sim_loop.simps) simp

text \<open>
  The loop as a whole: it appends events and handler invocations, counts its steps,
  takes one step size per step off the accumulator and stops below one step size.
\<close>

lemma sim_loop_frame:
  "sim_loop detect acc (h, w) = Inr (acc', h', w') \<Longrightarrow>
     \<exists>evs qs k cbs. w' = w\<lparr>event_queue := event_queue w @ evs,
                        event_queue_size := qs,
                        sim := (sim w)\<lparr>sim_steps := sim_steps (sim w) + k,
                                      sim_callbacks := sim_callbacks (sim w) @ cbs\<rparr>\<rparr>
        \<and> acc' = acc - SIMULATION_STEP * real k \<and> acc' < SIMULATION_STEP
        \<and> (0 \<le> acc \<longrightarrow> 0 \<le> acc')
        \<and> (\<forall>(a, b) \<in> set cbs. a \<in> set (bodies (sim w)) \<and> b \<in> set (bodies (sim w)))"
proof (induction detect acc "(h, w)" arbitrary: h w rule: sim_loop.induct)
  case (1 detect acc)
  show ?case
  proof (cases "acc \<ge> SIMULATION_STEP")
    case False
    with "1.prems" have "acc' = acc" "w' = w"
      by (simp_all add: sim_loop.simps)
    with False show ?thesis
      by (intro exI [of _ "[]"] exI [of _ 0] exI [of _ "event_queue_size w"]) simp
  next
    case True
    with "1.prems" obtain h1 w1 where
      s1: "sim_step detect (h, w) = Inr (h1, w1)" and
      s2: "sim_loop detect (acc - SIMULATION_STEP) (h1, w1) = Inr (acc', h', w')"
      by (subst (asm) sim_loop.simps) (auto split: sum.splits)
    from sim_step_frame [OF s1] obtain evs1 qs1 where
      w1: "w1 = w\<lparr>event_queue := event_queue w @ evs1,
                        event_queue_size := qs1,
                        sim := (sim w)\<lparr>sim_steps := Suc (sim_steps (sim w)),
                                      sim_callbacks := sim_callbacks (sim w) @ contacts detect w\<rparr>\<rparr>"
      by blast
    from "1.hyps" [OF True s1 s2] obtain evs2 qs2 k cbs where
      w': "w' = w1\<lparr>event_queue := event_queue w1 @ evs2,
                        event_queue_size := qs2,
                        sim := (sim w1)\<lparr>sim_steps := sim_steps (sim w1) + k,
                                      sim_callbacks := sim_callbacks (sim w1) @ cbs\<rparr>\<rparr>" and
      acc': "acc' = acc - SIMULATION_STEP - SIMULATION_STEP * real k" "acc' < SIMULATION_STEP"
        "0 \<le> acc - SIMULATION_STEP \<longrightarrow> 0 \<le> acc'" and
      cbs: "\<forall>(a, b) \<in> set cbs. a \<in> set (bodies (sim w1)) \<and> b \<in> set (bodies (sim w1))"
      by blast
    have b1: "bodies (sim w1) = bodies (sim w)"
      by (simp add: w1)
    have "w' = w\<lparr>event_queue := event_queue w @ (evs1 @ evs2),
                        event_queue_size := qs2,
                        sim := (sim w)\<lparr>sim_steps := sim_steps (sim w) + Suc k,
                                      sim_callbacks := sim_callbacks (sim w) @ (contacts detect w @ cbs)\<rparr>\<rparr>"
      by (simp add: w' w1)
    moreover have "acc' = acc - SIMULATION_STEP * real (Suc k)"
      using acc' by (simp add: algebra_simps)
    moreover have "\<forall>(a, b) \<in> set (contacts detect w @ cbs).
        a \<in> set (bodies (sim w)) \<and> b \<in> set (bodies (sim w))"
      using cbs b1 by (auto dest: contacts_registered)
    moreover have "0 \<le> acc \<longrightarrow> 0 \<le> acc'"
      using acc'(3) True by simp
    ultimately show ?thesis
      using acc'(2) by blast
  qed
qed

subsection \<open>Draining the queue\<close>

lemma process_event_frame:
  assumes "process_event evt w = Inr w'"
  shows "asteroid_list w' = asteroid_list w" "projectile_list w' = projectile_list w"
    "enemy_count w' = enemy_count w" "event_queue w' = event_queue w"
    "length (enemies w') = length (enemies w)"
    "sim_steps (sim w') = sim_steps (sim w)" "sim_callbacks (sim w') = sim_callbacks (sim w)"
    "set (bodies (sim w')) \<subseteq> set (bodies (sim w))"
    "player w' = (player w)\<lparr>plr_hitpoints :=
        plr_hitpoints (player w) - (if is_enemy_hit evt then ENEMY_COLLISION_DAMAGE else 0)\<rparr>"
  using assms
  by (auto simp: process_event_def is_enemy_hit_def sim_remove_body_def Let_def
      split: if_splits)

lemma process_event_enemy:
  assumes "process_event evt w = Inr w'" "j < length (enemies w)"
  shows "enemies w' ! j = enemies w ! j \<or>
     enemies w' ! j = (enemies w ! j)\<lparr>en_hitpoints := 0\<rparr>"
  using assms
  by (auto simp: process_event_def Let_def nth_list_update split: if_splits)

lemma process_event_hit:
  assumes "process_event evt w = Inr w'" "is_enemy_hit evt"
  shows "0 \<le> evt_entity_hnd evt" "nat (evt_entity_hnd evt) < length (enemies w)"
    "en_hitpoints (enemies w' ! nat (evt_entity_hnd evt)) = 0"
    "EnemyRef (nat (evt_entity_hnd evt)) \<notin> set (bodies (sim w'))"
  using assms
  by (auto simp: process_event_def is_enemy_hit_def sim_remove_body_def Let_def
      split: if_splits)

lemma process_events_frame:
  "process_events evs w = Inr w' \<Longrightarrow>
     asteroid_list w' = asteroid_list w \<and> projectile_list w' = projectile_list w \<and>
     enemy_count w' = enemy_count w \<and> event_queue w' = event_queue w \<and>
     length (enemies w') = length (enemies w) \<and>
     sim_steps (sim w') = sim_steps (sim w) \<and> sim_callbacks (sim w') = sim_callbacks (sim w) \<and>
     set (bodies (sim w')) \<subseteq> set (bodies (sim w)) \<and>
     player w' = (player w)\<lparr>plr_hitpoints :=
        plr_hitpoints (player w) - ENEMY_COLLISION_DAMAGE * real (length (filter is_enemy_hit evs))\<rparr>"
proof (induction evs arbitrary: w)
  case Nil
  then show ?case by simp
next
  case (Cons evt evs)
  from Cons.prems obtain w1 where
    s1: "process_event evt w = Inr w1" and s2: "process_events evs w1 = Inr w'"
    by (auto split: sum.splits)
  from Cons.IH [OF s2] process_event_frame [OF s1] show ?case
    by (auto simp: algebra_simps)
qed

lemma process_events_enemy:
  "process_events evs w = Inr w' \<Longrightarrow> j < length (enemies w) \<Longrightarrow>
     enemies w' ! j = enemies w ! j \<or>
     enemies w' ! j = (enemies w ! j)\<lparr>en_hitpoints := 0\<rparr>"
proof (induction evs arbitrary: w)
  case Nil
  then show ?case by simp
next
  case (Cons evt evs)
  from Cons.prems obtain w1 where
    s1: "process_event evt w = Inr w1" and s2: "process_events evs w1 = Inr w'"
    by (auto split: sum.splits)
  have len: "j < length (enemies w1)"
    using process_event_frame(5) [OF s1] Cons.prems(2) by simp
  from Cons.IH [OF s2 len] process_event_enemy [OF s1 Cons.prems(2)] show ?case
    by auto
qed

lemma process_events_hit:
  "process_events evs w = Inr w' \<Longrightarrow> evt \<in> set evs \<Longrightarrow> is_enemy_hit evt \<Longrightarrow>
     0 \<le> evt_entity_hnd evt \<and> nat (evt_entity_hnd evt) < length (enemies w) \<and>
     en_hitpoints (enemies w' ! nat (evt_entity_hnd evt)) = 0 \<and>
     EnemyRef (nat (evt_entity_hnd evt)) \<notin> set (bodies (sim w'))"
proof (induction evs arbitrary: w)
  case Nil
  then show ?case by simp
next
  case (Cons e evs)
  from Cons.prems obtain w1 where
    s1: "process_event e w = Inr w1" and s2: "process_events evs w1 = Inr w'"
    by (auto split: sum.splits)
  have len: "length (enemies w1) = length (enemies w)"
    by (rule process_event_frame(5) [OF s1])
  show ?case
  proof (cases "evt \<in> set evs")
    case True
    from Cons.IH [OF s2 True Cons.prems(3)] len show ?thesis by simp
  next
    case False
    with Cons.prems have e: "e = evt" by simp
    note hit = process_event_hit [OF s1 [unfolded e] Cons.prems(3)]
    have j: "nat (evt_entity_hnd evt) < length (enemies w1)"
      using hit(2) len by simp
    from process_events_enemy [OF s2 j] hit(3)
    have "en_hitpoints (enemies w' ! nat (evt_entity_hnd evt)) = 0" by auto
    moreover from process_events_frame [OF s2] hit(4)
    have "EnemyRef (nat (evt_entity_hnd evt)) \<notin> set (bodies (sim w'))" by auto
    ultimately show ?thesis using hit(1,2) by simp
  qed
qed

subsection \<open>The loops that close the frame\<close>

lemma update_player_position_keeps:
  "plr_hitpoints (update_player_position dt plr) = plr_hitpoints plr"
  "plr_actions (update_player_position dt plr) = plr_actions plr"
  "plr_shoot_cooldown (update_player_position dt plr) = plr_shoot_cooldown plr"
  by (simp_all add: update_player_position_def Let_def)

lemma update_enemy_dead: "en_hitpoints e \<le> 0 \<Longrightarrow> update_enemy plr dt e = e"
  by (simp add: update_enemy_def)

lemma update_enemy_keeps:
  "en_hitpoints (update_enemy plr dt e) = en_hitpoints e"
  "en_speed (update_enemy plr dt e) = en_speed e"
  by (simp_all add: update_enemy_def Let_def)

lemma update_entities_fields:
  "player (update_entities dt w) = player w"
  "event_queue (update_entities dt w) = event_queue w"
  "sim (update_entities dt w) = sim w"
  "enemy_count (update_entities dt w) = enemy_count w"
  "length (enemies (update_entities dt w)) = length (enemies w)"
  "asteroid_list (update_entities dt w) = map (update_asteroid dt) (asteroid_list w)"
  "projectile_list (update_entities dt w) = map (update_projectile dt) (projectile_list w)"
  by (simp_all add: update_entities_def)

lemma update_entities_enemy:
  "i < length (enemies w) \<Longrightarrow>
     enemies (update_entities dt w) ! i =
       (if i < enemy_count w then update_enemy (player w) dt (enemies w ! i) else enemies w ! i)"
  by (simp add: update_entities_def nth_append)

lemma world_add_projectile_frame:
  "world_add_projectile p (h, w) = (r, h', w') \<Longrightarrow> \<exists>prjs. w' = w\<lparr>projectile_list := prjs\<rparr>"
  by (cases "alloc h" rule: prod.exhaust [case_names Pair], cases "fst (alloc h)")
     (auto simp: world_add_projectile_def list_add_def intro: exI [of _ "projectile_list w"])

subsection \<open>The phases of a frame\<close>

text \<open>
  A frame that returns has run the physics loop and then drained the queue. It returns
  0 only from the failed allocation of a projectile, before the three loops; with 1
  the loops have run.
\<close>

lemma world_update_cases:
  assumes "world_update detect (acc, h, w) dt = Inr (flag, acc', h', w')"
  shows "\<exists>h1 w1 w2.
     sim_loop detect (acc + dt) (h, w) = Inr (acc', h1, w1) \<and>
     process_events (event_queue w1) w1 = Inr w2 \<and>
     (flag = 0 \<and> and (plr_actions (player w2)) ACTION_SHOOT \<noteq> 0 \<and>
        plr_shoot_cooldown (player w2) - dt \<le> 0 \<and> alloc h1 = (False, h') \<and>
        w' = w2\<lparr>event_queue := [],
                player := (update_player_position dt (player w2))
                  \<lparr>plr_shoot_cooldown := 1 / PLAYER_ACTION_SHOOT_RATE\<rparr>\<rparr>
      \<or> flag = 1 \<and>
        (\<exists>pl prjs. w' = update_entities dt (w2\<lparr>event_queue := [], player := pl,
                                               projectile_list := prjs\<rparr>) \<and>
           plr_hitpoints pl = plr_hitpoints (player w2)))"
proof -
  from assms obtain h1 w1 w2 where
    s1: "sim_loop detect (acc + dt) (h, w) = Inr (acc', h1, w1)" and
    s2: "process_events (event_queue w1) w1 = Inr w2"
    by (auto simp: world_update_def Let_def split: sum.splits prod.splits if_splits bool.splits)
  let ?plr = "(update_player_position dt (player w2))
      \<lparr>plr_shoot_cooldown := plr_shoot_cooldown (player w2) - dt\<rparr>"
  show ?thesis
  proof (cases "and (plr_actions (player w2)) ACTION_SHOOT \<noteq> 0 \<and>
        plr_shoot_cooldown (player w2) - dt \<le> 0")
    case False
    with assms s1 s2 have
      "flag = 1" "w' = update_entities dt (w2\<lparr>event_queue := [], player := ?plr,
          projectile_list := projectile_list w2\<rparr>)"
      by (auto simp: world_update_def Let_def update_player_position_keeps)
    with s1 s2 show ?thesis
      by (intro exI conjI disjI2) (assumption | simp add: update_player_position_keeps)+
  next
    case shoot: True
    obtain ok h2 where a: "alloc h1 = (ok, h2)" by (cases "alloc h1")
    show ?thesis
    proof (cases ok)
      case False
      with assms s1 s2 shoot a have
        "flag = 0" "h' = h2" "w' = w2\<lparr>event_queue := [],
                player := (update_player_position dt (player w2))
                  \<lparr>plr_shoot_cooldown := 1 / PLAYER_ACTION_SHOOT_RATE\<rparr>\<rparr>"
        by (auto simp: world_update_def Let_def update_player_position_keeps)
      with s1 s2 shoot a False show ?thesis
        by (intro exI conjI disjI1) (assumption | simp)+
    next
      case True
      let ?plr' = "?plr\<lparr>plr_shoot_cooldown := 1 / PLAYER_ACTION_SHOOT_RATE\<rparr>"
      let ?prj = "\<lparr>prj_id = 0, prj_x = plr_x ?plr', prj_y = plr_y ?plr', prj_xvel = 0,
          prj_yvel = - PLAYER_PROJECTILE_INITIAL_SPEED, prj_ttl = PLAYER_PROJECTILE_TTL\<rparr>"
      let ?w4 = "w2\<lparr>event_queue := [], player := ?plr'\<rparr>"
      obtain r h3 w5 where wap: "world_add_projectile ?prj (h2, ?w4) = (r, h3, w5)"
        by (cases "world_add_projectile ?prj (h2, ?w4)")
      from world_add_projectile_frame [OF wap] obtain prjs where
        w5: "w5 = ?w4\<lparr>projectile_list := prjs\<rparr>" by blast
      from True assms s1 s2 shoot a wap have "flag = 1" "w' = update_entities dt w5"
        by (auto simp: world_update_def Let_def update_player_position_keeps)
      with w5 have
        "flag = 1" "w' = update_entities dt (w2\<lparr>event_queue := [], player := ?plr',
          projectile_list := prjs\<rparr>)"
        by simp_all
      with s1 s2 show ?thesis
        by (intro exI conjI disjI2) (assumption | simp add: update_player_position_keeps)+
    qed
  qed
qed

lemma sim_loop_fields:
  assumes "sim_loop detect acc (h, w) = Inr (acc', h', w')"
  shows "player w' = player w" "enemies w' = enemies w" "enemy_count w' = enemy_count w"
    "asteroid_list w' = asteroid_list w" "projectile_list w' = projectile_list w"
    "bodies (sim w') = bodies (sim w)"
  using sim_loop_frame [OF assms] by auto

text \<open>What one frame does to the enemy in slot \<open>i\<close>.\<close>

lemma world_update_enemy:
  assumes wu: "world_update detect (acc, h, w) dt = Inr (flag, acc', h', w')"
    and i: "i < length (enemies w)"
  shows "\<exists>e2. (e2 = enemies w ! i \<or> e2 = (enemies w ! i)\<lparr>en_hitpoints := 0\<rparr>) \<and>
     enemies w' ! i =
       (if flag = 1 \<and> i < enemy_count w then update_enemy (player w') dt e2 else e2)"
proof -
  from world_update_cases [OF wu] obtain h1 w1 w2 where
    s1: "sim_loop detect (acc + dt) (h, w) = Inr (acc', h1, w1)" and
    s2: "process_events (event_queue w1) w1 = Inr w2" and
    alt: "flag = 0 \<and> w' = w2\<lparr>event_queue := [],
                player := (update_player_position dt (player w2))
                  \<lparr>plr_shoot_cooldown := 1 / PLAYER_ACTION_SHOOT_RATE\<rparr>\<rparr>
      \<or> flag = 1 \<and>
        (\<exists>pl prjs. w' = update_entities dt (w2\<lparr>event_queue := [], player := pl,
                                               projectile_list := prjs\<rparr>))"
    by blast
  note f1 = sim_loop_fields [OF s1]
  from i f1 have i1: "i < length (enemies w1)" by simp
  note pe = process_events_enemy [OF s2 i1]
  note pf = process_events_frame [OF s2]
  from i1 pf have i2: "i < length (enemies w2)" by simp
  have "enemies w' ! i =
      (if flag = 1 \<and> i < enemy_count w then update_enemy (player w') dt (enemies w2 ! i)
       else enemies w2 ! i)"
    using alt
  proof
    assume "flag = 0 \<and> w' = w2\<lparr>event_queue := [],
                player := (update_player_position dt (player w2))
                  \<lparr>plr_shoot_cooldown := 1 / PLAYER_ACTION_SHOOT_RATE\<rparr>\<rparr>"
    then show ?thesis by simp
  next
    assume "flag = 1 \<and>
        (\<exists>pl prjs. w' = update_entities dt (w2\<lparr>event_queue := [], player := pl,
                                               projectile_list := prjs\<rparr>))"
    then obtain pl prjs where flag: "flag = 1" and
      w': "w' = update_entities dt (w2\<lparr>event_queue := [], player := pl,
                                      projectile_list := prjs\<rparr>)"
      by blast
    show ?thesis
      using i2 pf f1 flag
      by (simp add: w' update_entities_enemy update_entities_fields)
  qed
  with pe f1 show ?thesis by auto
qed

lemma world_update_dead:
  assumes wu: "world_update detect (acc, h, w) dt = Inr (flag, acc', h', w')"
    and i: "i < length (enemies w)" and dead: "en_hitpoints (enemies w ! i) \<le> 0"
  shows "same_motion (enemies w ! i) (enemies w' ! i) \<and> en_hitpoints (enemies w' ! i) \<le> 0"
proof -
  from world_update_enemy [OF wu i] obtain e2 where
    e2: "e2 = enemies w ! i \<or> e2 = (enemies w ! i)\<lparr>en_hitpoints := 0\<rparr>" and
    w': "enemies w' ! i =
       (if flag = 1 \<and> i < enemy_count w then update_enemy (player w') dt e2 else e2)"
    by blast
  from e2 dead have "en_hitpoints e2 \<le> 0" by auto
  with w' have "enemies w' ! i = e2" by (simp add: update_enemy_dead)
  with e2 dead show ?thesis by (auto simp: same_motion_def)
qed

text \<open>What one frame does to the engine and to the accumulator.\<close>

lemma world_update_sim:
  assumes wu: "world_update detect (acc, h, w) dt = Inr (flag, acc', h', w')"
  shows "\<exists>k cbs. sim_steps (sim w') = sim_steps (sim w) + k \<and>
     sim_callbacks (sim w') = sim_callbacks (sim w) @ cbs \<and>
     involved cbs \<subseteq> set (bodies (sim w)) \<and>
     set (bodies (sim w')) \<subseteq> set (bodies (sim w)) \<and>
     acc' = acc + dt - SIMULATION_STEP * real k \<and> acc' < SIMULATION_STEP \<and>
     (0 \<le> acc + dt \<longrightarrow> 0 \<le> acc')"
proof -
  from world_update_cases [OF wu] obtain h1 w1 w2 where
    s1: "sim_loop detect (acc + dt) (h, w) = Inr (acc', h1, w1)" and
    s2: "process_events (event_queue w1) w1 = Inr w2" and
    alt: "flag = 0 \<and> w' = w2\<lparr>event_queue := [],
                player := (update_player_position dt (player w2))
                  \<lparr>plr_shoot_cooldown := 1 / PLAYER_ACTION_SHOOT_RATE\<rparr>\<rparr>
      \<or> flag = 1 \<and>
        (\<exists>pl prjs. w' = update_entities dt (w2\<lparr>event_queue := [], player := pl,
                                               projectile_list := prjs\<rparr>))"
    by blast
  from alt have sim': "sim w' = sim w2"
    by (auto simp: update_entities_fields)
  note pf = process_events_frame [OF s2]
  from sim_loop_frame [OF s1] obtain evs qs k cbs where
    w1: "w1 = w\<lparr>event_queue := event_queue w @ evs, event_queue_size := qs,
                 sim := (sim w)\<lparr>sim_steps := sim_steps (sim w) + k,
                               sim_callbacks := sim_callbacks (sim w) @ cbs\<rparr>\<rparr>" and
    acc: "acc' = acc + dt - SIMULATION_STEP * real k" "acc' < SIMULATION_STEP"
      "0 \<le> acc + dt \<longrightarrow> 0 \<le> acc'" and
    cbs: "\<forall>(a, b) \<in> set cbs. a \<in> set (bodies (sim w)) \<and> b \<in> set (bodies (sim w))"
    by blast
  have "involved cbs \<subseteq> set (bodies (sim w))"
    using cbs by (auto simp: involved_def)
  moreover have "sim_steps (sim w') = sim_steps (sim w) + k"
    "sim_callbacks (sim w') = sim_callbacks (sim w) @ cbs"
    "set (bodies (sim w')) \<subseteq> set (bodies (sim w))"
    using pf sim' by (simp_all add: w1)
  ultimately show ?thesis using acc by blast
qed

text \<open>What one frame does with the queue.\<close>

lemma world_update_drain:
  assumes wu: "world_update detect (acc, h, w) dt = Inr (flag, acc', h', w')"
  shows "\<exists>h1 w1 evs.
     sim_loop detect (acc + dt) (h, w) = Inr (acc', h1, w1) \<and>
     event_queue w1 = event_queue w @ evs \<and>
     event_queue w' = [] \<and>
     enemy_count w' = enemy_count w \<and> length (enemies w') = length (enemies w) \<and>
     plr_hitpoints (player w') = plr_hitpoints (player w)
        - ENEMY_COLLISION_DAMAGE * real (length (filter is_enemy_hit (event_queue w1))) \<and>
     (\<forall>evt \<in> set (event_queue w1). is_enemy_hit evt \<longrightarrow>
        0 \<le> evt_entity_hnd evt \<and> nat (evt_entity_hnd evt) < length (enemies w) \<and>
        en_hitpoints (enemies w' ! nat (evt_entity_hnd evt)) = 0 \<and>
        EnemyRef (nat (evt_entity_hnd evt)) \<notin> set (bodies (sim w')) \<and>
        same_motion (enemies w ! nat (evt_entity_hnd evt))
          (enemies w' ! nat (evt_entity_hnd evt)))"
proof -
  from world_update_cases [OF wu] obtain h1 w1 w2 where
    s1: "sim_loop detect (acc + dt) (h, w) = Inr (acc', h1, w1)" and
    s2: "process_events (event_queue w1) w1 = Inr w2" and
    alt: "flag = 0 \<and> w' = w2\<lparr>event_queue := [],
                player := (update_player_position dt (player w2))
                  \<lparr>plr_shoot_cooldown := 1 / PLAYER_ACTION_SHOOT_RATE\<rparr>\<rparr>
      \<or> flag = 1 \<and>
        (\<exists>pl prjs. w' = update_entities dt (w2\<lparr>event_queue := [], player := pl,
                                               projectile_list := prjs\<rparr>) \<and>
           plr_hitpoints pl = plr_hitpoints (player w2))"
    by blast
  note f1 = sim_loop_fields [OF s1]
  note pf = process_events_frame [OF s2]
  from sim_loop_frame [OF s1] obtain evs where q1: "event_queue w1 = event_queue w @ evs"
    by auto
  from alt have basic: "sim w' = sim w2" "event_queue w' = []"
    "enemy_count w' = enemy_count w2" "length (enemies w') = length (enemies w2)"
    "plr_hitpoints (player w') = plr_hitpoints (player w2)"
    by (auto simp: update_entities_fields update_player_position_keeps)
  have hits: "0 \<le> evt_entity_hnd evt \<and> nat (evt_entity_hnd evt) < length (enemies w) \<and>
        en_hitpoints (enemies w' ! nat (evt_entity_hnd evt)) = 0 \<and>
        EnemyRef (nat (evt_entity_hnd evt)) \<notin> set (bodies (sim w')) \<and>
        same_motion (enemies w ! nat (evt_entity_hnd evt))
          (enemies w' ! nat (evt_entity_hnd evt))"
    if evt: "evt \<in> set (event_queue w1)" "is_enemy_hit evt" for evt
  proof -
    let ?i = "nat (evt_entity_hnd evt)"
    from process_events_hit [OF s2 evt] f1 have
      h: "0 \<le> evt_entity_hnd evt" "?i < length (enemies w)"
        "en_hitpoints (enemies w2 ! ?i) = 0" "EnemyRef ?i \<notin> set (bodies (sim w2))"
      by simp_all
    from h(2) f1 have i1: "?i < length (enemies w1)" by simp
    from process_events_enemy [OF s2 i1] f1 have
      m2: "same_motion (enemies w ! ?i) (enemies w2 ! ?i)"
      by (auto simp: same_motion_def)
    have "enemies w' ! ?i = enemies w2 ! ?i"
      using alt
    proof
      assume "flag = 0 \<and> w' = w2\<lparr>event_queue := [],
                player := (update_player_position dt (player w2))
                  \<lparr>plr_shoot_cooldown := 1 / PLAYER_ACTION_SHOOT_RATE\<rparr>\<rparr>"
      then show ?thesis by simp
    next
      assume "flag = 1 \<and>
        (\<exists>pl prjs. w' = update_entities dt (w2\<lparr>event_queue := [], player := pl,
                                               projectile_list := prjs\<rparr>) \<and>
           plr_hitpoints pl = plr_hitpoints (player w2))"
      then obtain pl prjs where
        w': "w' = update_entities dt (w2\<lparr>event_queue := [], player := pl,
                                      projectile_list := prjs\<rparr>)"
        by blast
      from i1 pf have "?i < length (enemies w2)" by simp
      then show ?thesis
        using h(3) by (simp add: w' update_entities_enemy update_enemy_dead)
    qed
    with h m2 basic show ?thesis by simp
  qed
  from basic pf f1 have
    "plr_hitpoints (player w') = plr_hitpoints (player w)
        - ENEMY_COLLISION_DAMAGE * real (length (filter is_enemy_hit (event_queue w1)))"
    by simp
  with s1 q1 basic pf f1 hits show ?thesis
    by (intro exI [of _ h1] exI [of _ w1] exI [of _ evs]) simp
qed

subsection \<open>Runs of frames\<close>

lemma world_updates_sim:
  "world_updates detect (acc, h, w) dts = Inr (acc', h', w') \<Longrightarrow>
     \<exists>cbs. sim_callbacks (sim w') = sim_callbacks (sim w) @ cbs \<and>
       involved cbs \<subseteq> set (bodies (sim w)) \<and>
       set (bodies (sim w')) \<subseteq> set (bodies (sim w))"
proof (induction dts arbitrary: acc h w)
  case Nil
  then show ?case by (simp add: involved_def)
next
  case (Cons dt dts)
  from Cons.prems obtain flag acc1 h1 w1 where
    s1: "world_update detect (acc, h, w) dt = Inr (flag, acc1, h1, w1)" and
    s2: "world_updates detect (acc1, h1, w1) dts = Inr (acc', h', w')"
    by (auto split: sum.splits)
  from world_update_sim [OF s1] obtain cbs1 where
    c1: "sim_callbacks (sim w1) = sim_callbacks (sim w) @ cbs1"
      "involved cbs1 \<subseteq> set (bodies (sim w))"
      "set (bodies (sim w1)) \<subseteq> set (bodies (sim w))"
    by blast
  from Cons.IH [OF s2] obtain cbs2 where
    c2: "sim_callbacks (sim w') = sim_callbacks (sim w1) @ cbs2"
      "involved cbs2 \<subseteq> set (bodies (sim w1))"
      "set (bodies (sim w')) \<subseteq> set (bodies (sim w1))"
    by blast
  have "involved (cbs1 @ cbs2) = involved cbs1 \<union> involved cbs2"
    by (auto simp: involved_def)
  with c1 c2 have "sim_callbacks (sim w') = sim_callbacks (sim w) @ (cbs1 @ cbs2) \<and>
       involved (cbs1 @ cbs2) \<subseteq> set (bodies (sim w)) \<and>
       set (bodies (sim w')) \<subseteq> set (bodies (sim w))"
    by auto
  then show ?case by blast
qed

lemma world_updates_acc:
  "world_updates detect (acc, h, w) dts = Inr (acc', h', w') \<Longrightarrow>
   \<forall>dt \<in> set dts. 0 \<le> dt \<Longrightarrow> 0 \<le> acc \<Longrightarrow> acc < SIMULATION_STEP \<Longrightarrow>
     \<exists>k. sim_steps (sim w') = sim_steps (sim w) + k \<and>
       acc' = acc + sum_list dts - SIMULATION_STEP * real k \<and>
       0 \<le> acc' \<and> acc' < SIMULATION_STEP"
proof (induction dts arbitrary: acc h w)
  case Nil
  then show ?case by simp
next
  case (Cons dt dts)
  from Cons.prems(1) obtain flag acc1 h1 w1 where
    s1: "world_update detect (acc, h, w) dt = Inr (flag, acc1, h1, w1)" and
    s2: "world_updates detect (acc1, h1, w1) dts = Inr (acc', h', w')"
    by (auto split: sum.splits)
  from Cons.prems have dt: "0 \<le> acc + dt" by simp
  from world_update_sim [OF s1] dt obtain k1 where
    k1: "sim_steps (sim w1) = sim_steps (sim w) + k1"
      "acc1 = acc + dt - SIMULATION_STEP * real k1" "acc1 < SIMULATION_STEP" "0 \<le> acc1"
    by blast
  from Cons.prems have "\<forall>dt \<in> set dts. 0 \<le> dt" by simp
  from Cons.IH [OF s2 this k1(4) k1(3)] obtain k2 where
    k2: "sim_steps (sim w') = sim_steps (sim w1) + k2"
      "acc' = acc1 + sum_list dts - SIMULATION_STEP * real k2"
      "0 \<le> acc'" "acc' < SIMULATION_STEP"
    by blast
  have "sim_steps (sim w') = sim_steps (sim w) + (k1 + k2)"
    using k1 k2 by simp
  moreover have "acc' = acc + sum_list (dt # dts) - SIMULATION_STEP * real (k1 + k2)"
    using k1 k2 by (simp add: algebra_simps)
  ultimately show ?case using k2 by blast
qed

lemma world_updates_dead:
  "world_updates detect (acc, h, w) dts = Inr (acc', h', w') \<Longrightarrow>
   i < length (enemies w) \<Longrightarrow> en_hitpoints (enemies w ! i) \<le> 0 \<Longrightarrow>
     same_motion (enemies w ! i) (enemies w' ! i) \<and> en_hitpoints (enemies w' ! i) \<le> 0 \<and>
     length (enemies w') = length (enemies w) \<and> enemy_count w' = enemy_count w"
proof (induction dts arbitrary: acc h w)
  case Nil
  then show ?case by (simp add: same_motion_def)
next
  case (Cons dt dts)
  from Cons.prems(1) obtain flag acc1 h1 w1 where
    s1: "world_update detect (acc, h, w) dt = Inr (flag, acc1, h1, w1)" and
    s2: "world_updates detect (acc1, h1, w1) dts = Inr (acc', h', w')"
    by (auto split: sum.splits)
  from world_update_drain [OF s1] have
    len: "length (enemies w1) = length (enemies w)" "enemy_count w1 = enemy_count w"
    by auto
  from world_update_dead [OF s1 Cons.prems(2,3)] have
    d1: "same_motion (enemies w ! i) (enemies w1 ! i)" "en_hitpoints (enemies w1 ! i) \<le> 0"
    by simp_all
  from Cons.prems(2) len have "i < length (enemies w1)" by simp
  from Cons.IH [OF s2 this d1(2)] d1 len show ?case
    by (simp add: same_motion_def)
qed

subsection \<open>Vectors\<close>

lemma vec_len_nonneg: "0 \<le> vec_len v"
  by (cases v) simp

lemma vec_len_mulf: "vec_len (vec_mulf v k) = \<bar>k\<bar> * vec_len v"
proof (cases v)
  case (Vec a b c d)
  have "a * k * (a * k) + b * k * (b * k) + c * k * (c * k) + d * k * (d * k)
      = k * k * (a * a + b * b + c * c + d * d)"
    by (simp add: algebra_simps)
  then show ?thesis
    using Vec by (simp add: real_sqrt_mult)
qed

lemma vec_norm_len: "vec_len v \<noteq> 0 \<Longrightarrow> vec_len (vec_norm v) = 1"
  using vec_len_nonneg [of v] by (simp add: vec_norm_def vec_len_mulf)

lemma vec_clamp_len: "0 \<le> m \<Longrightarrow> vec_len (vec_clamp v m) \<le> m"
proof (cases "vec_len v > m")
  case True
  assume "0 \<le> m"
  with True have "vec_len v \<noteq> 0" by simp
  with True \<open>0 \<le> m\<close> show ?thesis
    by (simp add: vec_clamp_def vec_len_mulf vec_norm_len)
next
  case False
  then show ?thesis by (simp add: vec_clamp_def)
qed

lemma vec_flat:
  "d2 (vec a b 0 0) = 0" "d3 (vec a b 0 0) = 0"
  "d2 (vec_add u v) = d2 u + d2 v" "d3 (vec_add u v) = d3 u + d3 v"
  "d2 (vec_sub u v) = d2 u - d2 v" "d3 (vec_sub u v) = d3 u - d3 v"
  "d2 (vec_mulf v k) = d2 v * k" "d3 (vec_mulf v k) = d3 v * k"
  by (cases u, cases v, simp add: vec_def)+

lemma vec_norm_flat: "d2 v = 0 \<Longrightarrow> d2 (vec_norm v) = 0" "d3 v = 0 \<Longrightarrow> d3 (vec_norm v) = 0"
  by (simp_all add: vec_norm_def vec_flat)

lemma vec_clamp_flat:
  "d2 v = 0 \<Longrightarrow> d2 (vec_clamp v m) = 0" "d3 v = 0 \<Longrightarrow> d3 (vec_clamp v m) = 0"
  by (simp_all add: vec_clamp_def vec_flat vec_norm_flat)

lemma vec_eta: "d2 v = 0 \<Longrightarrow> d3 v = 0 \<Longrightarrow> vec (d0 v) (d1 v) 0 0 = v"
  by (cases v) (simp add: vec_def)

text \<open>The velocity that the steering update stores in a live enemy.\<close>

lemma update_enemy_velocity:
  assumes "0 < en_hitpoints enemy"
  shows "vec (en_xvel (update_enemy plr dt enemy)) (en_yvel (update_enemy plr dt enemy)) 0 0 =
     vec_clamp
       (vec_add (vec (en_xvel enemy) (en_yvel enemy) 0 0)
          (vec_clamp
             (vec_sub
                (vec_mulf
                   (vec_norm (vec_sub (vec (plr_x plr) (plr_y plr) 0 0)
                      (vec (en_x enemy) (en_y enemy) 0 0)))
                   (en_speed enemy))
                (vec (en_xvel enemy) (en_yvel enemy) 0 0))
             0.5))
       (en_speed enemy)"
  using assms
  by (simp add: update_enemy_def Let_def vec_eta vec_flat vec_norm_flat vec_clamp_flat)

subsection \<open>Adding enemies\<close>

lemma alloc_ok: "\<forall>ok \<in> set h. ok \<Longrightarrow> \<exists>h'. alloc h = (True, h') \<and> (\<forall>ok \<in> set h'. ok)"
  by (cases h) auto

lemma world_add_enemy_ok:
  assumes "enemy_count w < MAX_ENEMIES" and "length (enemies w) = MAX_ENEMIES"
    and "\<forall>ok \<in> set h. ok"
  shows "\<exists>h' w'. world_add_enemy MAX_ENEMIES e (h, w) = (int (enemy_count w), h', w') \<and>
     (\<forall>ok \<in> set h'. ok) \<and> enemy_count w' = Suc (enemy_count w) \<and>
     length (enemies w') = MAX_ENEMIES \<and>
     bodies (sim w') = bodies (sim w) @ [EnemyRef (enemy_count w)] \<and>
     enemies w' = (enemies w)[enemy_count w :=
        e\<lparr>en_hitpoints := ENEMY_INITIAL_HITPOINTS, en_id := int (enemy_count w),
          en_body := \<lparr>b_x = en_x e, b_y = en_y e, b_radius = 40, b_type = BODY_TYPE_ENEMY,
                      b_collision_mask = BODY_TYPE_PLAYER,
                      b_userdata = EnemyRef (enemy_count w)\<rparr>\<rparr>]"
proof -
  from alloc_ok [OF assms(3)] obtain h' where "alloc h = (True, h')" "\<forall>ok \<in> set h'. ok"
    by blast
  with assms(1,2) show ?thesis
    by (simp add: world_add_enemy_def sim_add_body_def Let_def)
qed

lemma add_enemies_append:
  "add_enemies MAX_ENEMIES (es @ es') hw =
     (case add_enemies MAX_ENEMIES es hw of
        (rs, hw') \<Rightarrow>
          (case add_enemies MAX_ENEMIES es' hw' of (rs', hw'') \<Rightarrow> (rs @ rs', hw'')))"
  by (induction es arbitrary: hw) (auto split: prod.splits)

lemma add_enemies_ok:
  "enemy_count w + length es \<le> MAX_ENEMIES \<Longrightarrow> length (enemies w) = MAX_ENEMIES \<Longrightarrow>
   \<forall>ok \<in> set h. ok \<Longrightarrow>
     \<exists>h' w'. add_enemies MAX_ENEMIES es (h, w) =
         (map int [enemy_count w..<enemy_count w + length es], h', w') \<and>
       enemy_count w' = enemy_count w + length es \<and>
       length (enemies w') = MAX_ENEMIES \<and>
       set (bodies (sim w)) \<subseteq> set (bodies (sim w')) \<and>
       (\<forall>i < enemy_count w. enemies w' ! i = enemies w ! i) \<and>
       (\<forall>j < length es.
          en_hitpoints (enemies w' ! (enemy_count w + j)) = ENEMY_INITIAL_HITPOINTS \<and>
          en_id (enemies w' ! (enemy_count w + j)) = int (enemy_count w + j) \<and>
          en_x (enemies w' ! (enemy_count w + j)) = en_x (es ! j) \<and>
          en_y (enemies w' ! (enemy_count w + j)) = en_y (es ! j) \<and>
          en_speed (enemies w' ! (enemy_count w + j)) = en_speed (es ! j) \<and>
          EnemyRef (enemy_count w + j) \<in> set (bodies (sim w')))"
proof (induction es arbitrary: h w)
  case Nil
  then show ?case by simp
next
  case (Cons e es)
  let ?n = "enemy_count w"
  from Cons.prems have room: "?n < MAX_ENEMIES" by simp
  from world_add_enemy_ok [OF room Cons.prems(2,3), of e] obtain h1 w1 where
    s1: "world_add_enemy MAX_ENEMIES e (h, w) = (int ?n, h1, w1)" and
    h1: "\<forall>ok \<in> set h1. ok" and
    c1: "enemy_count w1 = Suc ?n" "length (enemies w1) = MAX_ENEMIES" and
    b1: "bodies (sim w1) = bodies (sim w) @ [EnemyRef ?n]" and
    e1: "enemies w1 = (enemies w)[?n :=
        e\<lparr>en_hitpoints := ENEMY_INITIAL_HITPOINTS, en_id := int ?n,
          en_body := \<lparr>b_x = en_x e, b_y = en_y e, b_radius = 40, b_type = BODY_TYPE_ENEMY,
                      b_collision_mask = BODY_TYPE_PLAYER, b_userdata = EnemyRef ?n\<rparr>\<rparr>]"
    by blast
  from Cons.prems c1 have room1: "enemy_count w1 + length es \<le> MAX_ENEMIES" by simp
  from Cons.IH [OF room1 c1(2) h1] c1(1) obtain h' w' where
    s2: "add_enemies MAX_ENEMIES es (h1, w1) = (map int [Suc ?n..<Suc ?n + length es], h', w')" and
    c2: "enemy_count w' = Suc ?n + length es" "length (enemies w') = MAX_ENEMIES" and
    b2: "set (bodies (sim w1)) \<subseteq> set (bodies (sim w'))" and
    old: "\<forall>i < Suc ?n. enemies w' ! i = enemies w1 ! i" and
    new: "\<forall>j < length es.
          en_hitpoints (enemies w' ! (Suc ?n + j)) = ENEMY_INITIAL_HITPOINTS \<and>
          en_id (enemies w' ! (Suc ?n + j)) = int (Suc ?n + j) \<and>
          en_x (enemies w' ! (Suc ?n + j)) = en_x (es ! j) \<and>
          en_y (enemies w' ! (Suc ?n + j)) = en_y (es ! j) \<and>
          en_speed (enemies w' ! (Suc ?n + j)) = en_speed (es ! j) \<and>
          EnemyRef (Suc ?n + j) \<in> set (bodies (sim w'))"
    by auto
  have ret: "add_enemies MAX_ENEMIES (e # es) (h, w) =
      (map int [?n..<?n + length (e # es)], h', w')"
    using s1 s2 by (simp add: upt_conv_Cons del: upt_Suc)
  have keep: "\<forall>i < ?n. enemies w' ! i = enemies w ! i"
    using old e1 by simp
  have slot: "enemies w' ! ?n =
      e\<lparr>en_hitpoints := ENEMY_INITIAL_HITPOINTS, en_id := int ?n,
        en_body := \<lparr>b_x = en_x e, b_y = en_y e, b_radius = 40, b_type = BODY_TYPE_ENEMY,
                    b_collision_mask = BODY_TYPE_PLAYER, b_userdata = EnemyRef ?n\<rparr>\<rparr>"
    using old e1 room Cons.prems(2) by simp
  have slots: "en_hitpoints (enemies w' ! (?n + j)) = ENEMY_INITIAL_HITPOINTS \<and>
          en_id (enemies w' ! (?n + j)) = int (?n + j) \<and>
          en_x (enemies w' ! (?n + j)) = en_x ((e # es) ! j) \<and>
          en_y (enemies w' ! (?n + j)) = en_y ((e # es) ! j) \<and>
          en_speed (enemies w' ! (?n + j)) = en_speed ((e # es) ! j) \<and>
          EnemyRef (?n + j) \<in> set (bodies (sim w'))"
    if j: "j < length (e # es)" for j
  proof (cases j)
    case 0
    with slot b1 b2 show ?thesis by auto
  next
    case (Suc j')
    with j new show ?thesis by simp
  qed
  from ret c2 b1 b2 keep slots show ?case
    by (intro exI [of _ h'] exI [of _ w']) auto
qed

subsection \<open>Frames of a well-formed World return\<close>

lemma granting_alloc: "granting h \<Longrightarrow> \<exists>h'. alloc h = (True, h') \<and> granting h'"
  by (cases h) (auto simp: granting_def)

lemma add_event_returns:
  assumes "granting h"
  shows "\<exists>h' qs. add_event evt (h, w) =
      Inr (h', w\<lparr>event_queue := event_queue w @ [evt], event_queue_size := qs\<rparr>) \<and> granting h'"
proof (cases "event_count w = event_queue_size w")
  case True
  from granting_alloc [OF assms] obtain h' where a: "alloc h = (True, h')" "granting h'"
    by blast
  with True have "add_event evt (h, w) =
      Inr (h', w\<lparr>event_queue := event_queue w @ [evt],
                  event_queue_size := event_queue_size w + EVENT_QUEUE_BASE_SIZE\<rparr>)"
    by (simp add: add_event_def)
  with a(2) show ?thesis by blast
next
  case False
  then have "add_event evt (h, w) =
      Inr (h, w\<lparr>event_queue := event_queue w @ [evt], event_queue_size := event_queue_size w\<rparr>)"
    by (simp add: add_event_def)
  with assms show ?thesis by blast
qed

lemma sound_cong:
  assumes "enemies w' = enemies w" "asteroid_list w' = asteroid_list w" "player w' = player w"
  shows "body_at w' r = body_at w r" "sound_body w' b = sound_body w b"
    "sound_events w' evs = sound_events w evs"
  by (cases r)
     (simp_all add: body_at_def enemy_at_def asteroid_at_def sound_body_def sound_events_def
       assms)

lemma sound_events_append:
  "sound_events w (xs @ ys) \<longleftrightarrow> sound_events w xs \<and> sound_events w ys"
  by (auto simp: sound_events_def)

lemma sound_world_bodies:
  "sound_world w \<Longrightarrow> r \<in> set (bodies (sim w)) \<Longrightarrow> \<exists>b. body_at w r = Some b \<and> sound_body w b"
  by (simp add: sound_world_def)

lemma handle_player_collision_returns:
  assumes b: "sound_body w b" and h: "granting h"
  shows "\<exists>h' evs qs. handle_player_collision a b (h, w) =
      Inr (1, h', w\<lparr>event_queue := event_queue w @ evs, event_queue_size := qs\<rparr>) \<and>
      granting h' \<and> sound_events w evs"
proof -
  have idle: "w = w\<lparr>event_queue := event_queue w @ [], event_queue_size := event_queue_size w\<rparr>"
    by simp
  show ?thesis
  proof (cases "b_type a = BODY_TYPE_PLAYER \<and>
      (b_type b = BODY_TYPE_ENEMY \<or> b_type b = BODY_TYPE_ASTEROID)")
    case False
    then have "handle_player_collision a b (h, w) = Inr (1, h, w)"
      by (auto simp: handle_player_collision_def collision_event_def)
    with h idle show ?thesis
      by (metis empty_iff list.set(1) sound_events_def)
  next
    case True
    with b obtain evt where
      ce: "collision_event w b = Some evt" and ty: "evt_type evt \<noteq> 0" and
      ok: "sound_events w [evt]"
      by (auto simp: sound_body_def collision_event_def enemy_at_def asteroid_at_def
          sound_events_def is_enemy_hit_def consts_defs)
    from add_event_returns [OF h, of evt w] obtain h' qs where
      "add_event evt (h, w) =
        Inr (h', w\<lparr>event_queue := event_queue w @ [evt], event_queue_size := qs\<rparr>)"
      "granting h'"
      by blast
    with True ce ty ok show ?thesis
      by (auto simp: handle_player_collision_def)
  qed
qed

lemma sound_world_queue:
  assumes "sound_world w" and "sound_events w evs"
  shows "sound_world (w\<lparr>event_queue := event_queue w @ evs, event_queue_size := qs\<rparr>)"
proof -
  let ?w' = "w\<lparr>event_queue := event_queue w @ evs, event_queue_size := qs\<rparr>"
  have c: "enemies ?w' = enemies w" "asteroid_list ?w' = asteroid_list w"
    "player ?w' = player w"
    by simp_all
  have "sound_events w (event_queue w)"
    using assms(1) by (simp add: sound_world_def)
  with assms show ?thesis
    by (simp add: sound_world_def sound_cong [OF c] sound_events_append)
qed

lemma invoke_handlers_returns:
  "sound_world w \<Longrightarrow> granting h \<Longrightarrow>
   \<forall>(a, b) \<in> set ps. a \<in> set (bodies (sim w)) \<and> b \<in> set (bodies (sim w)) \<Longrightarrow>
     \<exists>h' w'. invoke_handlers ps (h, w) = Inr (h', w') \<and> sound_world w' \<and> granting h'"
proof (induction ps arbitrary: h w)
  case Nil
  then show ?case by simp
next
  case (Cons p ps)
  obtain ra rb where p: "p = (ra, rb)" by (cases p)
  from Cons.prems(3) p have reg: "ra \<in> set (bodies (sim w))" "rb \<in> set (bodies (sim w))"
    by auto
  from sound_world_bodies [OF Cons.prems(1) reg(1)] obtain a where
    a: "body_at w ra = Some a" by blast
  from sound_world_bodies [OF Cons.prems(1) reg(2)] obtain b where
    b: "body_at w rb = Some b" "sound_body w b" by blast
  note ab = a b
  from handle_player_collision_returns [OF ab(3) Cons.prems(2), of a] obtain h1 evs qs where
    s1: "handle_player_collision a b (h, w) =
      Inr (1, h1, w\<lparr>event_queue := event_queue w @ evs, event_queue_size := qs\<rparr>)" and
    g1: "granting h1" and ev: "sound_events w evs"
    by blast
  let ?w1 = "w\<lparr>event_queue := event_queue w @ evs, event_queue_size := qs\<rparr>"
  have sw1: "sound_world ?w1"
    by (rule sound_world_queue [OF Cons.prems(1) ev])
  have "\<forall>(a, b) \<in> set ps. a \<in> set (bodies (sim ?w1)) \<and> b \<in> set (bodies (sim ?w1))"
    using Cons.prems(3) by simp
  from Cons.IH [OF sw1 g1 this] obtain h' w' where
    r: "invoke_handlers ps (h1, ?w1) = Inr (h', w')" "sound_world w'" "granting h'"
    by blast
  have "invoke_handlers (p # ps) (h, w) = invoke_handlers ps (h1, ?w1)"
    by (simp add: p ab s1)
  with r show ?case by simp
qed

lemma sim_step_returns:
  assumes "sound_world w" and "granting h"
  shows "\<exists>h' w'. sim_step detect (h, w) = Inr (h', w') \<and> sound_world w' \<and> granting h'"
proof -
  let ?w1 = "w\<lparr>sim := (sim w)\<lparr>sim_steps := Suc (sim_steps (sim w)),
                 sim_callbacks := sim_callbacks (sim w) @ contacts detect w\<rparr>\<rparr>"
  have c: "enemies ?w1 = enemies w" "asteroid_list ?w1 = asteroid_list w"
    "player ?w1 = player w"
    by simp_all
  from assms(1) have sw1: "sound_world ?w1"
    by (simp add: sound_world_def sound_cong [OF c])
  have "\<forall>(a, b) \<in> set (contacts detect w).
      a \<in> set (bodies (sim ?w1)) \<and> b \<in> set (bodies (sim ?w1))"
    by (simp add: contacts_def)
  from invoke_handlers_returns [OF sw1 assms(2) this] show ?thesis
    by (simp add: sim_step_def)
qed

lemma sim_loop_returns:
  "sound_world w \<Longrightarrow> granting h \<Longrightarrow>
     \<exists>acc' h' w'. sim_loop detect acc (h, w) = Inr (acc', h', w') \<and> sound_world w' \<and> granting h'"
proof (induction detect acc "(h, w)" arbitrary: h w rule: sim_loop.induct)
  case (1 detect acc)
  show ?case
  proof (cases "acc \<ge> SIMULATION_STEP")
    case False
    with "1.prems" show ?thesis by (simp add: sim_loop_stop)
  next
    case True
    from sim_step_returns [OF "1.prems", of detect] obtain h1 w1 where
      s1: "sim_step detect (h, w) = Inr (h1, w1)" and sw: "sound_world w1" "granting h1"
      by blast
    from "1.hyps" [OF True s1 sw] sim_loop_step [OF True s1] show ?thesis by simp
  qed
qed

text \<open>
  Soundness looks at the type and the userdata of a body, the ids of the enemies and
  the lengths of the containers only: a World that keeps these, registers no new body
  and holds no new event is sound again.
\<close>

lemma sound_world_preserved:
  assumes sw: "sound_world w"
    and len: "length (enemies w') = length (enemies w)"
      "length (asteroid_list w') = length (asteroid_list w)"
    and en: "\<And>j. j < length (enemies w) \<Longrightarrow>
      en_id (enemies w' ! j) = en_id (enemies w ! j) \<and>
      b_type (en_body (enemies w' ! j)) = b_type (en_body (enemies w ! j)) \<and>
      b_userdata (en_body (enemies w' ! j)) = b_userdata (en_body (enemies w ! j))"
    and ast: "\<And>k. k < length (asteroid_list w) \<Longrightarrow>
      b_type (ast_body (asteroid_list w' ! k)) = b_type (ast_body (asteroid_list w ! k)) \<and>
      b_userdata (ast_body (asteroid_list w' ! k)) = b_userdata (ast_body (asteroid_list w ! k))"
    and plr: "b_type (plr_body (player w')) = b_type (plr_body (player w))"
      "b_userdata (plr_body (player w')) = b_userdata (plr_body (player w))"
    and bodies: "set (bodies (sim w')) \<subseteq> set (bodies (sim w))"
    and evs: "set (event_queue w') \<subseteq> set (event_queue w)"
  shows "sound_world w'"
proof -
  have body: "\<exists>b'. body_at w' r = Some b' \<and> sound_body w' b'"
    if r: "r \<in> set (bodies (sim w'))" for r
  proof -
    from r bodies have "r \<in> set (bodies (sim w))" by blast
    from sound_world_bodies [OF sw this] obtain b where
      b: "body_at w r = Some b" "sound_body w b" by blast
    have "\<exists>b'. body_at w' r = Some b' \<and> b_type b' = b_type b \<and> b_userdata b' = b_userdata b"
    proof (cases r)
      case Null
      with b show ?thesis by (simp add: body_at_def)
    next
      case PlayerRef
      with b plr show ?thesis by (auto simp: body_at_def)
    next
      case (EnemyRef i)
      with b have i: "i < length (enemies w)" "b = en_body (enemies w ! i)"
        by (auto simp: body_at_def enemy_at_def split: if_splits)
      with EnemyRef len en [OF i(1)] show ?thesis
        by (simp add: body_at_def enemy_at_def)
    next
      case (AsteroidRef k)
      with b have k: "k < length (asteroid_list w)" "b = ast_body (asteroid_list w ! k)"
        by (auto simp: body_at_def asteroid_at_def split: if_splits)
      with AsteroidRef len ast [OF k(1)] show ?thesis
        by (simp add: body_at_def asteroid_at_def)
    qed
    then obtain b' where
      b': "body_at w' r = Some b'" "b_type b' = b_type b" "b_userdata b' = b_userdata b"
      by blast
    have "sound_body w' b'"
      unfolding sound_body_def
    proof (intro conjI impI)
      assume "b_type b' = BODY_TYPE_ENEMY"
      with b(2) b'(2,3) obtain i where
        i: "b_userdata b' = EnemyRef i" "i < length (enemies w)"
          "0 \<le> en_id (enemies w ! i)" "nat (en_id (enemies w ! i)) < length (enemies w)"
        by (auto simp: sound_body_def)
      with en [OF i(2)] len show "\<exists>i. b_userdata b' = EnemyRef i \<and> i < length (enemies w') \<and>
          0 \<le> en_id (enemies w' ! i) \<and> nat (en_id (enemies w' ! i)) < length (enemies w')"
        by simp
    next
      assume "b_type b' = BODY_TYPE_ASTEROID"
      with b(2) b'(2,3) len show
        "\<exists>k. b_userdata b' = AsteroidRef k \<and> k < length (asteroid_list w')"
        by (auto simp: sound_body_def)
    qed
    with b'(1) show ?thesis by blast
  qed
  from sw have "sound_events w (event_queue w)"
    by (simp add: sound_world_def)
  with evs len have "sound_events w' (event_queue w')"
    by (auto simp: sound_events_def)
  with body show ?thesis
    by (simp add: sound_world_def)
qed

lemma process_events_returns:
  "sound_events w evs \<Longrightarrow> \<exists>w'. process_events evs w = Inr w'"
proof (induction evs arbitrary: w)
  case Nil
  then show ?case by simp
next
  case (Cons evt evs)
  from Cons.prems have "\<exists>w1. process_event evt w = Inr w1"
    by (simp add: process_event_def sound_events_def is_enemy_hit_def Let_def)
  then obtain w1 where s1: "process_event evt w = Inr w1" ..
  from process_event_frame(5) [OF s1] Cons.prems have "sound_events w1 evs"
    by (simp add: sound_events_def)
  from Cons.IH [OF this] s1 show ?case by simp
qed

lemma process_events_sound:
  assumes run: "process_events evs w = Inr w'" and sw: "sound_world w"
  shows "sound_world w'"
proof (rule sound_world_preserved [OF sw])
  note pf = process_events_frame [OF run]
  from pf show "length (enemies w') = length (enemies w)"
    "length (asteroid_list w') = length (asteroid_list w)"
    "set (bodies (sim w')) \<subseteq> set (bodies (sim w))"
    "set (event_queue w') \<subseteq> set (event_queue w)"
    by simp_all
  from pf show "b_type (plr_body (player w')) = b_type (plr_body (player w))"
    "b_userdata (plr_body (player w')) = b_userdata (plr_body (player w))"
    by simp_all
  show "en_id (enemies w' ! j) = en_id (enemies w ! j) \<and>
      b_type (en_body (enemies w' ! j)) = b_type (en_body (enemies w ! j)) \<and>
      b_userdata (en_body (enemies w' ! j)) = b_userdata (en_body (enemies w ! j))"
    if "j < length (enemies w)" for j
    using process_events_enemy [OF run that] by auto
  show "b_type (ast_body (asteroid_list w' ! k)) = b_type (ast_body (asteroid_list w ! k)) \<and>
      b_userdata (ast_body (asteroid_list w' ! k)) = b_userdata (ast_body (asteroid_list w ! k))"
    for k
    using pf by simp
qed

lemma update_enemy_identity:
  "en_id (update_enemy plr dt e) = en_id e"
  "b_type (en_body (update_enemy plr dt e)) = b_type (en_body e)"
  "b_userdata (en_body (update_enemy plr dt e)) = b_userdata (en_body e)"
  by (simp_all add: update_enemy_def Let_def)

lemma frame_end_sound:
  assumes sw: "sound_world w"
    and plr: "b_type (plr_body pl) = b_type (plr_body (player w))"
      "b_userdata (plr_body pl) = b_userdata (plr_body (player w))"
  shows "sound_world (update_entities dt
      (w\<lparr>event_queue := [], player := pl, projectile_list := prjs\<rparr>))"
    (is "sound_world ?w'")
proof (rule sound_world_preserved [OF sw])
  show "length (enemies ?w') = length (enemies w)"
    "length (asteroid_list ?w') = length (asteroid_list w)"
    "set (bodies (sim ?w')) \<subseteq> set (bodies (sim w))"
    "set (event_queue ?w') \<subseteq> set (event_queue w)"
    by (simp_all add: update_entities_fields)
  from plr show "b_type (plr_body (player ?w')) = b_type (plr_body (player w))"
    "b_userdata (plr_body (player ?w')) = b_userdata (plr_body (player w))"
    by (simp_all add: update_entities_fields)
  show "en_id (enemies ?w' ! j) = en_id (enemies w ! j) \<and>
      b_type (en_body (enemies ?w' ! j)) = b_type (en_body (enemies w ! j)) \<and>
      b_userdata (en_body (enemies ?w' ! j)) = b_userdata (en_body (enemies w ! j))"
    if "j < length (enemies w)" for j
    using that by (simp add: update_entities_enemy update_enemy_identity)
  show "b_type (ast_body (asteroid_list ?w' ! k)) = b_type (ast_body (asteroid_list w ! k)) \<and>
      b_userdata (ast_body (asteroid_list ?w' ! k)) = b_userdata (ast_body (asteroid_list w ! k))"
    if "k < length (asteroid_list w)" for k
    using that by (simp add: update_entities_fields update_asteroid_def Let_def)
qed

lemma update_player_position_body:
  "b_type (plr_body (update_player_position dt plr)) = b_type (plr_body plr)"
  "b_userdata (plr_body (update_player_position dt plr)) = b_userdata (plr_body plr)"
  by (simp_all add: update_player_position_def Let_def)

text \<open>
  A frame on a sound World, with an allocator that grants every request, returns, with
  the flag 1, and leaves a sound World and such an allocator; so does every run.
\<close>

lemma world_update_returns:
  assumes sw: "sound_world w" and h: "granting h"
  shows "\<exists>sim_acc' h' w'. world_update detect (sim_acc, h, w) dt = Inr (1, sim_acc', h', w') \<and>
     sound_world w' \<and> granting h'"
proof -
  from sim_loop_returns [OF sw h, of detect "sim_acc + dt"] obtain acc1 h1 w1 where
    s1: "sim_loop detect (sim_acc + dt) (h, w) = Inr (acc1, h1, w1)" and
    sw1: "sound_world w1" and g1: "granting h1"
    by blast
  from sw1 have "sound_events w1 (event_queue w1)"
    by (simp add: sound_world_def)
  from process_events_returns [OF this] obtain w2 where
    s2: "process_events (event_queue w1) w1 = Inr w2" by blast
  have sw2: "sound_world w2"
    by (rule process_events_sound [OF s2 sw1])
  let ?plr = "(update_player_position dt (player w2))
      \<lparr>plr_shoot_cooldown := plr_shoot_cooldown (player w2) - dt\<rparr>"
  show ?thesis
  proof (cases "and (plr_actions (player w2)) ACTION_SHOOT \<noteq> 0 \<and>
        plr_shoot_cooldown (player w2) - dt \<le> 0")
    case False
    let ?w' = "update_entities dt (w2\<lparr>event_queue := [], player := ?plr,
        projectile_list := projectile_list w2\<rparr>)"
    from False s1 s2 have "world_update detect (sim_acc, h, w) dt = Inr (1, acc1, h1, ?w')"
      by (auto simp: world_update_def Let_def update_player_position_keeps)
    moreover have "sound_world ?w'"
      by (rule frame_end_sound [OF sw2]) (simp_all add: update_player_position_body)
    ultimately show ?thesis using g1 by blast
  next
    case True
    let ?plr' = "?plr\<lparr>plr_shoot_cooldown := 1 / PLAYER_ACTION_SHOOT_RATE\<rparr>"
    let ?prj = "\<lparr>prj_id = 0, prj_x = plr_x ?plr', prj_y = plr_y ?plr', prj_xvel = 0,
        prj_yvel = - PLAYER_PROJECTILE_INITIAL_SPEED, prj_ttl = PLAYER_PROJECTILE_TTL\<rparr>"
    let ?w' = "update_entities dt (w2\<lparr>event_queue := [], player := ?plr',
        projectile_list := projectile_list w2 @ [?prj]\<rparr>)"
    from granting_alloc [OF g1] obtain h2 where a1: "alloc h1 = (True, h2)" "granting h2"
      by blast
    from granting_alloc [OF a1(2)] obtain h3 where a2: "alloc h2 = (True, h3)" "granting h3"
      by blast
    from True s1 s2 a1 a2 have
      "world_update detect (sim_acc, h, w) dt = Inr (1, acc1, h3, ?w')"
      by (simp add: world_update_def Let_def update_player_position_keeps
          world_add_projectile_def list_add_def)
    moreover have "sound_world ?w'"
      by (rule frame_end_sound [OF sw2]) (simp_all add: update_player_position_body)
    ultimately show ?thesis using a2 by blast
  qed
qed

lemma world_updates_returns:
  "sound_world w \<Longrightarrow> granting h \<Longrightarrow>
     \<exists>sim_acc' h' w'. world_updates detect (sim_acc, h, w) dts = Inr (sim_acc', h', w') \<and>
       sound_world w' \<and> granting h'"
proof (induction dts arbitrary: sim_acc h w)
  case Nil
  then show ?case by simp
next
  case (Cons dt dts)
  from world_update_returns [OF Cons.prems, of detect sim_acc dt] obtain acc1 h1 w1 where
    s1: "world_update detect (sim_acc, h, w) dt = Inr (1, acc1, h1, w1)" and
    sw: "sound_world w1" "granting h1"
    by blast
  from Cons.IH [OF sw, of acc1] s1 show ?case by simp
qed

text \<open>
  The Worlds that \<open>world_new\<close> and \<open>world_add_enemy\<close> build are sound, so every run of
  frames on them returns as long as the allocator grants its requests.
\<close>

lemma granting_tl: "granting h \<Longrightarrow> alloc h = (True, tl h) \<and> granting (tl h)"
  by (cases h) (auto simp: granting_def)

lemma world_new_sound:
  assumes "granting h"
  shows "\<exists>w h' live'. world_new MAX_ENEMIES (h, live) = (Some w, h', live') \<and>
     sound_world w \<and> granting h' \<and> enemy_count w = 0 \<and> length (enemies w) = MAX_ENEMIES"
proof -
  let ?w = "(new_world MAX_ENEMIES)\<lparr>sim := sim_new\<lparr>bodies := [PlayerRef]\<rparr>\<rparr>"
  let ?h1 = "tl h" let ?h2 = "tl ?h1" let ?h3 = "tl ?h2" let ?h4 = "tl ?h3"
  let ?h5 = "tl ?h4" let ?h6 = "tl ?h5" let ?h7 = "tl ?h6" let ?h8 = "tl ?h7"
  note g1 = granting_tl [OF assms]
  note g2 = granting_tl [OF g1 [THEN conjunct2]]
  note g3 = granting_tl [OF g2 [THEN conjunct2]]
  note g4 = granting_tl [OF g3 [THEN conjunct2]]
  note g5 = granting_tl [OF g4 [THEN conjunct2]]
  note g6 = granting_tl [OF g5 [THEN conjunct2]]
  note g7 = granting_tl [OF g6 [THEN conjunct2]]
  note g8 = granting_tl [OF g7 [THEN conjunct2]]
  have "world_new MAX_ENEMIES (h, live) =
      (Some ?w, ?h8,
       live @ [WorldBlock, AsteroidListBlock, ProjectileListBlock, SimBlock, EventQueueBlock])"
    using g1 g2 g3 g4 g5 g6 g7 g8
    by (simp add: world_new_def make_block_def sim_add_body_def sim_new_def)
  moreover have "sound_world ?w"
    by (simp add: sound_world_def sound_events_def sound_body_def body_at_def new_world_def
        sim_new_def Let_def consts_defs)
  moreover have "enemy_count ?w = 0" "length (enemies ?w) = MAX_ENEMIES"
    by (simp_all add: new_world_def Let_def)
  ultimately show ?thesis using g8 by blast
qed

lemma world_add_enemy_sound:
  assumes sw: "sound_world w" and len: "length (enemies w) = MAX_ENEMIES"
    and g: "granting h" and run: "world_add_enemy MAX_ENEMIES e (h, w) = (r, h', w')"
  shows "sound_world w' \<and> length (enemies w') = MAX_ENEMIES \<and> granting h'"
proof (cases "enemy_count w < MAX_ENEMIES")
  case False
  with run sw len g show ?thesis
    by (simp add: world_add_enemy_def)
next
  case True
  let ?i = "enemy_count w"
  let ?body = "\<lparr>b_x = en_x e, b_y = en_y e, b_radius = 40, b_type = BODY_TYPE_ENEMY,
      b_collision_mask = BODY_TYPE_PLAYER, b_userdata = EnemyRef ?i\<rparr>"
  let ?slot = "e\<lparr>en_hitpoints := ENEMY_INITIAL_HITPOINTS, en_id := int ?i, en_body := ?body\<rparr>"
  from world_add_enemy_ok [OF True len, of h e] g run have
    w': "enemies w' = (enemies w)[?i := ?slot]"
      "bodies (sim w') = bodies (sim w) @ [EnemyRef ?i]" and
    g': "granting h'"
    by (auto simp: granting_def)
  from True g run have rest: "asteroid_list w' = asteroid_list w" "player w' = player w"
    "event_queue w' = event_queue w"
    using granting_tl [OF g]
    by (auto simp: world_add_enemy_def sim_add_body_def Let_def)
  have len': "length (enemies w') = MAX_ENEMIES"
    using len w'(1) by simp
  have slot: "enemies w' ! ?i = ?slot"
    using True len w'(1) by simp
  have other: "enemies w' ! j = enemies w ! j" if "j \<noteq> ?i" for j
    using that w'(1) by simp
  have id_ok: "0 \<le> en_id (enemies w' ! k) \<and> nat (en_id (enemies w' ! k)) < length (enemies w')"
    if "0 \<le> en_id (enemies w ! k)" "nat (en_id (enemies w ! k)) < length (enemies w)" for k
    using that slot other [of k] True len len' by (cases "k = ?i") simp_all
  have sound_new: "sound_body w' ?body"
    using slot True len' by (simp add: sound_body_def consts_defs)
  have keep: "sound_body w' b" if "sound_body w b" for b
    using that id_ok len len' rest
    by (auto simp: sound_body_def)
  have body: "\<exists>b'. body_at w' r = Some b' \<and> sound_body w' b'"
    if r: "r \<in> set (bodies (sim w'))" for r
  proof (cases "r = EnemyRef ?i")
    case True
    with slot \<open>enemy_count w < MAX_ENEMIES\<close> len' sound_new show ?thesis
      by (simp add: body_at_def enemy_at_def)
  next
    case False
    with r w'(2) have "r \<in> set (bodies (sim w))" by simp
    from sound_world_bodies [OF sw this] obtain b where
      b: "body_at w r = Some b" "sound_body w b" by blast
    from False b(1) have "body_at w' r = Some b"
      using other rest len len'
      by (cases r) (auto simp: body_at_def enemy_at_def asteroid_at_def split: if_splits)
    with keep [OF b(2)] show ?thesis by blast
  qed
  from sw have "sound_events w (event_queue w)"
    by (simp add: sound_world_def)
  with rest len len' have "sound_events w' (event_queue w')"
    by (simp add: sound_events_def)
  with body len' g' show ?thesis
    by (simp add: sound_world_def)
qed

lemma add_enemies_sound:
  "sound_world w \<Longrightarrow> length (enemies w) = MAX_ENEMIES \<Longrightarrow> granting h \<Longrightarrow>
   add_enemies MAX_ENEMIES es (h, w) = (rs, h', w') \<Longrightarrow>
     sound_world w' \<and> length (enemies w') = MAX_ENEMIES \<and> granting h'"
proof (induction es arbitrary: h w rs h' w')
  case Nil
  then show ?case by simp
next
  case (Cons e es)
  obtain r h1 w1 where s1: "world_add_enemy MAX_ENEMIES e (h, w) = (r, h1, w1)"
    by (cases "world_add_enemy MAX_ENEMIES e (h, w)")
  obtain rs1 h2 w2 where s2: "add_enemies MAX_ENEMIES es (h1, w1) = (rs1, h2, w2)"
    by (cases "add_enemies MAX_ENEMIES es (h1, w1)")
  from Cons.prems(4) s1 s2 have eq: "h' = h2" "w' = w2" by simp_all
  from world_add_enemy_sound [OF Cons.prems(1,2,3) s1] have
    "sound_world w1" "length (enemies w1) = MAX_ENEMIES" "granting h1"
    by simp_all
  from Cons.IH [OF this s2] eq show ?case by simp
qed

lemma built_worlds_run:
  assumes "granting h"
    and "world_new MAX_ENEMIES (h, live) = (Some w0, h0, live0)"
    and "add_enemies MAX_ENEMIES es (h0, w0) = (rs, h1, w1)"
  shows "\<exists>sim_acc' h' w'. world_updates detect (0, h1, w1) dts = Inr (sim_acc', h', w')"
proof -
  from world_new_sound [OF assms(1), of MAX_ENEMIES live] assms(2) have
    "sound_world w0" "length (enemies w0) = MAX_ENEMIES" "granting h0"
    by auto
  from add_enemies_sound [OF this assms(3)] have "sound_world w1" "granting h1"
    by simp_all
  from world_updates_returns [OF this] show ?thesis by blast
qed

subsection \<open>Asteroids, and the other failure paths of world_new\<close>

text \<open>
  What the single wrap of the asteroid loop achieves: from a rotation within
  \<open>[0, 2\<pi>)\<close>, a turn forwards by less than a full turn stays within \<open>[0, 2\<pi>)\<close>.
\<close>

lemma update_asteroid_wrap:
  assumes "0 \<le> ast_rot ast" "ast_rot ast < 2 * pi"
    and "0 \<le> ast_rot_speed ast * dt" "ast_rot_speed ast * dt < 2 * pi"
  shows "0 \<le> ast_rot (update_asteroid dt ast) \<and> ast_rot (update_asteroid dt ast) < 2 * pi"
  using assms by (simp add: update_asteroid_def Let_def)

text \<open>
  The failure paths of \<open>world_new\<close> that call \<open>world_destroy(w)\<close>, and the failure of the
  first allocation, return null with nothing left allocated: the engine, a handler,
  the event queue, the player's body.
\<close>

lemma world_new_failures_release:
  "world_new MAX_ENEMIES ([False], []) = (None, [], [])"
  "world_new MAX_ENEMIES ([True, True, True, False], []) = (None, [], [])"
  "world_new MAX_ENEMIES ([True, True, True, True, False], []) = (None, [], [])"
  "world_new MAX_ENEMIES ([True, True, True, True, True, False], []) = (None, [], [])"
  "world_new MAX_ENEMIES ([True, True, True, True, True, True, False], []) = (None, [], [])"
  "world_new MAX_ENEMIES ([True, True, True, True, True, True, True, False], []) = (None, [], [])"
  by (simp_all add: world_new_def make_block_def world_destroy_def release_def
      sim_add_body_def)

subsection \<open>Rounding\<close>

lemma round_even_half: "\<bar>of_int (round_even y) - y\<bar> \<le> 1 / 2"
  by (simp add: round_even_def Let_def)

lemma round_even_near: "of_int n - 1 / 2 < y \<Longrightarrow> y < of_int n + 1 / 2 \<Longrightarrow> round_even y = n"
  using round_even_half [of y] by linarith

lemma round_even_nonneg: "0 \<le> y \<Longrightarrow> 0 \<le> round_even y"
  by (simp add: round_even_def Let_def)

lemma floor_log2:
  assumes "2 powi n \<le> x" and "x < 2 powi (n + 1)"
  shows "\<lfloor>log 2 x\<rfloor> = n"
proof -
  have "(0 :: real) < 2 powi n" by simp
  with assms(1) have pos: "0 < x" by linarith
  have "(2 :: real) powr real_of_int n = 2 powi n"
    by (simp add: powr_real_of_int')
  moreover have "(2 :: real) powr (real_of_int n + 1) = 2 powi (n + 1)"
    using powr_real_of_int' [of 2 "n + 1"] by simp
  ultimately show ?thesis
    using floor_log_eq_powr_iff [of x 2 n] pos assms by simp
qed

lemma fround_zero: "fround p emin 0 = 0"
  by (simp add: fround_def round_even_def)

lemma fround_nonneg: "0 \<le> x \<Longrightarrow> 0 \<le> fround p emin x"
  by (simp add: fround_def Let_def round_even_nonneg)

lemma fround_eval:
  assumes "2 powi n \<le> \<bar>x\<bar>" and "\<bar>x\<bar> < 2 powi (n + 1)" and "emin \<le> n"
  shows "fround p emin x =
     of_int (round_even (x / 2 powi (n - int p + 1))) * 2 powi (n - int p + 1)"
  using floor_log2 [OF assms(1,2)] assms(3) by (simp add: fround_def max_def Let_def)

lemma fround_error:
  "\<bar>fround p emin x - x\<bar> \<le> 2 powi (max \<lfloor>log 2 \<bar>x\<bar>\<rfloor> emin - int p + 1) / 2"
proof -
  let ?t = "(2 :: real) powi (max \<lfloor>log 2 \<bar>x\<bar>\<rfloor> emin - int p + 1)"
  have t: "0 < ?t" by simp
  have "fround p emin x - x = (of_int (round_even (x / ?t)) - x / ?t) * ?t"
    using t by (simp add: fround_def Let_def field_simps)
  then have "\<bar>fround p emin x - x\<bar> = \<bar>of_int (round_even (x / ?t)) - x / ?t\<bar> * ?t"
    using t by (simp add: abs_mult)
  also have "\<dots> \<le> 1 / 2 * ?t"
    using round_even_half [of "x / ?t"] t by (intro mult_right_mono) simp_all
  finally show ?thesis by simp
qed

lemma fround_error_bound:
  assumes "\<bar>x\<bar> \<le> 2 powi b" and "emin \<le> b"
  shows "\<bar>fround p emin x - x\<bar> \<le> 2 powi (b - int p)"
proof (cases "x = 0")
  case True
  then show ?thesis by (simp add: fround_zero)
next
  case False
  then have pos: "0 < \<bar>x\<bar>" by simp
  have "log 2 \<bar>x\<bar> \<le> log 2 (2 powi b)"
    using pos assms(1) by (simp del: log_le_cancel_iff add: log_le_cancel_iff [of 2])
  also have "\<dots> = real_of_int b"
    by (simp add: powr_real_of_int' [symmetric] del: powr_real_of_int')
  finally have "\<lfloor>log 2 \<bar>x\<bar>\<rfloor> \<le> b"
    by (simp add: floor_le_iff)
  with assms(2) have "max \<lfloor>log 2 \<bar>x\<bar>\<rfloor> emin - int p + 1 \<le> b - int p + 1"
    by simp
  then have "(2 :: real) powi (max \<lfloor>log 2 \<bar>x\<bar>\<rfloor> emin - int p + 1) \<le> 2 powi (b - int p + 1)"
    by (intro power_int_increasing) simp_all
  also have "\<dots> = 2 * 2 powi (b - int p)"
    by (simp add: power_int_add)
  finally show ?thesis
    using fround_error [of p emin x] by simp
qed


subsection \<open>The accumulator loop in binary32\<close>

lemma step_f64_near: "\<bar>SIMULATION_STEP_f64 - 1 / 15\<bar> \<le> 1 / 2 ^ 56"
proof -
  have "\<bar>fround 53 (- 1022) (1 / 15) - 1 / 15\<bar> \<le> 2 powi (- 3 - int 53)"
    by (rule fround_error_bound) (simp_all add: power_int_minus)
  then show ?thesis
    by (simp add: SIMULATION_STEP_f64_def float64_def power_int_minus field_simps)
qed

lemma step_f64_bounds: "1 / 16 < SIMULATION_STEP_f64" "SIMULATION_STEP_f64 < 1 / 14"
proof -
  have "(1::real) / 2 ^ 56 \<le> 1 / 1024" by simp
  with step_f64_near show "1 / 16 < SIMULATION_STEP_f64" "SIMULATION_STEP_f64 < 1 / 14"
    by linarith+
qed

text \<open>
  The bounds of an accumulator of at most \<open>2 powi b\<close>, and the rounding errors there.
\<close>

lemma acc_range:
  assumes "- 2 \<le> b" and "b \<le> 18"
  shows "1 / 4 \<le> (2 :: real) powi b" and "(2 :: real) powi b \<le> 262144"
    and "(2 :: real) powi (b - int 53) = 2 powi b / 2 ^ 53"
    and "(2 :: real) powi (b - int 24) = 2 powi b / 2 ^ 24"
    and "(2 :: real) powi (b - 23) = 2 powi b / 2 ^ 23"
proof -
  have "(2 :: real) powi (- 2) \<le> 2 powi b"
    using assms(1) by (intro power_int_increasing) simp_all
  then show "1 / 4 \<le> (2 :: real) powi b" by (simp add: power_int_minus)
  have "(2 :: real) powi b \<le> 2 powi 18"
    using assms(2) by (intro power_int_increasing) simp_all
  then show "(2 :: real) powi b \<le> 262144" by simp
  show "(2 :: real) powi (b - int 53) = 2 powi b / 2 ^ 53"
    "(2 :: real) powi (b - int 24) = 2 powi b / 2 ^ 24"
    "(2 :: real) powi (b - 23) = 2 powi b / 2 ^ 23"
    by (simp_all add: power_int_diff)
qed

text \<open>One pass of the loop on an accumulator of at most \<open>2 powi b\<close>.\<close>

lemma loop_pass:
  assumes b: "- 2 \<le> b" "b \<le> 18"
    and x: "SIMULATION_STEP_f64 \<le> x" "x \<le> 2 powi b"
  shows "0 \<le> float32 (float64 (x - SIMULATION_STEP_f64))"
    and "\<bar>float32 (float64 (x - SIMULATION_STEP_f64)) - (x - SIMULATION_STEP_f64)\<bar>
       \<le> 2 powi (b - 23)"
    and "float32 (float64 (x - SIMULATION_STEP_f64)) \<le> x - 1 / 32"
proof -
  let ?y = "x - SIMULATION_STEP_f64"
  let ?z = "float64 ?y"
  define B where "B = (2 :: real) powi b"
  note r = acc_range [OF b, folded B_def]
  have small: "B / 2 ^ 53 \<le> 1 / 32" "B / 2 ^ 53 + B / 2 ^ 24 \<le> B / 2 ^ 23"
    "B / 2 ^ 23 \<le> 1 / 32"
    using r(1,2) by simp_all
  from x step_f64_bounds have y: "0 \<le> ?y" "?y \<le> B - 1 / 16" by (simp_all add: B_def)
  then have "\<bar>?y\<bar> \<le> 2 powi b" by (simp add: B_def)
  then have "\<bar>fround 53 (- 1022) ?y - ?y\<bar> \<le> 2 powi (b - int 53)"
    using b by (intro fround_error_bound) simp_all
  then have z: "\<bar>?z - ?y\<bar> \<le> B / 2 ^ 53"
    by (simp only: float64_def r(3))
  have z0: "0 \<le> ?z"
    using y(1) by (simp add: float64_def fround_nonneg)
  from z y small(1) have "\<bar>?z\<bar> \<le> B" by linarith
  then have "\<bar>?z\<bar> \<le> 2 powi b" by (simp add: B_def)
  then have "\<bar>fround 24 (- 126) ?z - ?z\<bar> \<le> 2 powi (b - int 24)"
    using b by (intro fround_error_bound) simp_all
  then have f: "\<bar>float32 ?z - ?z\<bar> \<le> B / 2 ^ 24"
    by (simp only: float32_def r(4))
  show "0 \<le> float32 ?z"
    using z0 by (simp add: float32_def fround_nonneg)
  from z f small(2) have "\<bar>float32 ?z - ?y\<bar> \<le> B / 2 ^ 23"
    by linarith
  then show "\<bar>float32 ?z - ?y\<bar> \<le> 2 powi (b - 23)"
    by (simp only: r(5))
  from z f small step_f64_bounds(1) show "float32 ?z \<le> x - 1 / 32"
    by linarith
qed

text \<open>Adding \<open>dt\<close> to an accumulator below one step size.\<close>

lemma add_pass:
  assumes b: "- 2 \<le> b" "b \<le> 18"
    and acc: "0 \<le> sim_acc" "sim_acc < SIMULATION_STEP_f64"
    and dt: "0 \<le> dt" "dt \<le> 2 powi b - 1 / 8"
  shows "0 \<le> float32 (sim_acc + dt)"
    and "\<bar>float32 (sim_acc + dt) - (sim_acc + dt)\<bar> \<le> 2 powi (b - 23)"
    and "float32 (sim_acc + dt) \<le> 2 powi b"
proof -
  let ?s = "sim_acc + dt"
  define B where "B = (2 :: real) powi b"
  note r = acc_range [OF b, folded B_def]
  have small: "B / 2 ^ 24 \<le> 1 / 32" "B / 2 ^ 24 \<le> B / 2 ^ 23"
    using r(1,2) by simp_all
  from acc dt step_f64_bounds(2) have s: "0 \<le> ?s" "?s \<le> B - 1 / 8 + 1 / 14"
    by (simp_all add: B_def)
  then have "\<bar>?s\<bar> \<le> B" by linarith
  then have "\<bar>?s\<bar> \<le> 2 powi b" by (simp add: B_def)
  then have "\<bar>fround 24 (- 126) ?s - ?s\<bar> \<le> 2 powi (b - int 24)"
    using b by (intro fround_error_bound) simp_all
  then have f: "\<bar>float32 ?s - ?s\<bar> \<le> B / 2 ^ 24"
    by (simp only: float32_def r(4))
  show "0 \<le> float32 ?s"
    using s(1) by (simp add: float32_def fround_nonneg)
  from f small(2) have "\<bar>float32 ?s - ?s\<bar> \<le> B / 2 ^ 23" by linarith
  then show "\<bar>float32 ?s - ?s\<bar> \<le> 2 powi (b - 23)"
    by (simp only: r(5))
  from f s(2) small(1) have "float32 ?s \<le> B" by linarith
  then show "float32 ?s \<le> 2 powi b" by (simp add: B_def)
qed

text \<open>
  From an accumulator of at most \<open>2 powi b\<close> the loop returns. If it was not stopped
  by a fault, what it leaves is below one step size and not negative, every step was
  given the step size, and the time it took off is the steps it ran times the step
  size, up to \<open>2 powi (b - 23)\<close> per step.
\<close>

lemma sim_loop_f32_bounded:
  assumes b: "- 2 \<le> b" "b \<le> 18"
  shows "0 \<le> x \<Longrightarrow> x \<le> 2 powi b \<Longrightarrow> x < real n / 32 \<Longrightarrow>
     \<exists>res. sim_loop_f32 detect x ss (h, w) = Some res \<and>
       (\<forall>left ss' h' w'. res = Inr (left, ss', h', w') \<longrightarrow>
          0 \<le> left \<and> left < SIMULATION_STEP_f64 \<and>
          (\<exists>k. ss' = ss @ replicate k SIMULATION_STEP_f64 \<and>
             sim_steps (sim w') = sim_steps (sim w) + k \<and>
             \<bar>x - (real k * SIMULATION_STEP_f64 + left)\<bar> \<le> real k * 2 powi (b - 23)))"
proof (induction n arbitrary: x ss h w)
  case 0
  then show ?case by simp
next
  case (Suc n)
  show ?case
  proof (cases "SIMULATION_STEP_f64 \<le> x")
    case False
    then have "sim_loop_f32 detect x ss (h, w) = Some (Inr (x, ss, h, w))"
      by (subst sim_loop_f32.simps) simp
    moreover have "\<exists>k. ss = ss @ replicate k SIMULATION_STEP_f64 \<and>
        sim_steps (sim w) = sim_steps (sim w) + k \<and>
        \<bar>x - (real k * SIMULATION_STEP_f64 + x)\<bar> \<le> real k * 2 powi (b - 23)"
      by (intro exI [of _ 0]) simp
    ultimately show ?thesis using False Suc.prems(1) by simp
  next
    case True
    let ?x' = "float32 (float64 (x - SIMULATION_STEP_f64))"
    let ?ss1 = "ss @ [SIMULATION_STEP_f64]"
    note p = loop_pass [OF b True Suc.prems(2)]
    show ?thesis
    proof (cases "sim_step detect (h, w)")
      case (Inl f)
      with True have "sim_loop_f32 detect x ss (h, w) = Some (Inl f)"
        by (subst sim_loop_f32.simps) simp
      then show ?thesis by simp
    next
      case (Inr hw1)
      obtain h1 w1 where hw1: "hw1 = (h1, w1)" by (cases hw1)
      from sim_step_frame [OF Inr [unfolded hw1]] have
        s1: "sim_steps (sim w1) = Suc (sim_steps (sim w))" by auto
      from p(3) Suc.prems have "?x' \<le> 2 powi b" "?x' < real n / 32"
        by (simp_all add: field_simps)
      from Suc.IH [OF p(1) this] obtain res where
        r: "sim_loop_f32 detect ?x' ?ss1 (h1, w1) = Some res"
          "\<forall>left ss' h' w'. res = Inr (left, ss', h', w') \<longrightarrow>
            0 \<le> left \<and> left < SIMULATION_STEP_f64 \<and>
            (\<exists>k. ss' = ?ss1 @ replicate k SIMULATION_STEP_f64 \<and>
               sim_steps (sim w') = sim_steps (sim w1) + k \<and>
               \<bar>?x' - (real k * SIMULATION_STEP_f64 + left)\<bar> \<le> real k * 2 powi (b - 23))"
        by blast
      from True Inr hw1 r(1) have ret: "sim_loop_f32 detect x ss (h, w) = Some res"
        by (subst sim_loop_f32.simps) simp
      have "0 \<le> left \<and> left < SIMULATION_STEP_f64 \<and>
          (\<exists>k. ss' = ss @ replicate k SIMULATION_STEP_f64 \<and>
             sim_steps (sim w') = sim_steps (sim w) + k \<and>
             \<bar>x - (real k * SIMULATION_STEP_f64 + left)\<bar> \<le> real k * 2 powi (b - 23))"
        if res: "res = Inr (left, ss', h', w')" for left ss' h' w'
      proof -
        from r(2) res obtain k where
          k: "0 \<le> left" "left < SIMULATION_STEP_f64"
            "ss' = ?ss1 @ replicate k SIMULATION_STEP_f64"
            "sim_steps (sim w') = sim_steps (sim w1) + k"
            "\<bar>?x' - (real k * SIMULATION_STEP_f64 + left)\<bar> \<le> real k * 2 powi (b - 23)"
          by blast
        have "real (Suc k) * SIMULATION_STEP_f64 = real k * SIMULATION_STEP_f64 + SIMULATION_STEP_f64"
          "real (Suc k) * 2 powi (b - 23) = real k * 2 powi (b - 23) + 2 powi (b - 23)"
          by (simp_all add: algebra_simps)
        with p(2) k(5) have
          "\<bar>x - (real (Suc k) * SIMULATION_STEP_f64 + left)\<bar> \<le> real (Suc k) * 2 powi (b - 23)"
          by linarith
        moreover from k(4) s1 have "sim_steps (sim w') = sim_steps (sim w) + Suc k"
          by simp
        moreover from k(3) have "ss' = ss @ replicate (Suc k) SIMULATION_STEP_f64"
          by simp
        ultimately show ?thesis using k(1,2) by blast
      qed
      with ret show ?thesis by blast
    qed
  qed
qed

lemma sim_loop_f32_returns:
  assumes b: "- 2 \<le> b" "b \<le> 18" and x: "0 \<le> x" "x \<le> 2 powi b"
  shows "\<exists>res. sim_loop_f32 detect x ss (h, w) = Some res \<and>
       (\<forall>left ss' h' w'. res = Inr (left, ss', h', w') \<longrightarrow>
          0 \<le> left \<and> left < SIMULATION_STEP_f64 \<and>
          (\<exists>k. ss' = ss @ replicate k SIMULATION_STEP_f64 \<and>
             sim_steps (sim w') = sim_steps (sim w) + k \<and>
             \<bar>x - (real k * SIMULATION_STEP_f64 + left)\<bar> \<le> real k * 2 powi (b - 23)))"
proof -
  from x(2) acc_range(2) [OF b] have "x < real (nat \<lceil>x * 32\<rceil> + 1) / 32"
    using x(1) by (simp add: field_simps) linarith
  from sim_loop_f32_bounded [OF b x this] show ?thesis .
qed

text \<open>
  A pass that leaves the accumulator where it was: the loop does not return, unless a
  step ends in a fault.
\<close>

lemma sim_loop_f32_stuck:
  assumes ret: "sim_loop_f32 detect x ss hw = Some res"
    and x: "SIMULATION_STEP_f64 \<le> x" "float32 (float64 (x - SIMULATION_STEP_f64)) = x"
  shows "isl res"
proof -
  have "sim_acc = x \<longrightarrow> isl res"
    if "sim_loop_f32 detect sim_acc ss hw = Some res" for sim_acc
    using that
  proof (rule sim_loop_f32.raw_induct
      [where P = "\<lambda>detect sim_acc ss hw res. sim_acc = x \<longrightarrow> isl res", rotated])
    fix loop :: "engine \<Rightarrow> real \<Rightarrow> real list \<Rightarrow> heap \<times> World \<Rightarrow>
        (fault + (real \<times> real list \<times> heap \<times> World)) option"
      and detect sim_acc ss hw res
    assume IH: "\<And>detect sim_acc ss hw res. loop detect sim_acc ss hw = Some res \<Longrightarrow>
        sim_acc = x \<longrightarrow> isl res"
    assume eq: "(if SIMULATION_STEP_f64 \<le> sim_acc
        then case sim_step detect hw of Inl f \<Rightarrow> Some (Inl f)
             | Inr hw' \<Rightarrow> loop detect (float32 (float64 (sim_acc - SIMULATION_STEP_f64)))
                 (ss @ [SIMULATION_STEP_f64]) hw'
        else Some (Inr (sim_acc, ss, hw))) = Some res"
    show "sim_acc = x \<longrightarrow> isl res"
    proof
      assume sx: "sim_acc = x"
      show "isl res"
      proof (cases "sim_step detect hw")
        case (Inl f)
        with eq sx x show ?thesis by auto
      next
        case (Inr hw')
        with eq sx x have "loop detect x (ss @ [SIMULATION_STEP_f64]) hw' = Some res" by simp
        from IH [OF this] show ?thesis by simp
      qed
    qed
  qed
  with ret show ?thesis by blast
qed

text \<open>With an engine that reports nothing no step ends in a fault.\<close>

lemma sim_step_silent:
  "sim_step silent (h, w) = Inr (h, w\<lparr>sim := (sim w)\<lparr>sim_steps := Suc (sim_steps (sim w))\<rparr>\<rparr>)"
  by (simp add: sim_step_def contacts_def silent_def)

lemma sim_loop_f32_silent:
  assumes ret: "sim_loop_f32 silent x ss hw = Some res"
  shows "\<not> isl res"
proof -
  have "detect = silent \<longrightarrow> \<not> isl res"
    if "sim_loop_f32 detect x ss hw = Some res" for detect
    using that
  proof (rule sim_loop_f32.raw_induct
      [where P = "\<lambda>detect sim_acc ss hw res. detect = silent \<longrightarrow> \<not> isl res", rotated])
    fix loop :: "engine \<Rightarrow> real \<Rightarrow> real list \<Rightarrow> heap \<times> World \<Rightarrow>
        (fault + (real \<times> real list \<times> heap \<times> World)) option"
      and detect sim_acc ss hw res
    assume IH: "\<And>detect sim_acc ss hw res. loop detect sim_acc ss hw = Some res \<Longrightarrow>
        detect = silent \<longrightarrow> \<not> isl res"
    assume eq: "(if SIMULATION_STEP_f64 \<le> sim_acc
        then case sim_step detect hw of Inl f \<Rightarrow> Some (Inl f)
             | Inr hw' \<Rightarrow> loop detect (float32 (float64 (sim_acc - SIMULATION_STEP_f64)))
                 (ss @ [SIMULATION_STEP_f64]) hw'
        else Some (Inr (sim_acc, ss, hw))) = Some res"
    show "detect = silent \<longrightarrow> \<not> isl res"
    proof
      assume d: "detect = silent"
      obtain h w where hw: "hw = (h, w)" by (cases hw)
      show "\<not> isl res"
      proof (cases "SIMULATION_STEP_f64 \<le> sim_acc")
        case False
        with eq show ?thesis by auto
      next
        case True
        with eq d hw obtain hw' where
          "loop silent (float32 (float64 (sim_acc - SIMULATION_STEP_f64)))
             (ss @ [SIMULATION_STEP_f64]) hw' = Some res"
          by (simp add: sim_step_silent)
        from IH [OF this] show ?thesis by simp
      qed
    qed
  qed
  with ret show ?thesis by blast
qed

lemma sim_loop_f32_silent_stuck:
  assumes "SIMULATION_STEP_f64 \<le> x" and "float32 (float64 (x - SIMULATION_STEP_f64)) = x"
  shows "sim_loop_f32 silent x ss hw = None"
proof (cases "sim_loop_f32 silent x ss hw")
  case None
  then show ?thesis .
next
  case (Some res)
  from sim_loop_f32_stuck [OF Some assms] sim_loop_f32_silent [OF Some]
  show ?thesis by simp
qed

subsection \<open>The call and the run with the accumulator in binary32\<close>

text \<open>
  After its loop \<open>world_update_f32\<close> does what \<open>world_update\<close> does after a loop of no
  step, and returns the accumulator and the step sizes its own loop has left.
\<close>

lemma world_update_f32_rest:
  "world_update_f32 detect (acc, ss, h, w) dt =
     (case sim_loop_f32 detect (float32 (acc + dt)) ss (h, w) of
        None \<Rightarrow> None
      | Some (Inl f) \<Rightarrow> Some (Inl f)
      | Some (Inr (acc1, ss1, h1, w1)) \<Rightarrow>
          Some (case world_update detect (- dt, h1, w1) dt of
                  Inl f \<Rightarrow> Inl f
                | Inr (flag, a, h', w') \<Rightarrow> Inr (flag, acc1, ss1, h', w')))"
proof -
  have stop: "sim_loop detect 0 hw = Inr (0, hw)" for hw
    by (rule sim_loop_stop) (simp add: SIMULATION_STEP_def)
  show ?thesis
    by (simp add: world_update_f32_def world_update_def stop Let_def
        split: option.splits sum.splits prod.splits bool.splits)
qed

lemma world_update_f32_frame:
  assumes "world_update_f32 detect (acc, ss, h, w) dt = Some (Inr (flag, acc', ss', h', w'))"
  shows "\<exists>h1 w1. sim_loop_f32 detect (float32 (acc + dt)) ss (h, w)
       = Some (Inr (acc', ss', h1, w1)) \<and>
     sim_steps (sim w') = sim_steps (sim w1)"
proof -
  from assms obtain h1 w1 a where
    l: "sim_loop_f32 detect (float32 (acc + dt)) ss (h, w) = Some (Inr (acc', ss', h1, w1))" and
    r: "world_update detect (- dt, h1, w1) dt = Inr (flag, a, h', w')"
    by (auto simp: world_update_f32_rest split: option.splits sum.splits prod.splits)
  from world_update_sim [OF r] obtain k where
    k: "sim_steps (sim w') = sim_steps (sim w1) + k" "a = - dt + dt - SIMULATION_STEP * real k"
      "0 \<le> - dt + dt \<longrightarrow> 0 \<le> a"
    by blast
  from k(2,3) have "k = 0" by (simp add: SIMULATION_STEP_def)
  with l k(1) show ?thesis by simp
qed

lemma world_update_f32_returns:
  assumes "sim_loop_f32 detect (float32 (acc + dt)) ss (h, w) = Some res"
  shows "\<exists>res'. world_update_f32 detect (acc, ss, h, w) dt = Some res'"
  using assms by (simp add: world_update_f32_rest split: sum.splits prod.splits)

text \<open>One call from an accumulator below one step size.\<close>

lemma world_update_f32_acc:
  assumes b: "- 2 \<le> b" "b \<le> 18"
    and acc: "0 \<le> acc" "acc < SIMULATION_STEP_f64"
    and dt: "0 \<le> dt" "dt \<le> 2 powi b - 1 / 8"
  shows "\<exists>res. world_update_f32 detect (acc, ss, h, w) dt = Some res \<and>
     (\<forall>flag acc' ss' h' w'. res = Inr (flag, acc', ss', h', w') \<longrightarrow>
        0 \<le> acc' \<and> acc' < SIMULATION_STEP_f64 \<and>
        (\<exists>k. ss' = ss @ replicate k SIMULATION_STEP_f64 \<and>
           sim_steps (sim w') = sim_steps (sim w) + k \<and>
           \<bar>acc + dt - (real k * SIMULATION_STEP_f64 + acc')\<bar> \<le> real (k + 1) * 2 powi (b - 23)))"
proof -
  let ?x = "float32 (acc + dt)"
  note a = add_pass [OF b acc dt]
  from sim_loop_f32_returns [OF b a(1) a(3)] obtain lres where
    l: "sim_loop_f32 detect ?x ss (h, w) = Some lres"
      "\<forall>left ss' h' w'. lres = Inr (left, ss', h', w') \<longrightarrow>
          0 \<le> left \<and> left < SIMULATION_STEP_f64 \<and>
          (\<exists>k. ss' = ss @ replicate k SIMULATION_STEP_f64 \<and>
             sim_steps (sim w') = sim_steps (sim w) + k \<and>
             \<bar>?x - (real k * SIMULATION_STEP_f64 + left)\<bar> \<le> real k * 2 powi (b - 23))"
    by blast
  from world_update_f32_returns [OF l(1)] obtain res where
    res: "world_update_f32 detect (acc, ss, h, w) dt = Some res" by blast
  have "0 \<le> acc' \<and> acc' < SIMULATION_STEP_f64 \<and>
        (\<exists>k. ss' = ss @ replicate k SIMULATION_STEP_f64 \<and>
           sim_steps (sim w') = sim_steps (sim w) + k \<and>
           \<bar>acc + dt - (real k * SIMULATION_STEP_f64 + acc')\<bar> \<le> real (k + 1) * 2 powi (b - 23))"
    if "res = Inr (flag, acc', ss', h', w')" for flag acc' ss' h' w'
  proof -
    from res that world_update_f32_frame obtain h1 w1 where
      f: "sim_loop_f32 detect ?x ss (h, w) = Some (Inr (acc', ss', h1, w1))"
        "sim_steps (sim w') = sim_steps (sim w1)"
      by blast
    from f(1) l obtain k where
      k: "0 \<le> acc'" "acc' < SIMULATION_STEP_f64" "ss' = ss @ replicate k SIMULATION_STEP_f64"
        "sim_steps (sim w1) = sim_steps (sim w) + k"
        "\<bar>?x - (real k * SIMULATION_STEP_f64 + acc')\<bar> \<le> real k * 2 powi (b - 23)"
      by auto
    have "real (k + 1) * 2 powi (b - 23) = real k * 2 powi (b - 23) + 2 powi (b - 23)"
      by (simp add: algebra_simps)
    with a(2) k(5) have
      "\<bar>acc + dt - (real k * SIMULATION_STEP_f64 + acc')\<bar> \<le> real (k + 1) * 2 powi (b - 23)"
      by linarith
    with k(1,2,3,4) f(2) show ?thesis by auto
  qed
  with res show ?thesis by blast
qed

text \<open>A run of calls from an accumulator below one step size.\<close>

lemma world_updates_f32_acc:
  assumes b: "- 2 \<le> b" "b \<le> 18"
  shows "\<forall>dt \<in> set dts. 0 \<le> dt \<and> dt \<le> 2 powi b - 1 / 8 \<Longrightarrow>
     0 \<le> acc \<Longrightarrow> acc < SIMULATION_STEP_f64 \<Longrightarrow>
     \<exists>res. world_updates_f32 detect (acc, ss, h, w) dts = Some res \<and>
       (\<forall>acc' ss' h' w'. res = Inr (acc', ss', h', w') \<longrightarrow>
          0 \<le> acc' \<and> acc' < SIMULATION_STEP_f64 \<and>
          (\<exists>k. ss' = ss @ replicate k SIMULATION_STEP_f64 \<and>
             sim_steps (sim w') = sim_steps (sim w) + k \<and>
             \<bar>acc + sum_list dts - (real k * SIMULATION_STEP_f64 + acc')\<bar>
               \<le> real (k + length dts) * 2 powi (b - 23)))"
proof (induction dts arbitrary: acc ss h w)
  case Nil
  have "\<exists>k. ss = ss @ replicate k SIMULATION_STEP_f64 \<and>
      sim_steps (sim w) = sim_steps (sim w) + k \<and>
      \<bar>acc + sum_list [] - (real k * SIMULATION_STEP_f64 + acc)\<bar>
        \<le> real (k + length ([] :: real list)) * 2 powi (b - 23)"
    by (intro exI [of _ 0]) simp
  with Nil.prems show ?case by simp
next
  case (Cons dt dts)
  from Cons.prems(1) have dt: "0 \<le> dt" "dt \<le> 2 powi b - 1 / 8"
    and rest: "\<forall>dt \<in> set dts. 0 \<le> dt \<and> dt \<le> 2 powi b - 1 / 8"
    by simp_all
  from world_update_f32_acc [OF b Cons.prems(2,3) dt] obtain res1 where
    r1: "world_update_f32 detect (acc, ss, h, w) dt = Some res1"
      "\<forall>flag acc' ss' h' w'. res1 = Inr (flag, acc', ss', h', w') \<longrightarrow>
        0 \<le> acc' \<and> acc' < SIMULATION_STEP_f64 \<and>
        (\<exists>k. ss' = ss @ replicate k SIMULATION_STEP_f64 \<and>
           sim_steps (sim w') = sim_steps (sim w) + k \<and>
           \<bar>acc + dt - (real k * SIMULATION_STEP_f64 + acc')\<bar> \<le> real (k + 1) * 2 powi (b - 23))"
    by blast
  show ?case
  proof (cases res1)
    case (Inl f)
    with r1(1) show ?thesis by simp
  next
    case (Inr st1)
    obtain flag acc1 ss1 h1 w1 where st1: "st1 = (flag, acc1, ss1, h1, w1)" by (cases st1)
    from r1(2) Inr st1 obtain k1 where
      k1: "0 \<le> acc1" "acc1 < SIMULATION_STEP_f64" "ss1 = ss @ replicate k1 SIMULATION_STEP_f64"
        "sim_steps (sim w1) = sim_steps (sim w) + k1"
        "\<bar>acc + dt - (real k1 * SIMULATION_STEP_f64 + acc1)\<bar> \<le> real (k1 + 1) * 2 powi (b - 23)"
      by blast
    from Cons.IH [OF rest k1(1,2)] obtain res where
      r: "world_updates_f32 detect (acc1, ss1, h1, w1) dts = Some res"
        "\<forall>acc' ss' h' w'. res = Inr (acc', ss', h', w') \<longrightarrow>
          0 \<le> acc' \<and> acc' < SIMULATION_STEP_f64 \<and>
          (\<exists>k. ss' = ss1 @ replicate k SIMULATION_STEP_f64 \<and>
             sim_steps (sim w') = sim_steps (sim w1) + k \<and>
             \<bar>acc1 + sum_list dts - (real k * SIMULATION_STEP_f64 + acc')\<bar>
               \<le> real (k + length dts) * 2 powi (b - 23))"
      by blast
    from r1(1) Inr st1 r(1) have ret: "world_updates_f32 detect (acc, ss, h, w) (dt # dts) = Some res"
      by simp
    have "0 \<le> acc' \<and> acc' < SIMULATION_STEP_f64 \<and>
          (\<exists>k. ss' = ss @ replicate k SIMULATION_STEP_f64 \<and>
             sim_steps (sim w') = sim_steps (sim w) + k \<and>
             \<bar>acc + sum_list (dt # dts) - (real k * SIMULATION_STEP_f64 + acc')\<bar>
               \<le> real (k + length (dt # dts)) * 2 powi (b - 23))"
      if "res = Inr (acc', ss', h', w')" for acc' ss' h' w'
    proof -
      from r(2) that obtain k where
        k: "0 \<le> acc'" "acc' < SIMULATION_STEP_f64" "ss' = ss1 @ replicate k SIMULATION_STEP_f64"
          "sim_steps (sim w') = sim_steps (sim w1) + k"
          "\<bar>acc1 + sum_list dts - (real k * SIMULATION_STEP_f64 + acc')\<bar>
             \<le> real (k + length dts) * 2 powi (b - 23)"
        by blast
      have "real (k1 + k) * SIMULATION_STEP_f64
          = real k1 * SIMULATION_STEP_f64 + real k * SIMULATION_STEP_f64"
        "real (k1 + k + length (dt # dts)) * 2 powi (b - 23)
          = real (k1 + 1) * 2 powi (b - 23) + real (k + length dts) * 2 powi (b - 23)"
        by (simp_all add: algebra_simps)
      with k1(5) k(5) have
        "\<bar>acc + sum_list (dt # dts) - (real (k1 + k) * SIMULATION_STEP_f64 + acc')\<bar>
           \<le> real (k1 + k + length (dt # dts)) * 2 powi (b - 23)"
        by simp
      moreover from k(4) k1(4) have "sim_steps (sim w') = sim_steps (sim w) + (k1 + k)"
        by simp
      moreover from k(3) k1(3) have "ss' = ss @ replicate (k1 + k) SIMULATION_STEP_f64"
        by (simp add: replicate_add)
      ultimately show ?thesis using k(1,2) by blast
    qed
    with ret show ?thesis by blast
  qed
qed

text \<open>The step count against the floor of the time over the step size.\<close>

lemma steps_within_one:
  assumes left: "0 \<le> left" "left < SIMULATION_STEP_f64"
    and err: "\<bar>t - (real k * SIMULATION_STEP_f64 + left)\<bar> \<le> e" "e \<le> SIMULATION_STEP_f64"
  shows "\<bar>int k - \<lfloor>t / SIMULATION_STEP_f64\<rfloor>\<bar> \<le> 1"
proof -
  let ?d = SIMULATION_STEP_f64
  have d: "0 < ?d" using step_f64_bounds(1) by simp
  have eq: "(real k - 1) * ?d = real k * ?d - ?d" "(real k + 2) * ?d = real k * ?d + 2 * ?d"
    by (simp_all add: algebra_simps)
  from left err eq(1) have lo: "(real k - 1) * ?d \<le> t" by linarith
  from left err eq(2) have hi: "t < (real k + 2) * ?d" by linarith
  from lo d have "real k - 1 \<le> t / ?d"
    by (simp only: pos_le_divide_eq)
  then have "int k - 1 \<le> \<lfloor>t / ?d\<rfloor>"
    by (simp add: le_floor_iff)
  moreover from hi d have "t / ?d < real k + 2"
    by (simp only: pos_divide_less_eq)
  then have "\<lfloor>t / ?d\<rfloor> < int k + 2"
    by (simp add: floor_less_iff)
  ultimately show ?thesis by simp
qed

subsection \<open>Values in binary32 and binary64\<close>

lemma fround_value:
  assumes "2 powi n \<le> \<bar>x\<bar>" and "\<bar>x\<bar> < 2 powi (n + 1)" and "emin \<le> n"
    and "of_int m - 1 / 2 < x / 2 powi (n - int p + 1)"
    and "x / 2 powi (n - int p + 1) < of_int m + 1 / 2"
  shows "fround p emin x = of_int m * 2 powi (n - int p + 1)"
  using fround_eval [OF assms(1,2,3)] round_even_near [OF assms(4,5)] by simp

lemma step_f64_value: "SIMULATION_STEP_f64 = 4803839602528529 / 72057594037927936"
  unfolding SIMULATION_STEP_f64_def float64_def
  by (subst fround_value [where n = "- 4" and m = 4803839602528529])
    (simp_all add: power_int_minus)

lemma float32_eighth: "float32 (1 / 8) = 1 / 8"
  unfolding float32_def
  by (subst fround_value [where n = "- 3" and m = 8388608])
    (simp_all add: power_int_minus)

lemma eighth_pass:
  "float32 (float64 (1 / 8 - SIMULATION_STEP_f64)) = 15658735 / 268435456"
proof -
  have a: "float64 (1 / 8 - SIMULATION_STEP_f64) = 4203359652212463 / 72057594037927936"
    unfolding float64_def step_f64_value
    by (subst fround_value [where n = "- 5" and m = 8406719304424926])
      (simp_all add: power_int_minus)
  have b: "float32 (4203359652212463 / 72057594037927936) = 15658735 / 268435456"
    unfolding float32_def
    by (subst fround_value [where n = "- 5" and m = 15658735])
      (simp_all add: power_int_minus)
  show ?thesis by (simp only: a b)
qed

lemma float32_big: "float32 4194304 = 4194304"
  unfolding float32_def
  by (subst fround_value [where n = 22 and m = 8388608])
    (simp_all add: power_int_minus)

lemma big_pass:
  "float32 (float64 (4194304 - SIMULATION_STEP_f64)) = 4194304"
proof -
  have a: "float64 (4194304 - SIMULATION_STEP_f64) = 9007199111575415 / 2147483648"
    unfolding float64_def step_f64_value
    by (subst fround_value [where n = 21 and m = 9007199111575415])
      (simp_all add: power_int_minus)
  have b: "float32 (9007199111575415 / 2147483648) = 4194304"
    unfolding float32_def
    by (subst fround_value [where n = 21 and m = 16777216])
      (simp_all add: power_int_minus)
  show ?thesis by (simp only: a b)
qed

subsection \<open>The example worlds, evaluated\<close>

lemma fresh_world_new:
  "world_new 2 ([], []) =
     (Some fresh_world, [],
      [WorldBlock, AsteroidListBlock, ProjectileListBlock, SimBlock, EventQueueBlock])"
  by (simp add: world_new_def make_block_def world_destroy_def sim_add_body_def
      fresh_world_def sim_new_def)

lemma demo_world_eq:
  "demo_world =
     \<lparr>player = \<lparr>plr_hitpoints = 100, plr_x = 0, plr_y = 350, plr_actions = 0,
                 plr_speed = 200, plr_shoot_cooldown = 0,
                 plr_body = \<lparr>b_x = 0, b_y = 350, b_radius = 40, b_type = 1,
                              b_collision_mask = 6, b_userdata = PlayerRef\<rparr>\<rparr>,
      asteroid_list = [], projectile_list = [],
      enemies = [\<lparr>en_id = 0, en_x = 0, en_y = 350, en_xvel = 0, en_yvel = 0, en_rot = 0,
                  en_speed = 50, en_hitpoints = 30,
                  en_body = \<lparr>b_x = 0, b_y = 350, b_radius = 40, b_type = 2,
                              b_collision_mask = 1, b_userdata = EnemyRef 0\<rparr>\<rparr>,
                 zero_enemy],
      enemy_count = 1,
      sim = \<lparr>bodies = [PlayerRef, EnemyRef 0], sim_steps = 0, sim_callbacks = []\<rparr>,
      event_queue = [], event_queue_size = 20\<rparr>"
  by (simp add: demo_world_def fresh_world_def world_add_enemy_def new_world_def
      sim_add_body_def sim_new_def demo_enemy_def zero_enemy_def zero_body_def Let_def
      consts_defs eval_nat_numeral)

lemma demo_step:
  "sim_step touching ([], demo_world) =
     Inr ([], demo_world\<lparr>event_queue := [\<lparr>evt_type = 2, evt_entity_hnd = 0\<rparr>],
                         sim := \<lparr>bodies = [PlayerRef, EnemyRef 0], sim_steps = 1,
                                 sim_callbacks = [(PlayerRef, EnemyRef 0)]\<rparr>\<rparr>)"
  by (simp add: demo_world_eq sim_step_def contacts_def touching_def body_at_def
      enemy_at_def handle_player_collision_def collision_event_def add_event_def
      event_count_def consts_defs)

lemma demo_loop:
  "sim_loop touching (1 / 10) ([], demo_world) =
     Inr (1 / 30, [], demo_world\<lparr>event_queue := [\<lparr>evt_type = 2, evt_entity_hnd = 0\<rparr>],
                         sim := \<lparr>bodies = [PlayerRef, EnemyRef 0], sim_steps = 1,
                                 sim_callbacks = [(PlayerRef, EnemyRef 0)]\<rparr>\<rparr>)"
    (is "_ = Inr (_, _, ?w1)")
proof -
  have "sim_loop touching (1 / 10) ([], demo_world) =
      sim_loop touching (1 / 10 - SIMULATION_STEP) ([], ?w1)"
    by (rule sim_loop_step) (simp_all add: demo_step SIMULATION_STEP_def)
  also have "\<dots> = Inr (1 / 10 - SIMULATION_STEP, [], ?w1)"
    by (rule sim_loop_stop) (simp add: SIMULATION_STEP_def)
  finally show ?thesis by (simp add: SIMULATION_STEP_def)
qed

lemma demo_frame:
  "world_update touching (0, [], demo_world) (1 / 10) = Inr (1, 1 / 30, [], demo_world_hit)"
  apply (simp add: world_update_def demo_loop)
  apply (simp add: demo_world_hit_def demo_world_eq process_event_def consts_defs Let_def
      update_player_position_def update_entities_def update_enemy_def sim_remove_body_def
      zero_enemy_def)
  done

lemma shooter_frame:
  "world_update silent (0, [False], shooter_world) (1 / 16) =
     Inr (0, 1 / 16, [], shooter_world_failed)"
  apply (simp add: world_update_def sim_loop_stop SIMULATION_STEP_def)
  apply (simp add: shooter_world_failed_def shooter_world_def demo_world_eq consts_defs
      Let_def update_player_position_def)
  done

lemma touching_gone:
  "EnemyRef 0 \<notin> set (bodies (sim w)) \<Longrightarrow>
     sim_step touching (h, w) = Inr (h, w\<lparr>sim := (sim w)\<lparr>sim_steps := Suc (sim_steps (sim w))\<rparr>\<rparr>)"
  by (simp add: sim_step_def contacts_def touching_def)

lemma later_loop:
  "sim_loop touching (2 / 15) ([], demo_world_hit) =
     Inr (0, [], demo_world_hit\<lparr>sim := (sim demo_world_hit)\<lparr>sim_steps := 3\<rparr>\<rparr>)"
proof -
  let ?w1 = "demo_world_hit\<lparr>sim := (sim demo_world_hit)\<lparr>sim_steps := 2\<rparr>\<rparr>"
  let ?w2 = "demo_world_hit\<lparr>sim := (sim demo_world_hit)\<lparr>sim_steps := 3\<rparr>\<rparr>"
  have gone: "EnemyRef 0 \<notin> set (bodies (sim demo_world_hit))"
    by (simp add: demo_world_hit_def)
  have "sim_step touching ([], demo_world_hit) = Inr ([], ?w1)"
    by (simp add: touching_gone [OF gone]) (simp add: demo_world_hit_def)
  then have "sim_loop touching (2 / 15) ([], demo_world_hit) =
      sim_loop touching (2 / 15 - SIMULATION_STEP) ([], ?w1)"
    by (intro sim_loop_step) (simp_all add: SIMULATION_STEP_def)
  also have "\<dots> = sim_loop touching (2 / 15 - SIMULATION_STEP - SIMULATION_STEP) ([], ?w2)"
    by (rule sim_loop_step) (simp_all add: SIMULATION_STEP_def touching_gone gone)
  also have "\<dots> = Inr (2 / 15 - SIMULATION_STEP - SIMULATION_STEP, [], ?w2)"
    by (rule sim_loop_stop) (simp add: SIMULATION_STEP_def)
  finally show ?thesis by (simp add: SIMULATION_STEP_def)
qed

lemma later_frame:
  "world_update touching (1 / 30, [], demo_world_hit) (1 / 10) = Inr (1, 0, [], demo_world_later)"
  apply (simp add: world_update_def later_loop)
  apply (simp add: demo_world_later_def demo_world_hit_def demo_world_eq consts_defs Let_def
      update_player_position_def update_entities_def update_enemy_def zero_enemy_def)
  done

lemma chase_world_eq:
  "chase_world =
     \<lparr>player = \<lparr>plr_hitpoints = 100, plr_x = 0, plr_y = 350, plr_actions = 0,
                 plr_speed = 200, plr_shoot_cooldown = 0,
                 plr_body = \<lparr>b_x = 0, b_y = 350, b_radius = 40, b_type = 1,
                              b_collision_mask = 6, b_userdata = PlayerRef\<rparr>\<rparr>,
      asteroid_list = [], projectile_list = [],
      enemies = [\<lparr>en_id = 0, en_x = 0, en_y = 250, en_xvel = 0, en_yvel = 0, en_rot = 0,
                  en_speed = 50, en_hitpoints = 30,
                  en_body = \<lparr>b_x = 0, b_y = 250, b_radius = 40, b_type = 2,
                              b_collision_mask = 1, b_userdata = EnemyRef 0\<rparr>\<rparr>,
                 zero_enemy],
      enemy_count = 1,
      sim = \<lparr>bodies = [PlayerRef, EnemyRef 0], sim_steps = 0, sim_callbacks = []\<rparr>,
      event_queue = [], event_queue_size = 20\<rparr>"
  by (simp add: chase_world_def fresh_world_def world_add_enemy_def new_world_def
      sim_add_body_def sim_new_def zero_enemy_def zero_body_def Let_def
      consts_defs eval_nat_numeral)

lemma sqrt_examples: "sqrt 10000 = 100" "sqrt 2500 = 50" "sqrt (1 / 4) = 1 / 2"
  by (rule real_sqrt_unique, simp add: power2_eq_square, simp)+

lemma chase_frame:
  "world_update silent (0, [], chase_world) (1 / 100) = Inr (1, 1 / 100, [], chase_world_after)"
  apply (simp add: world_update_def sim_loop_stop SIMULATION_STEP_def)
  apply (simp add: chase_world_after_def chase_world_eq consts_defs Let_def
      update_player_position_def update_entities_def update_enemy_def zero_enemy_def
      vec_def vec_norm_def vec_clamp_def atan2_def sqrt_examples)
  done

text \<open>
  The same frame with the accumulator in binary32 and an eighth of a second: one step,
  and the accumulator left is the \<open>float\<close> nearest to the difference.
\<close>

lemma demo_loop_f32:
  "sim_loop_f32 touching (1 / 8) [] ([], demo_world) =
     Some (Inr (15658735 / 268435456, [SIMULATION_STEP_f64], [],
        demo_world\<lparr>event_queue := [\<lparr>evt_type = 2, evt_entity_hnd = 0\<rparr>],
                   sim := \<lparr>bodies = [PlayerRef, EnemyRef 0], sim_steps = 1,
                           sim_callbacks = [(PlayerRef, EnemyRef 0)]\<rparr>\<rparr>))"
    (is "_ = Some (Inr (_, _, _, ?w1))")
proof -
  have "SIMULATION_STEP_f64 \<le> 1 / 8"
    by (simp add: step_f64_value)
  then have "sim_loop_f32 touching (1 / 8) [] ([], demo_world) =
      sim_loop_f32 touching (15658735 / 268435456) [SIMULATION_STEP_f64] ([], ?w1)"
    by (subst sim_loop_f32.simps) (simp add: demo_step eighth_pass)
  also have "\<dots> = Some (Inr (15658735 / 268435456, [SIMULATION_STEP_f64], [], ?w1))"
    by (subst sim_loop_f32.simps) (simp add: step_f64_value)
  finally show ?thesis .
qed

lemma demo_frame_f32:
  "world_update_f32 touching (0, [], [], demo_world) (1 / 8) =
     Some (Inr (1, 15658735 / 268435456, [SIMULATION_STEP_f64], [],
        demo_world_hit\<lparr>player := (player demo_world_hit)\<lparr>plr_shoot_cooldown := - (1 / 8)\<rparr>\<rparr>))"
  apply (simp add: world_update_f32_def float32_eighth demo_loop_f32)
  apply (simp add: demo_world_hit_def demo_world_eq process_event_def consts_defs Let_def
      update_player_position_def update_entities_def update_enemy_def sim_remove_body_def
      zero_enemy_def)
  done

text \<open>
  A frame of 4194304 seconds: the accumulator is \<open>2\<^sup>2\<^sup>2\<close>, where neighbouring \<open>float\<close>
  values are half a second apart, and taking one step size off leaves it where it
  was. With an engine that reports nothing the call does not return.
\<close>

lemma stuck_frame_f32:
  "world_update_f32 silent (0, [], [], fresh_world) 4194304 = None"
proof -
  have "SIMULATION_STEP_f64 \<le> 4194304"
    by (simp add: step_f64_value)
  from sim_loop_f32_silent_stuck [OF this big_pass] show ?thesis
    by (simp add: world_update_f32_def float32_big)
qed

section \<open>The claims\<close>

text \<open>
  C1. The claim: every call of \<open>world_update\<close> drains the queue first, before any
  physics step, so that an event produced by a collision callback is consumed only at
  the start of the next call. The code runs the physics loop first and drains the queue
  after it. In the example the queue is empty when the call starts; the one step of the
  call invokes the handler once; when the call returns the player has already lost the
  50 hitpoints, the enemy is dead and the queue is empty again.
\<close>

theorem drain_before_physics_counterexample:
  "event_queue demo_world = [] \<and>
   world_update touching (0, [], demo_world) (1 / 10) = Inr (1, 1 / 30, [], demo_world_hit) \<and>
   sim_steps (sim demo_world_hit) = 1 \<and>
   sim_callbacks (sim demo_world_hit) = [(PlayerRef, EnemyRef 0)] \<and>
   plr_hitpoints (player demo_world) = 100 \<and>
   plr_hitpoints (player demo_world_hit) = 50 \<and>
   en_hitpoints (enemies demo_world_hit ! 0) = 0 \<and>
   event_queue demo_world_hit = []"
  by (simp add: demo_frame) (simp add: demo_world_hit_def demo_world_eq)

text \<open>
  C1, amended. In every call of \<open>world_update\<close> that returns, the physics loop runs
  first; the queue is drained after it, in the same call, with the events that the
  call's own collision callbacks appended (\<open>produced\<close>) behind those that were pending.
  Each \<open>EVENT_ENEMY_HIT\<close> among them costs the player the collision damage and kills
  its enemy before the enemies move, so that this enemy does not move in the call; and
  the queue is empty when the call returns, so no event waits for the next call.
\<close>

theorem drain_after_physics:
  assumes "world_update detect (sim_acc, h, w) dt = Inr (flag, sim_acc', h', w')"
  shows "\<exists>h1 w1 produced.
     sim_loop detect (sim_acc + dt) (h, w) = Inr (sim_acc', h1, w1) \<and>
     event_queue w1 = event_queue w @ produced \<and>
     plr_hitpoints (player w') = plr_hitpoints (player w)
        - ENEMY_COLLISION_DAMAGE * real (length (filter is_enemy_hit (event_queue w @ produced))) \<and>
     (\<forall>evt \<in> set (event_queue w @ produced). is_enemy_hit evt \<longrightarrow>
        en_hitpoints (enemies w' ! nat (evt_entity_hnd evt)) = 0 \<and>
        same_motion (enemies w ! nat (evt_entity_hnd evt))
          (enemies w' ! nat (evt_entity_hnd evt))) \<and>
     event_queue w' = []"
proof -
  from world_update_drain [OF assms] obtain h1 w1 evs where
    "sim_loop detect (sim_acc + dt) (h, w) = Inr (sim_acc', h1, w1)"
    "event_queue w1 = event_queue w @ evs" "event_queue w' = []"
    "plr_hitpoints (player w') = plr_hitpoints (player w)
        - ENEMY_COLLISION_DAMAGE * real (length (filter is_enemy_hit (event_queue w1)))"
    "\<forall>evt \<in> set (event_queue w1). is_enemy_hit evt \<longrightarrow>
        0 \<le> evt_entity_hnd evt \<and> nat (evt_entity_hnd evt) < length (enemies w) \<and>
        en_hitpoints (enemies w' ! nat (evt_entity_hnd evt)) = 0 \<and>
        EnemyRef (nat (evt_entity_hnd evt)) \<notin> set (bodies (sim w')) \<and>
        same_motion (enemies w ! nat (evt_entity_hnd evt))
          (enemies w' ! nat (evt_entity_hnd evt))"
    by blast
  then show ?thesis
    by (intro exI [of _ h1] exI [of _ w1] exI [of _ evs]) simp
qed

theorem drain_after_physics_witness:
  "world_update touching (0, [], demo_world) (1 / 10) = Inr (1, 1 / 30, [], demo_world_hit) \<and>
   (\<exists>h1 w1 produced.
     sim_loop touching (0 + 1 / 10) ([], demo_world) = Inr (1 / 30, h1, w1) \<and>
     event_queue w1 = event_queue demo_world @ produced \<and>
     plr_hitpoints (player demo_world_hit) = plr_hitpoints (player demo_world)
        - ENEMY_COLLISION_DAMAGE
          * real (length (filter is_enemy_hit (event_queue demo_world @ produced))) \<and>
     (\<forall>evt \<in> set (event_queue demo_world @ produced). is_enemy_hit evt \<longrightarrow>
        en_hitpoints (enemies demo_world_hit ! nat (evt_entity_hnd evt)) = 0 \<and>
        same_motion (enemies demo_world ! nat (evt_entity_hnd evt))
          (enemies demo_world_hit ! nat (evt_entity_hnd evt))) \<and>
     event_queue demo_world_hit = [])"
  using drain_after_physics [OF demo_frame] demo_frame by simp

text \<open>
  C2. The claim: over every run of calls with \<open>dt \<ge> 0\<close> the number of physics steps is
  the floor of the elapsed time over the step size, within one step, and the
  accumulator is always left below one step size. The accumulator is a \<open>float\<close>. In a
  call with \<open>dt = 4194304\<close> it becomes \<open>2\<^sup>2\<^sup>2\<close>, which is at least one step size; the
  loop takes the step size off and the \<open>float\<close> stored is \<open>2\<^sup>2\<^sup>2\<close> again. The
  accumulator never falls below one step size and the call does not return.
\<close>

theorem accumulator_stuck_counterexample:
  "(0 :: real) \<le> 4194304 \<and>
   float32 (0 + 4194304) = 4194304 \<and>
   SIMULATION_STEP_f64 \<le> 4194304 \<and>
   float32 (float64 (4194304 - SIMULATION_STEP_f64)) = 4194304 \<and>
   world_update_f32 silent (0, [], [], fresh_world) 4194304 = None"
  by (simp add: float32_big big_pass stuck_frame_f32) (simp add: step_f64_value)

text \<open>
  C2, amended. The accumulator lives across calls: every call adds its \<open>dt\<close> and then
  runs one physics step and takes the step size off while the accumulator is at least
  one step size, all of it rounded to \<open>float\<close>. Let every \<open>dt\<close> be between 0 and
  \<open>2\<^sup>b - 1/8\<close>, with \<open>b\<close> from -2 to 18, and let the accumulator start below one step
  size and not below 0 (it starts at 0). Then every run of calls returns. If no fault
  ended it, with \<open>k\<close> the number of physics steps of the run: every step was given the
  same step size, the one taken off the accumulator; the accumulator is left below one
  step size and not below 0; the time is carried over, never dropped: the accumulated
  time is \<open>k\<close> times the step size plus what is left, up to \<open>2\<^sup>b\<^sup>-\<^sup>2\<^sup>3\<close> for every call
  and every step; and as long as this error is at most one step size, \<open>k\<close> is within
  one of the floor of the accumulated time over the step size.
\<close>

theorem accumulator_steps_binary32:
  assumes b: "- 2 \<le> b" "b \<le> 18"
    and dts: "\<forall>dt \<in> set dts. 0 \<le> dt \<and> dt \<le> 2 powi b - 1 / 8"
    and acc: "0 \<le> sim_acc" "sim_acc < SIMULATION_STEP_f64"
  shows "\<exists>res. world_updates_f32 detect (sim_acc, step_sizes, h, w) dts = Some res \<and>
     (\<forall>sim_acc' step_sizes' h' w'. res = Inr (sim_acc', step_sizes', h', w') \<longrightarrow>
        (\<exists>k. step_sizes' = step_sizes @ replicate k SIMULATION_STEP_f64 \<and>
           sim_steps (sim w') = sim_steps (sim w) + k \<and>
           0 \<le> sim_acc' \<and> sim_acc' < SIMULATION_STEP_f64 \<and>
           \<bar>sim_acc + sum_list dts - (real k * SIMULATION_STEP_f64 + sim_acc')\<bar>
             \<le> real (k + length dts) * 2 powi (b - 23) \<and>
           (real (k + length dts) * 2 powi (b - 23) \<le> SIMULATION_STEP_f64 \<longrightarrow>
            \<bar>int k - \<lfloor>(sim_acc + sum_list dts) / SIMULATION_STEP_f64\<rfloor>\<bar> \<le> 1)))"
proof -
  from world_updates_f32_acc [OF b dts acc] obtain res where
    res: "world_updates_f32 detect (sim_acc, step_sizes, h, w) dts = Some res"
      "\<forall>acc' ss' h' w'. res = Inr (acc', ss', h', w') \<longrightarrow>
          0 \<le> acc' \<and> acc' < SIMULATION_STEP_f64 \<and>
          (\<exists>k. ss' = step_sizes @ replicate k SIMULATION_STEP_f64 \<and>
             sim_steps (sim w') = sim_steps (sim w) + k \<and>
             \<bar>sim_acc + sum_list dts - (real k * SIMULATION_STEP_f64 + acc')\<bar>
               \<le> real (k + length dts) * 2 powi (b - 23))"
    by blast
  have "\<exists>k. step_sizes' = step_sizes @ replicate k SIMULATION_STEP_f64 \<and>
           sim_steps (sim w') = sim_steps (sim w) + k \<and>
           0 \<le> sim_acc' \<and> sim_acc' < SIMULATION_STEP_f64 \<and>
           \<bar>sim_acc + sum_list dts - (real k * SIMULATION_STEP_f64 + sim_acc')\<bar>
             \<le> real (k + length dts) * 2 powi (b - 23) \<and>
           (real (k + length dts) * 2 powi (b - 23) \<le> SIMULATION_STEP_f64 \<longrightarrow>
            \<bar>int k - \<lfloor>(sim_acc + sum_list dts) / SIMULATION_STEP_f64\<rfloor>\<bar> \<le> 1)"
    if "res = Inr (sim_acc', step_sizes', h', w')" for sim_acc' step_sizes' h' w'
  proof -
    from res(2) that obtain k where
      k: "0 \<le> sim_acc'" "sim_acc' < SIMULATION_STEP_f64"
        "step_sizes' = step_sizes @ replicate k SIMULATION_STEP_f64"
        "sim_steps (sim w') = sim_steps (sim w) + k"
        "\<bar>sim_acc + sum_list dts - (real k * SIMULATION_STEP_f64 + sim_acc')\<bar>
           \<le> real (k + length dts) * 2 powi (b - 23)"
      by blast
    have "\<bar>int k - \<lfloor>(sim_acc + sum_list dts) / SIMULATION_STEP_f64\<rfloor>\<bar> \<le> 1"
      if "real (k + length dts) * 2 powi (b - 23) \<le> SIMULATION_STEP_f64"
      using steps_within_one [OF k(1,2,5) that] .
    with k show ?thesis by blast
  qed
  with res(1) show ?thesis by blast
qed

theorem accumulator_steps_binary32_witness:
  "(- 2 :: int) \<le> - 2 \<and> (- 2 :: int) \<le> 18 \<and>
   (0 :: real) \<le> 1 / 8 \<and> (1 / 8 :: real) \<le> 2 powi (- 2) - 1 / 8 \<and>
   (0 :: real) \<le> 0 \<and> 0 < SIMULATION_STEP_f64 \<and>
   world_updates_f32 touching (0, [], [], demo_world) [1 / 8] =
     Some (Inr (15658735 / 268435456, [SIMULATION_STEP_f64], [],
       demo_world_hit\<lparr>player := (player demo_world_hit)\<lparr>plr_shoot_cooldown := - (1 / 8)\<rparr>\<rparr>)) \<and>
   sim_steps (sim demo_world) = 0 \<and> sim_steps (sim demo_world_hit) = 1 \<and>
   (15658735 / 268435456 :: real) < SIMULATION_STEP_f64 \<and>
   \<bar>0 + sum_list [1 / 8] - (real (1 :: nat) * SIMULATION_STEP_f64 + 15658735 / 268435456)\<bar>
     \<le> real (1 + length [1 / 8 :: real]) * 2 powi (- 2 - 23) \<and>
   real (1 + length [1 / 8 :: real]) * 2 powi (- 2 - 23) \<le> SIMULATION_STEP_f64 \<and>
   \<bar>int 1 - \<lfloor>(0 + sum_list [1 / 8]) / SIMULATION_STEP_f64\<rfloor>\<bar> \<le> 1"
proof -
  let ?w' = "demo_world_hit\<lparr>player := (player demo_world_hit)\<lparr>plr_shoot_cooldown := - (1 / 8)\<rparr>\<rparr>"
  have b: "(- 2 :: int) \<le> - 2" "(- 2 :: int) \<le> 18" by simp_all
  have dts: "\<forall>dt \<in> set [1 / 8 :: real]. 0 \<le> dt \<and> dt \<le> 2 powi (- 2) - 1 / 8"
    by (simp add: power_int_minus)
  have acc: "(0 :: real) \<le> 0" "0 < SIMULATION_STEP_f64"
    by (simp_all add: step_f64_value)
  have run: "world_updates_f32 touching (0, [], [], demo_world) [1 / 8] =
      Some (Inr (15658735 / 268435456, [SIMULATION_STEP_f64], [], ?w'))"
    by (simp add: demo_frame_f32)
  have steps: "sim_steps (sim demo_world) = 0" "sim_steps (sim demo_world_hit) = 1"
    by (simp_all add: demo_world_hit_def demo_world_eq)
  have err: "real (1 + length [1 / 8 :: real]) * 2 powi (- 2 - 23) \<le> SIMULATION_STEP_f64"
    by (simp add: step_f64_value power_int_minus)
  from accumulator_steps_binary32 [OF b dts acc, of touching "[]" "[]" demo_world]
  obtain res where
    r: "world_updates_f32 touching (0, [], [], demo_world) [1 / 8] = Some res"
      "\<forall>sim_acc' step_sizes' h' w'. res = Inr (sim_acc', step_sizes', h', w') \<longrightarrow>
        (\<exists>k. step_sizes' = [] @ replicate k SIMULATION_STEP_f64 \<and>
           sim_steps (sim w') = sim_steps (sim demo_world) + k \<and>
           0 \<le> sim_acc' \<and> sim_acc' < SIMULATION_STEP_f64 \<and>
           \<bar>0 + sum_list [1 / 8] - (real k * SIMULATION_STEP_f64 + sim_acc')\<bar>
             \<le> real (k + length [1 / 8 :: real]) * 2 powi (- 2 - 23) \<and>
           (real (k + length [1 / 8 :: real]) * 2 powi (- 2 - 23) \<le> SIMULATION_STEP_f64 \<longrightarrow>
            \<bar>int k - \<lfloor>(0 + sum_list [1 / 8]) / SIMULATION_STEP_f64\<rfloor>\<bar> \<le> 1))"
    by blast
  from r(1) have eq: "res = Inr (15658735 / 268435456, [SIMULATION_STEP_f64], [], ?w')"
    unfolding run by simp
  from r(2) [rule_format, OF eq] obtain k where
    k: "[SIMULATION_STEP_f64] = [] @ replicate k SIMULATION_STEP_f64"
      "(15658735 / 268435456 :: real) < SIMULATION_STEP_f64"
      "\<bar>0 + sum_list [1 / 8] - (real k * SIMULATION_STEP_f64 + 15658735 / 268435456)\<bar>
         \<le> real (k + length [1 / 8 :: real]) * 2 powi (- 2 - 23)"
      "real (k + length [1 / 8 :: real]) * 2 powi (- 2 - 23) \<le> SIMULATION_STEP_f64 \<longrightarrow>
         \<bar>int k - \<lfloor>(0 + sum_list [1 / 8]) / SIMULATION_STEP_f64\<rfloor>\<bar> \<le> 1"
    by blast
  from k(1) have "length [SIMULATION_STEP_f64] = length (replicate k SIMULATION_STEP_f64)"
    by simp
  then have k1: "k = 1" by simp
  note c = k(2,3,4) [unfolded k1]
  from c(3) err have c4: "\<bar>int 1 - \<lfloor>(0 + sum_list [1 / 8]) / SIMULATION_STEP_f64\<rfloor>\<bar> \<le> 1"
    by blast
  show ?thesis
    by (intro conjI b acc run steps c(1,2) err c4) (simp_all add: power_int_minus)
qed

text \<open>
  C3. Every call of \<open>world_update\<close> that returns leaves the queue's live count at 0.
  The events it processed are the queue as the physics loop of the call left it: each
  \<open>EVENT_ENEMY_HIT\<close> among them took exactly the collision damage, 50, off the
  player's hitpoints; the enemy with the event's index has hitpoints 0 and its body
  is out of the engine's body set; and in whatever frames follow, with whatever the
  engine detects, no handler invocation names that body again.
\<close>

theorem enemy_hit_effects:
  assumes "world_update detect (sim_acc, h, w) dt = Inr (flag, sim_acc', h', w')"
  shows "event_count w' = 0 \<and> ENEMY_COLLISION_DAMAGE = 50 \<and>
     (\<exists>h1 w1.
        sim_loop detect (sim_acc + dt) (h, w) = Inr (sim_acc', h1, w1) \<and>
        plr_hitpoints (player w') = plr_hitpoints (player w)
          - ENEMY_COLLISION_DAMAGE * real (length (filter is_enemy_hit (event_queue w1))) \<and>
        (\<forall>evt \<in> set (event_queue w1). is_enemy_hit evt \<longrightarrow>
           0 \<le> evt_entity_hnd evt \<and> nat (evt_entity_hnd evt) < length (enemies w') \<and>
           en_hitpoints (enemies w' ! nat (evt_entity_hnd evt)) = 0 \<and>
           EnemyRef (nat (evt_entity_hnd evt)) \<notin> set (bodies (sim w')) \<and>
           (\<forall>detect' dts sim_acc'' h'' w''.
              world_updates detect' (sim_acc', h', w') dts = Inr (sim_acc'', h'', w'') \<longrightarrow>
              EnemyRef (nat (evt_entity_hnd evt)) \<notin> set (bodies (sim w'')) \<and>
              (\<exists>cbs. sim_callbacks (sim w'') = sim_callbacks (sim w') @ cbs \<and>
                 EnemyRef (nat (evt_entity_hnd evt)) \<notin> involved cbs))))"
proof -
  from world_update_drain [OF assms] obtain h1 w1 where
    s1: "sim_loop detect (sim_acc + dt) (h, w) = Inr (sim_acc', h1, w1)" and
    q: "event_queue w' = []" and len: "length (enemies w') = length (enemies w)" and
    hp: "plr_hitpoints (player w') = plr_hitpoints (player w)
        - ENEMY_COLLISION_DAMAGE * real (length (filter is_enemy_hit (event_queue w1)))" and
    hits: "\<forall>evt \<in> set (event_queue w1). is_enemy_hit evt \<longrightarrow>
        0 \<le> evt_entity_hnd evt \<and> nat (evt_entity_hnd evt) < length (enemies w) \<and>
        en_hitpoints (enemies w' ! nat (evt_entity_hnd evt)) = 0 \<and>
        EnemyRef (nat (evt_entity_hnd evt)) \<notin> set (bodies (sim w')) \<and>
        same_motion (enemies w ! nat (evt_entity_hnd evt))
          (enemies w' ! nat (evt_entity_hnd evt))"
    by blast
  have later: "EnemyRef i \<notin> set (bodies (sim w'')) \<and>
      (\<exists>cbs. sim_callbacks (sim w'') = sim_callbacks (sim w') @ cbs \<and> EnemyRef i \<notin> involved cbs)"
    if gone: "EnemyRef i \<notin> set (bodies (sim w'))" and
      run: "world_updates detect' (sim_acc', h', w') dts = Inr (sim_acc'', h'', w'')"
    for i detect' dts sim_acc'' h'' w''
  proof -
    from world_updates_sim [OF run] obtain cbs where
      "sim_callbacks (sim w'') = sim_callbacks (sim w') @ cbs"
      "involved cbs \<subseteq> set (bodies (sim w'))" "set (bodies (sim w'')) \<subseteq> set (bodies (sim w'))"
      by blast
    with gone show ?thesis by blast
  qed
  have "\<forall>evt \<in> set (event_queue w1). is_enemy_hit evt \<longrightarrow>
           0 \<le> evt_entity_hnd evt \<and> nat (evt_entity_hnd evt) < length (enemies w') \<and>
           en_hitpoints (enemies w' ! nat (evt_entity_hnd evt)) = 0 \<and>
           EnemyRef (nat (evt_entity_hnd evt)) \<notin> set (bodies (sim w')) \<and>
           (\<forall>detect' dts sim_acc'' h'' w''.
              world_updates detect' (sim_acc', h', w') dts = Inr (sim_acc'', h'', w'') \<longrightarrow>
              EnemyRef (nat (evt_entity_hnd evt)) \<notin> set (bodies (sim w'')) \<and>
              (\<exists>cbs. sim_callbacks (sim w'') = sim_callbacks (sim w') @ cbs \<and>
                 EnemyRef (nat (evt_entity_hnd evt)) \<notin> involved cbs))"
    using hits len later by simp
  with s1 hp q show ?thesis
    by (auto simp: event_count_def ENEMY_COLLISION_DAMAGE_def)
qed

theorem enemy_hit_effects_witness:
  "world_update touching (0, [], demo_world) (1 / 10) = Inr (1, 1 / 30, [], demo_world_hit) \<and>
   sim_loop touching (0 + 1 / 10) ([], demo_world) =
     Inr (1 / 30, [],
          demo_world\<lparr>event_queue := [\<lparr>evt_type = 2, evt_entity_hnd = 0\<rparr>],
                     sim := \<lparr>bodies = [PlayerRef, EnemyRef 0], sim_steps = 1,
                             sim_callbacks = [(PlayerRef, EnemyRef 0)]\<rparr>\<rparr>) \<and>
   is_enemy_hit \<lparr>evt_type = 2, evt_entity_hnd = 0\<rparr> \<and>
   event_count demo_world_hit = 0 \<and>
   plr_hitpoints (player demo_world_hit) = plr_hitpoints (player demo_world) - 50 * real 1 \<and>
   en_hitpoints (enemies demo_world_hit ! 0) = 0 \<and>
   EnemyRef 0 \<notin> set (bodies (sim demo_world_hit)) \<and>
   world_updates touching (1 / 30, [], demo_world_hit) [1 / 10] = Inr (0, [], demo_world_later) \<and>
   EnemyRef 0 \<notin> set (bodies (sim demo_world_later)) \<and>
   (\<exists>cbs. sim_callbacks (sim demo_world_later) = sim_callbacks (sim demo_world_hit) @ cbs \<and>
      EnemyRef 0 \<notin> involved cbs)"
proof -
  have run: "world_updates touching (1 / 30, [], demo_world_hit) [1 / 10] =
      Inr (0, [], demo_world_later)"
    by (simp add: later_frame)
  have facts: "event_count demo_world_hit = 0 \<and>
      plr_hitpoints (player demo_world_hit) = plr_hitpoints (player demo_world) - 50 \<and>
      en_hitpoints (enemies demo_world_hit ! 0) = 0 \<and>
      EnemyRef 0 \<notin> set (bodies (sim demo_world_hit)) \<and>
      (\<forall>detect' dts sim_acc'' h'' w''.
          world_updates detect' (1 / 30, [], demo_world_hit) dts = Inr (sim_acc'', h'', w'') \<longrightarrow>
          EnemyRef 0 \<notin> set (bodies (sim w'')) \<and>
          (\<exists>cbs. sim_callbacks (sim w'') = sim_callbacks (sim demo_world_hit) @ cbs \<and>
             EnemyRef 0 \<notin> involved cbs))"
    using enemy_hit_effects [OF demo_frame]
    by (simp add: demo_loop is_enemy_hit_def consts_defs)
  then have "EnemyRef 0 \<notin> set (bodies (sim demo_world_later)) \<and>
      (\<exists>cbs. sim_callbacks (sim demo_world_later) = sim_callbacks (sim demo_world_hit) @ cbs \<and>
         EnemyRef 0 \<notin> involved cbs)"
    using run by blast
  with facts demo_frame run show ?thesis
    by (simp add: demo_loop is_enemy_hit_def consts_defs)
qed

text \<open>
  C4. The claim: when the projectile cannot be allocated, \<open>world_update\<close> reports it and
  still finishes the frame, the enemies, asteroids and projectiles being updated as if
  there were one projectile fewer. The code returns 0 at once. In the example the
  asteroid moves in the frame where the allocation succeeds and stays where it was in
  the frame where it fails.
\<close>

theorem failed_spawn_completes_frame_counterexample:
  "world_update silent (0, [False], shooter_world) (1 / 16) =
     Inr (0, 1 / 16, [], shooter_world_failed) \<and>
   map ast_x (asteroid_list shooter_world) = [100] \<and>
   map ast_x (asteroid_list shooter_world_failed) = [100] \<and>
   map_option (map ast_x \<circ> asteroid_list)
     (frame_world (world_update silent (0, [True], shooter_world) (1 / 16))) = Some [101]"
proof -
  have "map_option (map ast_x \<circ> asteroid_list)
     (frame_world (world_update silent (0, [True], shooter_world) (1 / 16))) = Some [101]"
    by (simp add: world_update_def sim_loop_stop SIMULATION_STEP_def)
       (simp add: shooter_world_def demo_world_eq consts_defs Let_def frame_world_def
          update_player_position_def world_add_projectile_def list_add_def
          update_entities_fields update_asteroid_def demo_asteroid_def)
  then show ?thesis
    by (simp add: shooter_frame)
       (simp add: shooter_world_failed_def shooter_world_def demo_asteroid_def)
qed

text \<open>
  C4, amended. When the player is shooting, the cooldown has run out and the projectile
  cannot be allocated, \<open>world_update\<close> returns 0 at that point: the physics steps, the
  drain of the queue, the player's move and the reset of the cooldown are done; the
  loops over enemies, asteroids and projectiles are not run, so no asteroid, no
  projectile and no enemy moves in that call.
\<close>

theorem failed_spawn_aborts_frame:
  assumes loop: "sim_loop detect (sim_acc + dt) (h, w) = Inr (sim_acc1, h1, w1)"
    and drain: "process_events (event_queue w1) w1 = Inr w2"
    and shoot: "and (plr_actions (player w)) ACTION_SHOOT \<noteq> 0"
    and cooldown: "plr_shoot_cooldown (player w) - dt \<le> 0"
    and fail: "alloc h1 = (False, h2)"
  shows "\<exists>w'. world_update detect (sim_acc, h, w) dt = Inr (0, sim_acc1, h2, w') \<and>
     event_queue w' = [] \<and>
     plr_shoot_cooldown (player w') = 1 / PLAYER_ACTION_SHOOT_RATE \<and>
     player w' = (update_player_position dt (player w2))
        \<lparr>plr_shoot_cooldown := 1 / PLAYER_ACTION_SHOOT_RATE\<rparr> \<and>
     asteroid_list w' = asteroid_list w \<and>
     projectile_list w' = projectile_list w \<and>
     length (enemies w') = length (enemies w) \<and>
     (\<forall>i < length (enemies w). same_motion (enemies w ! i) (enemies w' ! i))"
proof -
  note f1 = sim_loop_fields [OF loop]
  note pf = process_events_frame [OF drain]
  let ?w' = "w2\<lparr>event_queue := [],
      player := (update_player_position dt (player w2))
        \<lparr>plr_shoot_cooldown := 1 / PLAYER_ACTION_SHOOT_RATE\<rparr>\<rparr>"
  from pf f1 shoot cooldown have
    "and (plr_actions (player w2)) ACTION_SHOOT \<noteq> 0" "plr_shoot_cooldown (player w2) \<le> dt"
    by simp_all
  with loop drain fail have
    ret: "world_update detect (sim_acc, h, w) dt = Inr (0, sim_acc1, h2, ?w')"
    by (simp add: world_update_def Let_def update_player_position_keeps)
  have "same_motion (enemies w ! i) (enemies ?w' ! i)" if "i < length (enemies w)" for i
    using process_events_enemy [OF drain, of i] that f1
    by (auto simp: same_motion_def)
  with ret pf f1 show ?thesis
    by (intro exI [of _ ?w']) simp
qed

theorem failed_spawn_aborts_frame_witness:
  "sim_loop silent (0 + 1 / 16) ([False], shooter_world) = Inr (1 / 16, [False], shooter_world) \<and>
   process_events (event_queue shooter_world) shooter_world = Inr shooter_world \<and>
   and (plr_actions (player shooter_world)) ACTION_SHOOT \<noteq> 0 \<and>
   plr_shoot_cooldown (player shooter_world) - 1 / 16 \<le> 0 \<and>
   alloc [False] = (False, []) \<and>
   (\<exists>w'. world_update silent (0, [False], shooter_world) (1 / 16) = Inr (0, 1 / 16, [], w') \<and>
     event_queue w' = [] \<and>
     plr_shoot_cooldown (player w') = 1 / PLAYER_ACTION_SHOOT_RATE \<and>
     player w' = (update_player_position (1 / 16) (player shooter_world))
        \<lparr>plr_shoot_cooldown := 1 / PLAYER_ACTION_SHOOT_RATE\<rparr> \<and>
     asteroid_list w' = asteroid_list shooter_world \<and>
     projectile_list w' = projectile_list shooter_world \<and>
     length (enemies w') = length (enemies shooter_world) \<and>
     (\<forall>i < length (enemies shooter_world).
        same_motion (enemies shooter_world ! i) (enemies w' ! i)))"
proof -
  have loop: "sim_loop silent (0 + 1 / 16) ([False], shooter_world) =
      Inr (1 / 16, [False], shooter_world)"
    by (simp add: sim_loop_stop SIMULATION_STEP_def)
  have drain: "process_events (event_queue shooter_world) shooter_world = Inr shooter_world"
    by (simp add: shooter_world_def demo_world_eq)
  have shoot: "and (plr_actions (player shooter_world)) ACTION_SHOOT \<noteq> 0"
    by (simp add: shooter_world_def ACTION_SHOOT_def)
  have cooldown: "plr_shoot_cooldown (player shooter_world) - 1 / 16 \<le> 0"
    by (simp add: shooter_world_def demo_world_eq)
  have fail: "alloc [False] = (False, [])" by simp
  from failed_spawn_aborts_frame [OF loop drain shoot cooldown fail]
    loop drain shoot cooldown fail
  show ?thesis by blast
qed

text \<open>
  C5. \<open>world_new\<close> is to return null when an allocation or an initialisation fails,
  with everything built so far released. When the second \<open>list_new\<close> fails, after the
  World record and the asteroid list were allocated, the code calls
  \<open>world_destroy(NULL)\<close>, which does nothing: the result is null and both blocks stay
  allocated.
\<close>

theorem world_new_list_failure_leaks:
  "world_new MAX_ENEMIES ([True, True, False], []) =
     (None, [], [WorldBlock, AsteroidListBlock])"
  by (simp add: world_new_def make_block_def world_destroy_def)

text \<open>
  C6. After a frame that ran its loops, an enemy in use that is alive has the velocity
  the steering update gave it: its current velocity plus the steering delta, clamped
  to its speed, where the delta is the desired velocity (towards the player, at its
  speed) minus the current velocity, clamped to the turn limit 0.5. The delta is at
  most 0.5 long and, for a speed that is not negative, the new velocity is at most
  the speed long, whatever the old velocity and wherever the player is.
\<close>

theorem steering_speed_bound:
  assumes wu: "world_update detect (sim_acc, h, w) dt = Inr (1, sim_acc', h', w')"
    and i: "i < enemy_count w" "i < length (enemies w)"
    and alive: "0 < en_hitpoints (enemies w' ! i)"
    and speed: "0 \<le> en_speed (enemies w ! i)"
  shows "(let enemy = enemies w ! i;
              plr = player w';
              curr_vel = vec (en_xvel enemy) (en_yvel enemy) 0 0;
              target = vec (plr_x plr) (plr_y plr) 0 0;
              pos = vec (en_x enemy) (en_y enemy) 0 0;
              desired = vec_mulf (vec_norm (vec_sub target pos)) (en_speed enemy);
              steer = vec_clamp (vec_sub desired curr_vel) 0.5;
              vel = vec (en_xvel (enemies w' ! i)) (en_yvel (enemies w' ! i)) 0 0
          in vel = vec_clamp (vec_add curr_vel steer) (en_speed enemy) \<and>
             vec_len steer \<le> 0.5 \<and>
             vec_len vel \<le> en_speed enemy \<and>
             en_speed (enemies w' ! i) = en_speed enemy)"
proof -
  from world_update_enemy [OF wu i(2)] i(1) obtain e2 where
    e2: "e2 = enemies w ! i \<or> e2 = (enemies w ! i)\<lparr>en_hitpoints := 0\<rparr>" and
    w': "enemies w' ! i = update_enemy (player w') dt e2"
    by auto
  from alive w' have "0 < en_hitpoints e2"
    by (simp add: update_enemy_keeps)
  with e2 have eq: "e2 = enemies w ! i" and live: "0 < en_hitpoints (enemies w ! i)"
    by auto
  have "vec_len (vec_clamp v 0.5) \<le> 0.5" for v
    by (rule vec_clamp_len) simp
  with speed show ?thesis
    by (simp add: Let_def w' eq update_enemy_velocity [OF live] update_enemy_keeps
        vec_clamp_len)
qed

theorem steering_speed_bound_witness:
  "world_update silent (0, [], chase_world) (1 / 100) = Inr (1, 1 / 100, [], chase_world_after) \<and>
   (0 :: nat) < enemy_count chase_world \<and> 0 < length (enemies chase_world) \<and>
   0 < en_hitpoints (enemies chase_world_after ! 0) \<and>
   0 \<le> en_speed (enemies chase_world ! 0) \<and>
   vec (en_xvel (enemies chase_world_after ! 0)) (en_yvel (enemies chase_world_after ! 0)) 0 0
     = vec 0 (1 / 2) 0 0 \<and>
   vec_len (vec (en_xvel (enemies chase_world_after ! 0))
      (en_yvel (enemies chase_world_after ! 0)) 0 0)
     \<le> en_speed (enemies chase_world ! 0)"
proof -
  have i: "(0 :: nat) < enemy_count chase_world" "0 < length (enemies chase_world)"
    by (simp_all add: chase_world_eq)
  have alive: "0 < en_hitpoints (enemies chase_world_after ! 0)"
    by (simp add: chase_world_after_def chase_world_eq)
  have speed: "0 \<le> en_speed (enemies chase_world ! 0)"
    by (simp add: chase_world_eq)
  have vel: "vec (en_xvel (enemies chase_world_after ! 0))
      (en_yvel (enemies chase_world_after ! 0)) 0 0 = vec 0 (1 / 2) 0 0"
    by (simp add: chase_world_after_def chase_world_eq)
  from steering_speed_bound [OF chase_frame i alive speed, unfolded Let_def]
  have bound: "vec_len (vec (en_xvel (enemies chase_world_after ! 0))
      (en_yvel (enemies chase_world_after ! 0)) 0 0) \<le> en_speed (enemies chase_world ! 0)"
    by blast
  show ?thesis
    by (intro conjI) (fact chase_frame i alive speed vel bound)+
qed

text \<open>
  C7. An enemy whose hitpoints are at most 0 keeps its position, its velocity and its
  rotation through any number of calls of \<open>world_update\<close>, stays dead, and stays in the
  array: neither the array nor the count of slots in use changes.
\<close>

theorem dead_enemy_never_moves:
  assumes "world_updates detect (sim_acc, h, w) dts = Inr (sim_acc', h', w')"
    and "i < length (enemies w)" and "en_hitpoints (enemies w ! i) \<le> 0"
  shows "en_x (enemies w' ! i) = en_x (enemies w ! i) \<and>
     en_y (enemies w' ! i) = en_y (enemies w ! i) \<and>
     en_xvel (enemies w' ! i) = en_xvel (enemies w ! i) \<and>
     en_yvel (enemies w' ! i) = en_yvel (enemies w ! i) \<and>
     en_rot (enemies w' ! i) = en_rot (enemies w ! i) \<and>
     en_hitpoints (enemies w' ! i) \<le> 0 \<and>
     length (enemies w') = length (enemies w) \<and> enemy_count w' = enemy_count w"
  using world_updates_dead [OF assms] by (simp add: same_motion_def)

theorem dead_enemy_never_moves_witness:
  "world_updates silent (0, [], demo_world_hit) [1 / 100, 1 / 100] =
     Inr (1 / 50, [],
          demo_world_hit\<lparr>player := (player demo_world_hit)\<lparr>plr_shoot_cooldown := - (3 / 25)\<rparr>\<rparr>) \<and>
   0 < length (enemies demo_world_hit) \<and> en_hitpoints (enemies demo_world_hit ! 0) \<le> 0 \<and>
   en_x (enemies (demo_world_hit\<lparr>player := (player demo_world_hit)
            \<lparr>plr_shoot_cooldown := - (3 / 25)\<rparr>\<rparr>) ! 0)
     = en_x (enemies demo_world_hit ! 0) \<and>
   enemy_count (demo_world_hit\<lparr>player := (player demo_world_hit)
            \<lparr>plr_shoot_cooldown := - (3 / 25)\<rparr>\<rparr>) = enemy_count demo_world_hit"
proof -
  let ?w' = "demo_world_hit\<lparr>player := (player demo_world_hit)\<lparr>plr_shoot_cooldown := - (3 / 25)\<rparr>\<rparr>"
  have run: "world_updates silent (0, [], demo_world_hit) [1 / 100, 1 / 100] = Inr (1 / 50, [], ?w')"
    by (simp add: world_update_def sim_loop_stop demo_world_hit_def demo_world_eq
        consts_defs Let_def update_player_position_def update_entities_def update_enemy_def
        zero_enemy_def)
  have i: "0 < length (enemies demo_world_hit)"
    by (simp add: demo_world_hit_def)
  have dead: "en_hitpoints (enemies demo_world_hit ! 0) \<le> 0"
    by (simp add: demo_world_hit_def)
  from dead_enemy_never_moves [OF run i dead] run i dead show ?thesis by simp
qed

text \<open>
  C8. On a World with no enemy yet and an array of \<open>MAX_ENEMIES\<close> slots, with every
  registration of a body succeeding, \<open>MAX_ENEMIES + 1\<close> calls of \<open>world_add_enemy\<close> return
  0, 1, ... \<open>MAX_ENEMIES - 1\<close> and then -1. Slot \<open>i\<close> then holds the \<open>i\<close>-th enemy
  passed, with the initial hitpoints and the handle \<open>i\<close>, and its body is registered.
\<close>

theorem add_enemy_capacity:
  assumes "enemy_count w = 0" and "length (enemies w) = MAX_ENEMIES"
    and "length es = MAX_ENEMIES" and "\<forall>ok \<in> set h. ok"
  shows "\<exists>h' w'.
     add_enemies MAX_ENEMIES (es @ [e]) (h, w) = (map int [0..<MAX_ENEMIES] @ [- 1], h', w') \<and>
     enemy_count w' = MAX_ENEMIES \<and>
     (\<forall>i < MAX_ENEMIES.
        en_hitpoints (enemies w' ! i) = ENEMY_INITIAL_HITPOINTS \<and>
        en_id (enemies w' ! i) = int i \<and>
        en_x (enemies w' ! i) = en_x (es ! i) \<and>
        en_y (enemies w' ! i) = en_y (es ! i) \<and>
        en_speed (enemies w' ! i) = en_speed (es ! i) \<and>
        EnemyRef i \<in> set (bodies (sim w')))"
proof -
  from assms have "enemy_count w + length es \<le> MAX_ENEMIES" by simp
  from add_enemies_ok [OF this assms(2,4)] assms(1,3) obtain h' w' where
    run: "add_enemies MAX_ENEMIES es (h, w) = (map int [0..<MAX_ENEMIES], h', w')" and
    cnt: "enemy_count w' = MAX_ENEMIES" and
    slots: "\<forall>j < MAX_ENEMIES.
        en_hitpoints (enemies w' ! j) = ENEMY_INITIAL_HITPOINTS \<and>
        en_id (enemies w' ! j) = int j \<and>
        en_x (enemies w' ! j) = en_x (es ! j) \<and>
        en_y (enemies w' ! j) = en_y (es ! j) \<and>
        en_speed (enemies w' ! j) = en_speed (es ! j) \<and>
        EnemyRef j \<in> set (bodies (sim w'))"
    by auto
  from cnt have "world_add_enemy MAX_ENEMIES e (h', w') = (- 1, h', w')"
    by (simp add: world_add_enemy_def)
  with run have "add_enemies MAX_ENEMIES (es @ [e]) (h, w)
      = (map int [0..<MAX_ENEMIES] @ [- 1], h', w')"
    by (simp add: add_enemies_append)
  with cnt slots show ?thesis by blast
qed

theorem add_enemy_capacity_witness:
  "enemy_count fresh_world = 0 \<and> length (enemies fresh_world) = 2 \<and>
   length [demo_enemy, demo_enemy] = 2 \<and>
   fst (add_enemies 2 ([demo_enemy, demo_enemy] @ [demo_enemy]) ([], fresh_world)) = [0, 1, - 1]"
proof -
  have a: "enemy_count fresh_world = 0" "length (enemies fresh_world) = 2"
    "length [demo_enemy, demo_enemy] = 2" "\<forall>ok \<in> set ([] :: heap). ok"
    by (simp_all add: fresh_world_def new_world_def Let_def)
  from add_enemy_capacity [OF a, of demo_enemy] obtain h' w' where
    "add_enemies 2 ([demo_enemy, demo_enemy] @ [demo_enemy]) ([], fresh_world)
      = (map int [0..<2] @ [- 1], h', w')"
    by blast
  then have "fst (add_enemies 2 ([demo_enemy, demo_enemy] @ [demo_enemy]) ([], fresh_world))
      = [0, 1, - 1]"
    by (simp add: upt_rec)
  with a show ?thesis by simp
qed

text \<open>
  C9. Every frame that runs its loops moves each asteroid by its velocity times \<open>dt\<close>
  and turns it by its rotation speed times \<open>dt\<close>; the rotation is to stay within
  \<open>[0, 2\<pi>)\<close>. The code takes one full turn off when the rotation has reached \<open>2\<pi>\<close>
  and does nothing else. The asteroid of the example starts at rotation 0 with the
  rotation speed -1: after a frame of a sixteenth of a second its rotation is negative.
\<close>

theorem asteroid_rotation_leaves_range:
  "map_option (map ast_x \<circ> asteroid_list)
     (frame_world (world_update silent (0, [], asteroid_world) (1 / 16))) = Some [101] \<and>
   map_option (map ast_rot \<circ> asteroid_list)
     (frame_world (world_update silent (0, [], asteroid_world) (1 / 16))) = Some [- (1 / 16)]"
proof -
  have "\<not> pi * 2 \<le> - (1 / 16)"
    using pi_gt_zero by linarith
  then show ?thesis
    by (simp add: world_update_def sim_loop_stop SIMULATION_STEP_def)
       (simp add: asteroid_world_def demo_world_eq consts_defs Let_def frame_world_def
          update_player_position_def update_entities_fields update_asteroid_def
          demo_asteroid_def)
qed

text \<open>
  C10. \<open>handle_player_collision\<close> returns the flag 1 for every pair of bodies, whether
  or not it sent an event. It sends at most one event, and only when the first body is
  a Player and the second an Enemy or an Asteroid; nothing else in the World changes.
  The only ways not to return are the faults of that same case: a userdata pointer
  that leads nowhere, and the exit of \<open>add_event\<close> when a full queue cannot grow.
\<close>

theorem handle_player_collision_continues:
  "(case handle_player_collision a b (h, w) of
      Inl f \<Rightarrow>
        b_type a = BODY_TYPE_PLAYER \<and>
        (b_type b = BODY_TYPE_ENEMY \<or> b_type b = BODY_TYPE_ASTEROID) \<and>
        (f = BadPointer \<and> collision_event w b = None \<or>
         f = OutOfMemoryExit \<and> event_count w = event_queue_size w \<and> alloc h = (False, tl h))
    | Inr (r, h', w') \<Rightarrow>
        r = 1 \<and>
        ((h', w') = (h, w) \<or>
         b_type a = BODY_TYPE_PLAYER \<and>
         (b_type b = BODY_TYPE_ENEMY \<or> b_type b = BODY_TYPE_ASTEROID) \<and>
         (\<exists>evt qs. w' = w\<lparr>event_queue := event_queue w @ [evt], event_queue_size := qs\<rparr>)))"
proof (cases "handle_player_collision a b (h, w)")
  case (Inl f)
  then show ?thesis
    by (cases h)
       (auto simp: handle_player_collision_def collision_event_def add_event_def
        split: if_splits option.splits sum.splits prod.splits bool.splits)
next
  case (Inr res)
  obtain r h' w' where res: "res = (r, h', w')" by (cases res)
  show ?thesis
  proof (cases "b_type a = BODY_TYPE_PLAYER \<and>
      (b_type b = BODY_TYPE_ENEMY \<or> b_type b = BODY_TYPE_ASTEROID)")
    case False
    with Inr res show ?thesis
      by (auto simp: handle_player_collision_def collision_event_def
          split: if_splits option.splits sum.splits)
  next
    case True
    with Inr res obtain evt where "add_event evt (h, w) = Inr (h', w')" "r = 1"
      by (auto simp: handle_player_collision_def collision_event_def consts_defs
          split: if_splits option.splits sum.splits)
    with add_event_frame [of evt h w h' w'] True Inr res show ?thesis
      by auto
  qed
qed

theorem handle_player_collision_continues_witness:
  "(case handle_player_collision (plr_body (player demo_world))
           (en_body (enemies demo_world ! 0)) ([], demo_world) of
      Inl f \<Rightarrow> False
    | Inr (r, h', w') \<Rightarrow>
        r = 1 \<and> event_queue w' = [\<lparr>evt_type = EVENT_ENEMY_HIT, evt_entity_hnd = 0\<rparr>])"
  using handle_player_collision_continues
    [where a = "plr_body (player demo_world)" and b = "en_body (enemies demo_world ! 0)"
       and h = "[]" and w = demo_world]
  by (simp add: demo_world_eq handle_player_collision_def collision_event_def enemy_at_def
      add_event_def event_count_def consts_defs)

end
